theory Spec2Isabelle
  imports Main
begin

section \<open>Python values, events and hooks\<close>

text \<open>
  The plugin manager of \<^verbatim>\<open>cloudbot/plugin.py\<close> is embedded as pure functions over an
  explicit manager state. Everything the manager does besides returning a value (calling a
  plugin's callable, the event's setup and teardown calls, log records above the info level)
  is written to a trace of actions, in the order the code performs it.

  A callable of a plugin is a parameter of the model: what it returns or raises for the
  arguments it is called with; callables do not reach back into the manager's state.
  \<open>py_exception\<close> are the exceptions of the model. \<open>Interrupt\<close> stands for an
  instance of a subclass of \<^verbatim>\<open>BaseException\<close> that is no \<^verbatim>\<open>Exception\<close>
  (\<^verbatim>\<open>KeyboardInterrupt\<close>, \<^verbatim>\<open>SystemExit\<close>, \<^verbatim>\<open>GeneratorExit\<close>, a task's
  cancellation); every other constructor is an instance of a subclass of
  \<^verbatim>\<open>Exception\<close>. \<open>is_Exception\<close> is what \<^verbatim>\<open>except Exception\<close> catches.
\<close>

datatype py_exception =
    ValueError
  | KeyError
  | AssertionError
  | PluginError string
  | Interrupt string

fun is_Exception :: "py_exception \<Rightarrow> bool" where
  "is_Exception (Interrupt name) = False"
| "is_Exception e = True"

datatype pyval =
    PNone
  | PBool bool
  | PInt int
  | PStr string
  | PExc py_exception
  | PRef nat
  | PEvent "(string \<times> pyval) list"

text \<open>
  Modelled from the spec: the event classes (\<^verbatim>\<open>cloudbot.event\<close>) are not part of the
  source. An event reports context values by name (\<^verbatim>\<open>hasattr\<close>/\<^verbatim>\<open>getattr\<close>); every
  event carries \<^verbatim>\<open>bot\<close> and \<^verbatim>\<open>conn\<close>, which \<^verbatim>\<open>_execute_hook\<close> reads without a
  guard. The scoped setup and teardown calls are recorded in the trace.
\<close>

record event =
  ev_bot :: pyval
  ev_conn :: pyval
  ev_attrs :: "(string \<times> pyval) list"

definition event_getattr :: "event \<Rightarrow> string \<Rightarrow> pyval option" where
  "event_getattr ev name =
     (if name = ''bot'' then Some (ev_bot ev)
      else if name = ''conn'' then Some (ev_conn ev)
      else map_of (ev_attrs ev) name)"

text \<open>
  The fields of class \<^verbatim>\<open>Hook\<close> and of its subclasses that the manager reads. \<open>hook_id\<close>
  is the identity of the Python object: \<^verbatim>\<open>Hook\<close> defines no \<^verbatim>\<open>__eq__\<close>, so
  \<^verbatim>\<open>==\<close> and \<^verbatim>\<open>list.remove\<close> compare hooks by identity. \<open>plugin_title\<close> is
  \<^verbatim>\<open>hook.plugin.title\<close>. \<open>triggers\<close>, \<open>types\<close> and \<open>regexes\<close> are Python sets,
  listed in their iteration order.
\<close>

record hook_desc =
  hook_id :: nat
  hook_type :: string
  plugin_title :: string
  function_name :: string
  required_args :: "string list"
  threaded :: bool
  single_thread :: bool
  priority :: int
  aliases :: "string list"
  triggers :: "string list"
  types :: "string list"
  regexes :: "string list"
  caps :: "string list"
  perms :: "string list"

text \<open>
  \<open>hook_function\<close> is \<^verbatim>\<open>hook.function(*parameters)\<close>; \<open>sieve_function\<close> is the same
  callable under the calling convention of sieves, \<^verbatim>\<open>sieve.function(bot, event, hook)\<close>,
  whose result is an event or \<^verbatim>\<open>None\<close>.
\<close>

record hook = hook_desc +
  hook_function :: "pyval list \<Rightarrow> py_exception + pyval"
  sieve_function :: "event \<Rightarrow> hook_desc \<Rightarrow> py_exception + event option"

definition description :: "'a hook_desc_scheme \<Rightarrow> string" where
  "description h = plugin_title h @ '':'' @ function_name h"

datatype action =
    PrepareThreaded nat
  | CloseThreaded nat
  | Prepare nat
  | Close nat
  | Call nat "pyval list"
  | SieveCall nat nat
  | LogInvalidArgument string string
  | LogHookError string
  | LogSieveError string string
  | LogAliasConflict string string string
  | LogOnStartErrored string
  | LogNotWhitelisted string
  | LogBlacklisted string
  | LogImportError string
  | CreateTable string
  | StartPeriodic nat
  | CancelTask nat
  | SetResult nat

section \<open>Parameter binding and invocation\<close>

text \<open>
  \<^verbatim>\<open>_prepare_parameters\<close>: the loop over \<^verbatim>\<open>hook.required_args\<close>, with the list built
  so far; \<open>None\<close> is the early \<^verbatim>\<open>return None\<close>.
\<close>

fun bind_parameters :: "string \<Rightarrow> event \<Rightarrow> string list \<Rightarrow> pyval list \<Rightarrow> pyval list option \<times> action list" where
  "bind_parameters d ev [] parameters = (Some parameters, [])"
| "bind_parameters d ev (required_arg # rest) parameters =
     (case event_getattr ev required_arg of
        Some v \<Rightarrow> bind_parameters d ev rest (parameters @ [v])
      | None \<Rightarrow> (None, [LogInvalidArgument d required_arg]))"

definition prepare_parameters :: "hook \<Rightarrow> event \<Rightarrow> pyval list option \<times> action list" where
  "prepare_parameters h ev = bind_parameters (description h) ev (required_args h) []"

text \<open>
  \<^verbatim>\<open>_execute_hook_threaded\<close> and \<^verbatim>\<open>_execute_hook_sync\<close>: setup, binding, and the call
  inside \<^verbatim>\<open>try ... finally\<close>. \<open>Inl e\<close> is the exception leaving the function.
\<close>

definition execute_hook_threaded :: "hook \<Rightarrow> event \<Rightarrow> (py_exception + pyval) \<times> action list" where
  "execute_hook_threaded h ev =
     (case prepare_parameters h ev of
        (None, lg) \<Rightarrow> (Inr PNone, PrepareThreaded (hook_id h) # lg)
      | (Some parameters, lg) \<Rightarrow>
          (hook_function h parameters,
           PrepareThreaded (hook_id h) # lg @ [Call (hook_id h) parameters, CloseThreaded (hook_id h)]))"

definition execute_hook_sync :: "hook \<Rightarrow> event \<Rightarrow> (py_exception + pyval) \<times> action list" where
  "execute_hook_sync h ev =
     (case prepare_parameters h ev of
        (None, lg) \<Rightarrow> (Inr PNone, Prepare (hook_id h) # lg)
      | (Some parameters, lg) \<Rightarrow>
          (hook_function h parameters,
           Prepare (hook_id h) # lg @ [Call (hook_id h) parameters, Close (hook_id h)]))"

text \<open>
  \<^verbatim>\<open>internal_launch\<close>: \<open>Inr\<close> of the pair \<^verbatim>\<open>(ok, result)\<close> it returns, or
  \<open>Inl\<close> of the exception that \<^verbatim>\<open>except Exception\<close> does not catch and that leaves
  the function.
\<close>

definition internal_launch :: "hook \<Rightarrow> event \<Rightarrow> (py_exception + bool \<times> pyval) \<times> action list" where
  "internal_launch h ev =
     (case (if threaded h then execute_hook_threaded h ev else execute_hook_sync h ev) of
        (Inl e, tr) \<Rightarrow>
          if is_Exception e then (Inr (False, PExc e), tr @ [LogHookError (description h)])
          else (Inl e, tr)
      | (Inr out, tr) \<Rightarrow> (Inr (True, out), tr))"

text \<open>
  Modelled from the spec: \<^verbatim>\<open>cloudbot.event.PostHookEvent\<close> is not part of the source. It
  is the synthetic event describing the completed invocation: which hook ran, the
  triggering event, the result or the error, built with the keyword arguments
  \<^verbatim>\<open>_execute_hook\<close> passes.
\<close>

definition PostHookEvent :: "hook \<Rightarrow> event \<Rightarrow> pyval \<Rightarrow> pyval \<Rightarrow> hook \<Rightarrow> event" where
  "PostHookEvent launched_hook launched_event result error post_hook =
     \<lparr>ev_bot = ev_bot launched_event,
      ev_conn = ev_conn launched_event,
      ev_attrs =
        [(''hook'', PRef (hook_id post_hook)),
         (''launched_hook'', PRef (hook_id launched_hook)),
         (''launched_event'', PEvent (ev_attrs launched_event)),
         (''result'', result),
         (''error'', error)]\<rparr>"

text \<open>
  The loop over \<^verbatim>\<open>self.hook_hooks["post"]\<close> of \<^verbatim>\<open>_execute_hook\<close>; the \<^verbatim>\<open>break\<close> is
  taken when the post-hook ran without error and its result is the object \<^verbatim>\<open>False\<close>
  (\<^verbatim>\<open>res is False\<close>). The first component is the exception that left
  \<^verbatim>\<open>internal_launch\<close> and so the loop, if any.
\<close>

fun run_post_hooks :: "(hook \<Rightarrow> event) \<Rightarrow> hook list \<Rightarrow> py_exception option \<times> action list" where
  "run_post_hooks post_event [] = (None, [])"
| "run_post_hooks post_event (post_hook # rest) =
     (case internal_launch post_hook (post_event post_hook) of
        (Inl e, tr) \<Rightarrow> (Some e, tr)
      | (Inr (success, res), tr) \<Rightarrow>
          if success \<and> res = PBool False then (None, tr)
          else (case run_post_hooks post_event rest of (r, tr') \<Rightarrow> (r, tr @ tr')))"


section \<open>The manager's state\<close>

text \<open>
  Class \<^verbatim>\<open>Plugin\<close>. \<open>hooks\<close> is a \<^verbatim>\<open>defaultdict(list)\<close> keyed by hook type: the
  manager only ever indexes it, so it is a total function with \<open>[]\<close> for an absent key.
  \<open>tables\<close> are the names of the table definitions, \<open>tasks\<close> the periodic hooks whose
  background loops the plugin owns.
\<close>

record plugin =
  file_path :: string
  file_name :: string
  title :: string
  hooks :: "string \<Rightarrow> hook list"
  tables :: "string list"
  tasks :: "nat list"

text \<open>
  What the manager uses of the bot: the \<^verbatim>\<open>plugin_loading\<close> section of the configuration
  (with the defaults of its \<^verbatim>\<open>get\<close> calls applied), the schema registry
  \<^verbatim>\<open>bot.db_metadata\<close>, the tables that exist in \<^verbatim>\<open>bot.db_engine\<close>, and the
  context-only event \<^verbatim>\<open>Event(bot=self.bot, hook=h)\<close>, whose class is not part of the
  source and is taken as a parameter. \<open>str_casefold\<close> is Python's \<^verbatim>\<open>str.casefold\<close>,
  the Unicode case folding of the interpreter, taken as a parameter too.
\<close>

record plugin_loading =
  use_whitelist :: bool
  whitelist :: "string list"
  blacklist :: "string list"

record cloudbot =
  config_plugin_loading :: "plugin_loading option"
  db_metadata :: "string set"
  db_engine :: "string set"
  new_event :: "hook \<Rightarrow> event"
  str_casefold :: "string \<Rightarrow> string"

type_synonym key = "string \<times> string"

text \<open>
  Class \<^verbatim>\<open>PluginManager\<close>. The plain dictionaries are partial maps; the
  \<^verbatim>\<open>defaultdict(list)\<close> ones (\<open>cap_hooks\<close>, \<open>hook_hooks\<close>, \<open>perm_hooks\<close>) are total
  functions with \<open>[]\<close> for an absent key, since the code only indexes them and iterates
  their values. In \<open>hook_waiting_queues\<close> a key maps to \<open>None\<close> (the marker: running, no
  queue object) or to \<open>Some q\<close>, the queue of futures. \<open>next_future\<close> names the next
  \<^verbatim>\<open>asyncio.Future()\<close> object.
\<close>

record plugin_manager =
  the_bot :: cloudbot
  plugins :: "string \<rightharpoonup> plugin"
  plugin_name_map :: "string \<rightharpoonup> plugin"
  commands :: "string \<rightharpoonup> hook"
  raw_triggers :: "string \<rightharpoonup> hook list"
  catch_all_triggers :: "hook list"
  event_type_hooks :: "string \<rightharpoonup> hook list"
  regex_hooks :: "(string \<times> hook) list"
  sieves :: "hook list"
  cap_hooks_on_available :: "string \<Rightarrow> hook list"
  cap_hooks_on_ack :: "string \<Rightarrow> hook list"
  connect_hooks :: "hook list"
  out_sieves :: "hook list"
  hook_hooks :: "string \<Rightarrow> hook list"
  perm_hooks :: "string \<Rightarrow> hook list"
  hook_waiting_queues :: "key \<rightharpoonup> nat list option"
  next_future :: nat

section \<open>Dispatch\<close>

text \<open>
  \<^verbatim>\<open>_execute_hook\<close>: the invocation, then the post-hook chain; \<open>Inr ok\<close> is the
  \<^verbatim>\<open>ok\<close> it returns, \<open>Inl\<close> the exception that left an \<^verbatim>\<open>internal_launch\<close>
  and so leaves it.
\<close>

definition execute_hook :: "plugin_manager \<Rightarrow> hook \<Rightarrow> event \<Rightarrow> (py_exception + bool) \<times> action list" where
  "execute_hook m h ev =
     (case internal_launch h ev of
        (Inl e, tr) \<Rightarrow> (Inl e, tr)
      | (Inr (ok, out), tr) \<Rightarrow>
          (let result = (if ok then out else PNone);
               error = (if ok then PNone else out);
               post_event = PostHookEvent h ev result error
           in case run_post_hooks post_event (hook_hooks m ''post'') of
                (None, tr') \<Rightarrow> (Inr ok, tr @ tr')
              | (Some e, tr') \<Rightarrow> (Inl e, tr @ tr')))"

text \<open>
  \<^verbatim>\<open>_sieve\<close>: one sieve applied to the event and the target hook. \<open>Inr\<close> is what it
  returns (\<open>None\<close> also when \<^verbatim>\<open>except Exception\<close> caught the sieve's exception),
  \<open>Inl\<close> the exception it does not catch.
\<close>

definition sieve :: "hook \<Rightarrow> event \<Rightarrow> hook \<Rightarrow> (py_exception + event option) \<times> action list" where
  "sieve s ev h =
     (case sieve_function s ev (hook_desc.truncate h) of
        Inl e \<Rightarrow>
          if is_Exception e
          then (Inr None, [SieveCall (hook_id s) (hook_id h), LogSieveError (description s) (description h)])
          else (Inl e, [SieveCall (hook_id s) (hook_id h)])
      | Inr result \<Rightarrow> (Inr result, [SieveCall (hook_id s) (hook_id h)]))"

text \<open>
  The sieve loop of \<^verbatim>\<open>launch\<close>; \<open>Inr None\<close> is its \<^verbatim>\<open>return False\<close>, \<open>Inl\<close> the
  exception that left \<^verbatim>\<open>_sieve\<close>.
\<close>

fun run_sieves :: "hook list \<Rightarrow> event \<Rightarrow> hook \<Rightarrow> (py_exception + event option) \<times> action list" where
  "run_sieves [] ev h = (Inr (Some ev), [])"
| "run_sieves (s # rest) ev h =
     (case sieve s ev h of
        (Inl e, tr) \<Rightarrow> (Inl e, tr)
      | (Inr None, tr) \<Rightarrow> (Inr None, tr)
      | (Inr (Some ev'), tr) \<Rightarrow> (case run_sieves rest ev' h of (r, tr') \<Rightarrow> (r, tr @ tr')))"

text \<open>
  The serialization gate of \<^verbatim>\<open>launch\<close>. \<open>gate_enter\<close> is the code from
  \<^verbatim>\<open>if key in self._hook_waiting_queues\<close> up to the \<^verbatim>\<open>yield from future\<close>: the flag
  says whether the caller must wait on the future \<open>fut\<close> it has enqueued. \<open>gate_exit\<close>
  is the code after \<^verbatim>\<open>_execute_hook\<close>: \<open>None\<close> is the \<^verbatim>\<open>KeyError\<close> of
  \<^verbatim>\<open>self._hook_waiting_queues[key]\<close>, otherwise the new mapping and the future whose
  result is set, if any. None of the two has a suspension point inside
  (\<^verbatim>\<open>queue.get()\<close> returns at once on a non-empty queue).
\<close>

definition hook_key :: "hook \<Rightarrow> key" where
  "hook_key h = (plugin_title h, function_name h)"

definition gate_enter :: "key \<Rightarrow> nat \<Rightarrow> (key \<rightharpoonup> nat list option) \<Rightarrow> (key \<rightharpoonup> nat list option) \<times> bool" where
  "gate_enter k fut qs =
     (case qs k of
        Some queue \<Rightarrow> (qs(k \<mapsto> Some ((case queue of None \<Rightarrow> [] | Some q \<Rightarrow> q) @ [fut])), True)
      | None \<Rightarrow> (qs(k \<mapsto> None), False))"

definition gate_exit :: "key \<Rightarrow> (key \<rightharpoonup> nat list option) \<Rightarrow> ((key \<rightharpoonup> nat list option) \<times> nat option) option" where
  "gate_exit k qs =
     (case qs k of
        None \<Rightarrow> None
      | Some None \<Rightarrow> Some (qs(k := None), None)
      | Some (Some []) \<Rightarrow> Some (qs(k := None), None)
      | Some (Some (fut # rest)) \<Rightarrow> Some (qs(k \<mapsto> Some rest), Some fut))"

text \<open>
  \<open>sieve_stage\<close> is the sieve block at the head of \<^verbatim>\<open>launch\<close>
  (\<^verbatim>\<open>self.bot.plugin_manager\<close> is the manager itself).
  \<^verbatim>\<open>launch\<close>, as one coroutine run without interleaving until it returns, raises, or
  parks on the future it enqueued (\<open>Parked\<close>: nothing in a run of its own releases it).
  \<open>finish_launch\<close> is the part of the single-instance branch that follows the gate: it
  is what a parked call runs once its future is released. An exception that leaves
  \<^verbatim>\<open>_execute_hook\<close> there leaves \<^verbatim>\<open>launch\<close> before the code that releases the key.
\<close>

datatype launch_result = Returned bool | Parked nat | Raised py_exception

definition finish_launch :: "plugin_manager \<Rightarrow> hook \<Rightarrow> event \<Rightarrow> launch_result \<times> plugin_manager \<times> action list" where
  "finish_launch m h ev =
     (case execute_hook m h ev of
        (Inl e, tr) \<Rightarrow> (Raised e, m, tr)
      | (Inr result, tr) \<Rightarrow>
          (case gate_exit (hook_key h) (hook_waiting_queues m) of
             None \<Rightarrow> (Raised KeyError, m, tr)
           | Some (qs, None) \<Rightarrow> (Returned result, m\<lparr>hook_waiting_queues := qs\<rparr>, tr)
           | Some (qs, Some fut) \<Rightarrow>
               (Returned result, m\<lparr>hook_waiting_queues := qs\<rparr>, tr @ [SetResult fut])))"

definition sieve_stage :: "plugin_manager \<Rightarrow> hook \<Rightarrow> event \<Rightarrow> (py_exception + event option) \<times> action list" where
  "sieve_stage m h ev =
     (if hook_type h \<notin> {''on_start'', ''on_stop'', ''periodic''}
      then run_sieves (sieves m) ev h else (Inr (Some ev), []))"

definition launch :: "plugin_manager \<Rightarrow> hook \<Rightarrow> event \<Rightarrow> launch_result \<times> plugin_manager \<times> action list" where
  "launch m h ev =
     (case sieve_stage m h ev of
        (Inl e, tr) \<Rightarrow> (Raised e, m, tr)
      | (Inr None, tr) \<Rightarrow> (Returned False, m, tr)
      | (Inr (Some ev'), tr) \<Rightarrow>
          if single_thread h then
            (case gate_enter (hook_key h) (next_future m) (hook_waiting_queues m) of
               (qs, True) \<Rightarrow>
                 (Parked (next_future m),
                  m\<lparr>hook_waiting_queues := qs, next_future := Suc (next_future m)\<rparr>, tr)
             | (qs, False) \<Rightarrow>
                 (case finish_launch (m\<lparr>hook_waiting_queues := qs\<rparr>) h ev' of
                    (r, m', tr') \<Rightarrow> (r, m', tr @ tr')))
          else (case execute_hook m h ev' of
                  (Inl e, tr') \<Rightarrow> (Raised e, m, tr @ tr')
                | (Inr result, tr') \<Rightarrow> (Returned result, m, tr @ tr')))"


section \<open>Plugins and their tables\<close>

text \<open>
  What importing a plugin module yields: \<open>module_hooks\<close>, per hook type of
  \<^verbatim>\<open>_hook_name_to_plugin\<close>, the hook objects the classes build from the decorated
  members (the decorators of \<^verbatim>\<open>cloudbot.hook\<close> are not part of the source and create
  no other type), and the names of the \<^verbatim>\<open>sqlalchemy.Table\<close> members registered with
  the bot's metadata.
\<close>

record module =
  module_hooks :: "string \<Rightarrow> hook list"
  module_tables :: "string list"

text \<open>
  \<^verbatim>\<open>find_hooks\<close>: each hook is built by the class of its type, with the plugin as
  \<^verbatim>\<open>parent\<close>.
\<close>

definition find_hooks :: "string \<Rightarrow> module \<Rightarrow> string \<Rightarrow> hook list" where
  "find_hooks parent_title code =
     (\<lambda>t. map (\<lambda>h. h\<lparr>hook_type := t, plugin_title := parent_title\<rparr>) (module_hooks code t))"

definition find_tables :: "module \<Rightarrow> string list" where
  "find_tables code = module_tables code"

definition Plugin :: "string \<Rightarrow> string \<Rightarrow> string \<Rightarrow> module \<Rightarrow> plugin" where
  "Plugin filepath filename ttl code =
     \<lparr>file_path = filepath, file_name = filename, title = ttl,
      hooks = find_hooks ttl code, tables = find_tables code, tasks = []\<rparr>"

text \<open>\<^verbatim>\<open>Plugin.create_tables\<close>: a table is created unless it exists in the engine.\<close>

definition create_tables :: "plugin \<Rightarrow> cloudbot \<Rightarrow> cloudbot \<times> action list" where
  "create_tables p b =
     foldl (\<lambda>(b', tr) table.
              if table \<in> db_engine b' then (b', tr)
              else (b'\<lparr>db_engine := insert table (db_engine b')\<rparr>, tr @ [CreateTable table]))
           (b, []) (tables p)"

text \<open>
  \<^verbatim>\<open>Plugin.unregister_tables\<close>: \<^verbatim>\<open>bot.db_metadata.remove(table)\<close> for every table;
  removing a table the registry does not hold leaves it as it is.
\<close>

definition unregister_tables :: "plugin \<Rightarrow> cloudbot \<Rightarrow> cloudbot" where
  "unregister_tables p b =
     b\<lparr>db_metadata := foldl (\<lambda>md table. md - {table}) (db_metadata b) (tables p)\<rparr>"

section \<open>Unloading\<close>

text \<open>
  \<^verbatim>\<open>list.remove\<close>: the first element equal to the argument is removed; \<open>None\<close> is the
  \<^verbatim>\<open>ValueError\<close> when there is none. Hooks are equal when they are the same object.
\<close>

fun list_remove :: "('a \<Rightarrow> bool) \<Rightarrow> 'a list \<Rightarrow> 'a list option" where
  "list_remove P [] = None"
| "list_remove P (x # xs) = (if P x then Some xs else map_option (Cons x) (list_remove P xs))"

definition same_hook :: "hook \<Rightarrow> hook \<Rightarrow> bool" where
  "same_hook h h' = (hook_id h = hook_id h')"

text \<open>
  A \<^verbatim>\<open>for\<close> loop whose body may raise: the state reached and the exception, if any. The
  changes made before the exception stay, as they do in Python.
\<close>

fun for_loop :: "('a \<Rightarrow> 's \<Rightarrow> 's \<times> py_exception option) \<Rightarrow> 'a list \<Rightarrow> 's \<Rightarrow> 's \<times> py_exception option" where
  "for_loop body [] s = (s, None)"
| "for_loop body (x # xs) s =
     (case body x s of
        (s', None) \<Rightarrow> for_loop body xs s'
      | (s', Some e) \<Rightarrow> (s', Some e))"

definition seq :: "('s \<Rightarrow> 's \<times> py_exception option) \<Rightarrow> ('s \<Rightarrow> 's \<times> py_exception option) \<Rightarrow> 's \<Rightarrow> 's \<times> py_exception option" where
  "seq f g s = (case f s of (s', None) \<Rightarrow> g s' | (s', Some e) \<Rightarrow> (s', Some e))"

definition is_catch_all :: "hook \<Rightarrow> bool" where
  "is_catch_all h = (''*'' \<in> set (triggers h))"

text \<open>The bodies of the unregistration loops of \<^verbatim>\<open>unload_plugin\<close>, in its order.\<close>

definition remove_from_defaultdict :: "hook \<Rightarrow> string \<Rightarrow> (string \<Rightarrow> hook list) \<Rightarrow> (string \<Rightarrow> hook list) \<times> py_exception option" where
  "remove_from_defaultdict h k d =
     (case list_remove (same_hook h) (d k) of
        None \<Rightarrow> (d, Some ValueError)
      | Some l \<Rightarrow> (d(k := l), None))"

definition unregister_cap_available :: "hook \<Rightarrow> plugin_manager \<Rightarrow> plugin_manager \<times> py_exception option" where
  "unregister_cap_available h m =
     (case for_loop (\<lambda>cap. remove_from_defaultdict h (str_casefold (the_bot m) cap)) (caps h) (cap_hooks_on_available m) of
        (d, e) \<Rightarrow> (m\<lparr>cap_hooks_on_available := d\<rparr>, e))"

definition unregister_cap_ack :: "hook \<Rightarrow> plugin_manager \<Rightarrow> plugin_manager \<times> py_exception option" where
  "unregister_cap_ack h m =
     (case for_loop (\<lambda>cap. remove_from_defaultdict h (str_casefold (the_bot m) cap)) (caps h) (cap_hooks_on_ack m) of
        (d, e) \<Rightarrow> (m\<lparr>cap_hooks_on_ack := d\<rparr>, e))"

definition unregister_alias :: "hook \<Rightarrow> (string \<rightharpoonup> hook) \<Rightarrow> string \<Rightarrow> (string \<rightharpoonup> hook)" where
  "unregister_alias h cmds a =
     (case cmds a of
        Some owner \<Rightarrow> if same_hook owner h then cmds(a := None) else cmds
      | None \<Rightarrow> cmds)"

definition unregister_command :: "hook \<Rightarrow> plugin_manager \<Rightarrow> plugin_manager \<times> py_exception option" where
  "unregister_command h m = (m\<lparr>commands := foldl (unregister_alias h) (commands m) (aliases h)\<rparr>, None)"

definition remove_from_dict :: "hook \<Rightarrow> string \<Rightarrow> (string \<rightharpoonup> hook list) \<Rightarrow> (string \<rightharpoonup> hook list) \<times> py_exception option" where
  "remove_from_dict h k d =
     (case d k of
        None \<Rightarrow> (d, Some AssertionError)
      | Some l \<Rightarrow>
          (case list_remove (same_hook h) l of
             None \<Rightarrow> (d, Some ValueError)
           | Some [] \<Rightarrow> (d(k := None), None)
           | Some (x # xs) \<Rightarrow> (d(k \<mapsto> x # xs), None)))"

definition unregister_raw :: "hook \<Rightarrow> plugin_manager \<Rightarrow> plugin_manager \<times> py_exception option" where
  "unregister_raw h m =
     (if is_catch_all h then
        (case list_remove (same_hook h) (catch_all_triggers m) of
           None \<Rightarrow> (m, Some ValueError)
         | Some l \<Rightarrow> (m\<lparr>catch_all_triggers := l\<rparr>, None))
      else
        (case for_loop (remove_from_dict h) (triggers h) (raw_triggers m) of
           (d, e) \<Rightarrow> (m\<lparr>raw_triggers := d\<rparr>, e)))"

definition unregister_event :: "hook \<Rightarrow> plugin_manager \<Rightarrow> plugin_manager \<times> py_exception option" where
  "unregister_event h m =
     (case for_loop (remove_from_dict h) (types h) (event_type_hooks m) of
        (d, e) \<Rightarrow> (m\<lparr>event_type_hooks := d\<rparr>, e))"

definition unregister_regex :: "hook \<Rightarrow> plugin_manager \<Rightarrow> plugin_manager \<times> py_exception option" where
  "unregister_regex h m =
     (case for_loop (\<lambda>regex_match l.
                       case list_remove (\<lambda>(r, h'). r = regex_match \<and> same_hook h h') l of
                         None \<Rightarrow> (l, Some ValueError)
                       | Some l' \<Rightarrow> (l', None))
                    (regexes h) (regex_hooks m) of
        (l, e) \<Rightarrow> (m\<lparr>regex_hooks := l\<rparr>, e))"

definition unregister_sieve :: "hook \<Rightarrow> plugin_manager \<Rightarrow> plugin_manager \<times> py_exception option" where
  "unregister_sieve h m =
     (case list_remove (same_hook h) (sieves m) of
        None \<Rightarrow> (m, Some ValueError)
      | Some l \<Rightarrow> (m\<lparr>sieves := l\<rparr>, None))"

definition unregister_connect :: "hook \<Rightarrow> plugin_manager \<Rightarrow> plugin_manager \<times> py_exception option" where
  "unregister_connect h m =
     (case list_remove (same_hook h) (connect_hooks m) of
        None \<Rightarrow> (m, Some ValueError)
      | Some l \<Rightarrow> (m\<lparr>connect_hooks := l\<rparr>, None))"

definition unregister_out :: "hook \<Rightarrow> plugin_manager \<Rightarrow> plugin_manager \<times> py_exception option" where
  "unregister_out h m =
     (case list_remove (same_hook h) (out_sieves m) of
        None \<Rightarrow> (m, Some ValueError)
      | Some l \<Rightarrow> (m\<lparr>out_sieves := l\<rparr>, None))"

definition unregister_post :: "hook \<Rightarrow> plugin_manager \<Rightarrow> plugin_manager \<times> py_exception option" where
  "unregister_post h m =
     (case remove_from_defaultdict h ''post'' (hook_hooks m) of
        (d, e) \<Rightarrow> (m\<lparr>hook_hooks := d\<rparr>, e))"

definition unregister_perm :: "hook \<Rightarrow> plugin_manager \<Rightarrow> plugin_manager \<times> py_exception option" where
  "unregister_perm h m =
     (case for_loop (remove_from_defaultdict h) (perms h) (perm_hooks m) of
        (d, e) \<Rightarrow> (m\<lparr>perm_hooks := d\<rparr>, e))"

definition unregister_hooks :: "plugin \<Rightarrow> plugin_manager \<Rightarrow> plugin_manager \<times> py_exception option" where
  "unregister_hooks p =
     seq (for_loop unregister_cap_available (hooks p ''on_cap_available''))
    (seq (for_loop unregister_cap_ack (hooks p ''on_cap_ack''))
    (seq (for_loop unregister_command (hooks p ''command''))
    (seq (for_loop unregister_raw (hooks p ''irc_raw''))
    (seq (for_loop unregister_event (hooks p ''event''))
    (seq (for_loop unregister_regex (hooks p ''regex''))
    (seq (for_loop unregister_sieve (hooks p ''sieve''))
    (seq (for_loop unregister_connect (hooks p ''on_connect''))
    (seq (for_loop unregister_out (hooks p ''irc_out''))
    (seq (for_loop unregister_post (hooks p ''post_hook''))
         (for_loop unregister_perm (hooks p ''perm_check'')))))))))))"

text \<open>
  The loop over the \<^verbatim>\<open>on_stop\<close> hooks: each is launched and its result ignored; the loop
  ends early only when a launch parks or raises.
\<close>

fun run_on_stop :: "plugin_manager \<Rightarrow> hook list \<Rightarrow> launch_result \<times> plugin_manager \<times> action list" where
  "run_on_stop m [] = (Returned True, m, [])"
| "run_on_stop m (on_stop_hook # rest) =
     (case launch m on_stop_hook (new_event (the_bot m) on_stop_hook) of
        (Returned b, m', tr) \<Rightarrow> (case run_on_stop m' rest of (r, m'', tr') \<Rightarrow> (r, m'', tr @ tr'))
      | (Parked f, m', tr) \<Rightarrow> (Parked f, m', tr)
      | (Raised e, m', tr) \<Rightarrow> (Raised e, m', tr))"

text \<open>
  \<^verbatim>\<open>unload_plugin\<close>, for the resolved path as a string. \<open>Unloaded\<close> is \<^verbatim>\<open>True\<close>,
  \<open>NotLoaded\<close> is \<^verbatim>\<open>False\<close>. The title lookup \<^verbatim>\<open>_plugin_name_map\<close> holds weak
  references and is not written here: its entry goes when the plugin object is collected,
  which the model does not follow.
\<close>

datatype unload_status = Unloaded | NotLoaded | UnloadParked nat | UnloadRaised py_exception

definition unload_plugin :: "plugin_manager \<Rightarrow> string \<Rightarrow> unload_status \<times> plugin_manager \<times> action list" where
  "unload_plugin m path =
     (case plugins m path of
        None \<Rightarrow> (NotLoaded, m, [])
      | Some p \<Rightarrow>
          (let cancelled = map CancelTask (tasks p) in
           case unregister_hooks p m of
             (m1, Some e) \<Rightarrow> (UnloadRaised e, m1, cancelled)
           | (m1, None) \<Rightarrow>
               (case run_on_stop m1 (hooks p ''on_stop'') of
                  (Parked f, m2, tr) \<Rightarrow> (UnloadParked f, m2, cancelled @ tr)
                | (Raised e, m2, tr) \<Rightarrow> (UnloadRaised e, m2, cancelled @ tr)
                | (Returned b, m2, tr) \<Rightarrow>
                    (let m3 = m2\<lparr>the_bot := unregister_tables p (the_bot m2)\<rparr> in
                     case plugins m3 (file_path p) of
                       None \<Rightarrow> (UnloadRaised KeyError, m3, cancelled @ tr)
                     | Some q \<Rightarrow>
                         (Unloaded, m3\<lparr>plugins := (plugins m3)(file_path p := None)\<rparr>, cancelled @ tr)))))"


section \<open>Loading\<close>

text \<open>
  The request to load a path: the resolved path as a string, the file's name, the title
  derived from the path, and what importing (or reloading) the module gives: an
  exception, or the module.
\<close>

record load_request =
  req_file_path :: string
  req_file_name :: string
  req_title :: string
  req_import :: "py_exception + module"

datatype load_status =
    Loaded
  | NotWhitelisted
  | Blacklisted
  | ImportFailed
  | OnStartFailed
  | LoadParked nat
  | LoadRaised py_exception

text \<open>The allow/deny policy at the head of \<^verbatim>\<open>load_plugin\<close>; \<open>None\<close> lets the load go on.\<close>

definition check_plugin_loading :: "cloudbot \<Rightarrow> string \<Rightarrow> load_status option" where
  "check_plugin_loading b ttl =
     (case config_plugin_loading b of
        None \<Rightarrow> None
      | Some pl \<Rightarrow>
          if use_whitelist pl then (if ttl \<notin> set (whitelist pl) then Some NotWhitelisted else None)
          else (if ttl \<in> set (blacklist pl) then Some Blacklisted else None))"

text \<open>
  \<^verbatim>\<open>file_path in self.plugins\<close> in \<^verbatim>\<open>load_plugin\<close>: \<^verbatim>\<open>file_path\<close> is a
  \<^verbatim>\<open>pathlib.Path\<close> there, and the keys of \<^verbatim>\<open>self.plugins\<close> are the strings
  \<^verbatim>\<open>plugin.file_path\<close>. A \<^verbatim>\<open>Path\<close> is never equal to a \<^verbatim>\<open>str\<close>, so the test is
  false whatever the dictionary holds (\<^verbatim>\<open>unload_plugin\<close> tests \<^verbatim>\<open>str(file_path)\<close>).
\<close>

definition path_in_plugins :: "string \<Rightarrow> (string \<rightharpoonup> plugin) \<Rightarrow> bool" where
  "path_in_plugins fp ps = False"

text \<open>
  The loop over the \<^verbatim>\<open>on_start\<close> hooks: \<open>Returned True\<close> when every launch returned a
  true value, \<open>Returned False\<close> at the first that did not.
\<close>

fun run_on_start :: "plugin_manager \<Rightarrow> hook list \<Rightarrow> launch_result \<times> plugin_manager \<times> action list" where
  "run_on_start m [] = (Returned True, m, [])"
| "run_on_start m (on_start_hook # rest) =
     (case launch m on_start_hook (new_event (the_bot m) on_start_hook) of
        (Returned True, m', tr) \<Rightarrow> (case run_on_start m' rest of (r, m'', tr') \<Rightarrow> (r, m'', tr @ tr'))
      | (Returned False, m', tr) \<Rightarrow> (Returned False, m', tr)
      | (Parked f, m', tr) \<Rightarrow> (Parked f, m', tr)
      | (Raised e, m', tr) \<Rightarrow> (Raised e, m', tr))"

text \<open>The bodies of the registration loops of \<^verbatim>\<open>load_plugin\<close>.\<close>

definition register_cap_hook :: "(string \<Rightarrow> string) \<Rightarrow> (string \<Rightarrow> hook list) \<Rightarrow> hook \<Rightarrow> (string \<Rightarrow> hook list)" where
  "register_cap_hook casefold d h =
     foldl (\<lambda>d' cap. d'(casefold cap := d' (casefold cap) @ [h])) d (caps h)"

fun register_aliases :: "string \<Rightarrow> hook \<Rightarrow> string list \<Rightarrow> (string \<rightharpoonup> hook) \<Rightarrow> (string \<rightharpoonup> hook) \<times> action list" where
  "register_aliases ttl h [] cmds = (cmds, [])"
| "register_aliases ttl h (a # rest) cmds =
     (case cmds a of
        Some owner \<Rightarrow>
          (case register_aliases ttl h rest cmds of
             (cmds', tr) \<Rightarrow> (cmds', LogAliasConflict ttl a (plugin_title owner) # tr))
      | None \<Rightarrow> register_aliases ttl h rest (cmds(a \<mapsto> h)))"

fun register_commands :: "string \<Rightarrow> hook list \<Rightarrow> (string \<rightharpoonup> hook) \<Rightarrow> (string \<rightharpoonup> hook) \<times> action list" where
  "register_commands ttl [] cmds = (cmds, [])"
| "register_commands ttl (command_hook # rest) cmds =
     (case register_aliases ttl command_hook (aliases command_hook) cmds of
        (cmds', tr) \<Rightarrow>
          (case register_commands ttl rest cmds' of (cmds'', tr') \<Rightarrow> (cmds'', tr @ tr')))"

definition append_in_dict :: "hook \<Rightarrow> (string \<rightharpoonup> hook list) \<Rightarrow> string \<Rightarrow> (string \<rightharpoonup> hook list)" where
  "append_in_dict h d k = (case d k of Some l \<Rightarrow> d(k \<mapsto> l @ [h]) | None \<Rightarrow> d(k \<mapsto> [h]))"

definition register_raw_hook :: "hook list \<times> (string \<rightharpoonup> hook list) \<Rightarrow> hook \<Rightarrow> hook list \<times> (string \<rightharpoonup> hook list)" where
  "register_raw_hook s raw_hook =
     (case s of (catch_all, raw) \<Rightarrow>
        if is_catch_all raw_hook then (catch_all @ [raw_hook], raw)
        else (catch_all, foldl (append_in_dict raw_hook) raw (triggers raw_hook)))"

definition register_event_hook :: "(string \<rightharpoonup> hook list) \<Rightarrow> hook \<Rightarrow> (string \<rightharpoonup> hook list)" where
  "register_event_hook d event_hook = foldl (append_in_dict event_hook) d (types event_hook)"

definition register_regex_hook :: "(string \<times> hook) list \<Rightarrow> hook \<Rightarrow> (string \<times> hook) list" where
  "register_regex_hook l regex_hook = l @ map (\<lambda>regex_match. (regex_match, regex_hook)) (regexes regex_hook)"

definition register_perm_hook :: "(string \<Rightarrow> hook list) \<Rightarrow> hook \<Rightarrow> (string \<Rightarrow> hook list)" where
  "register_perm_hook d h = foldl (\<lambda>d' perm. d'(perm := d' perm @ [h])) d (perms h)"

text \<open>
  The registration part of \<^verbatim>\<open>load_plugin\<close>, from \<^verbatim>\<open>self.plugins[plugin.file_path] = plugin\<close>
  to the last registration loop. The plugin object is shared between the table and the
  code that goes on changing it (\<^verbatim>\<open>plugin.tasks.append\<close>, \<^verbatim>\<open>del plugin.hooks["on_start"]\<close>),
  so the table holds the plugin as it is when \<^verbatim>\<open>load_plugin\<close> returns.
\<close>

definition loaded_plugin :: "plugin \<Rightarrow> plugin" where
  "loaded_plugin p =
     p\<lparr>tasks := tasks p @ map hook_id (hooks p ''periodic''),
       hooks := (hooks p)(''on_start'' := [])\<rparr>"

definition register_hooks :: "plugin \<Rightarrow> plugin_manager \<Rightarrow> plugin_manager \<times> action list" where
  "register_hooks p m =
     (case register_commands (title p) (hooks p ''command'') (commands m) of
        (cmds, tr) \<Rightarrow>
          (case foldl register_raw_hook (catch_all_triggers m, raw_triggers m) (hooks p ''irc_raw'') of
             (catch_all, raw) \<Rightarrow>
               (m\<lparr>plugins := (plugins m)(file_path p \<mapsto> loaded_plugin p),
                   plugin_name_map := (plugin_name_map m)(title p \<mapsto> loaded_plugin p),
                   cap_hooks_on_available :=
                     foldl (register_cap_hook (str_casefold (the_bot m)))
                       (cap_hooks_on_available m) (hooks p ''on_cap_available''),
                   cap_hooks_on_ack :=
                     foldl (register_cap_hook (str_casefold (the_bot m)))
                       (cap_hooks_on_ack m) (hooks p ''on_cap_ack''),
                   commands := cmds,
                   catch_all_triggers := catch_all,
                   raw_triggers := raw,
                   event_type_hooks := foldl register_event_hook (event_type_hooks m) (hooks p ''event''),
                   regex_hooks := foldl register_regex_hook (regex_hooks m) (hooks p ''regex''),
                   sieves := sieves m @ hooks p ''sieve'',
                   connect_hooks := connect_hooks m @ hooks p ''on_connect'',
                   out_sieves := out_sieves m @ hooks p ''irc_out'',
                   hook_hooks := (hook_hooks m)(''post'' := hook_hooks m ''post'' @ hooks p ''post_hook''),
                   perm_hooks := foldl register_perm_hook (perm_hooks m) (hooks p ''perm_check'')\<rparr>,
                map (\<lambda>h. StartPeriodic (hook_id h)) (hooks p ''periodic'') @ tr)))"

text \<open>
  The sorting part of \<^verbatim>\<open>load_plugin\<close>: \<^verbatim>\<open>list.sort\<close> with a key is a stable sort, as
  \<open>sort_key\<close> is. First the sieves, the connect hooks and the regex pairs; then every
  list of \<^verbatim>\<open>lists_of_hooks\<close>, the values of the four dictionaries included. The
  capability dictionaries \<^verbatim>\<open>self.cap_hooks\<close> are in neither.
\<close>

definition sort_hooks :: "hook list \<Rightarrow> hook list" where
  "sort_hooks lst = sort_key priority lst"

definition sort_indexes :: "plugin_manager \<Rightarrow> plugin_manager" where
  "sort_indexes m =
     (let m1 = m\<lparr>sieves := sort_hooks (sieves m),
                 connect_hooks := sort_hooks (connect_hooks m),
                 regex_hooks := sort_key (\<lambda>x. priority (snd x)) (regex_hooks m)\<rparr>
      in m1\<lparr>catch_all_triggers := sort_hooks (catch_all_triggers m1),
            sieves := sort_hooks (sieves m1),
            connect_hooks := sort_hooks (connect_hooks m1),
            out_sieves := sort_hooks (out_sieves m1),
            event_type_hooks := map_option sort_hooks \<circ> event_type_hooks m1,
            raw_triggers := map_option sort_hooks \<circ> raw_triggers m1,
            perm_hooks := sort_hooks \<circ> perm_hooks m1,
            hook_hooks := sort_hooks \<circ> hook_hooks m1\<rparr>)"

text \<open>
  \<^verbatim>\<open>load_plugin\<close>, as one coroutine run without interleaving. The status says where it
  returned; \<open>LoadParked\<close> and \<open>LoadRaised\<close> are a launch (or the unload) that parked or
  raised.
\<close>

definition load_plugin :: "plugin_manager \<Rightarrow> load_request \<Rightarrow> load_status \<times> plugin_manager \<times> action list" where
  "load_plugin m req =
     (case check_plugin_loading (the_bot m) (req_title req) of
        Some NotWhitelisted \<Rightarrow> (NotWhitelisted, m, [LogNotWhitelisted (req_title req)])
      | Some st \<Rightarrow> (st, m, [LogBlacklisted (req_title req)])
      | None \<Rightarrow>
          (case (if path_in_plugins (req_file_path req) (plugins m)
                 then unload_plugin m (req_file_path req) else (Unloaded, m, [])) of
             (UnloadParked f, m0, tr0) \<Rightarrow> (LoadParked f, m0, tr0)
           | (UnloadRaised e, m0, tr0) \<Rightarrow> (LoadRaised e, m0, tr0)
           | (u, m0, tr0) \<Rightarrow>
               (case req_import req of
                  Inl e \<Rightarrow> (ImportFailed, m0, tr0 @ [LogImportError (req_title req)])
                | Inr plugin_module \<Rightarrow>
                    (let p = Plugin (req_file_path req) (req_file_name req) (req_title req) plugin_module in
                     case create_tables p (the_bot m0) of
                       (b, tr1) \<Rightarrow>
                         (case run_on_start (m0\<lparr>the_bot := b\<rparr>) (hooks p ''on_start'') of
                            (Returned False, m1, tr2) \<Rightarrow>
                              (OnStartFailed,
                               m1\<lparr>the_bot := unregister_tables p (the_bot m1)\<rparr>,
                               tr0 @ tr1 @ tr2 @ [LogOnStartErrored (title p)])
                          | (Parked f, m1, tr2) \<Rightarrow> (LoadParked f, m1, tr0 @ tr1 @ tr2)
                          | (Raised e, m1, tr2) \<Rightarrow> (LoadRaised e, m1, tr0 @ tr1 @ tr2)
                          | (Returned True, m1, tr2) \<Rightarrow>
                              (case register_hooks p m1 of
                                 (m2, tr3) \<Rightarrow> (Loaded, sort_indexes m2, tr0 @ tr1 @ tr2 @ tr3)))))))"

text \<open>\<^verbatim>\<open>PluginManager.__init__\<close>.\<close>

definition new_manager :: "cloudbot \<Rightarrow> plugin_manager" where
  "new_manager b =
     \<lparr>the_bot = b, plugins = Map.empty, plugin_name_map = Map.empty, commands = Map.empty,
      raw_triggers = Map.empty, catch_all_triggers = [], event_type_hooks = Map.empty,
      regex_hooks = [], sieves = [], cap_hooks_on_available = (\<lambda>k. []),
      cap_hooks_on_ack = (\<lambda>k. []), connect_hooks = [], out_sieves = [],
      hook_hooks = (\<lambda>k. []), perm_hooks = (\<lambda>k. []),
      hook_waiting_queues = Map.empty, next_future = 0\<rparr>"


section \<open>The serialization gate under interleaving\<close>

text \<open>
  Calls of \<^verbatim>\<open>launch\<close> for single-instance hooks, interleaved by the event loop. A task
  is one call, past the sieve stage; \<open>keys t\<close> is the key of its hook, and the future it
  creates when it has to wait is named by the task. Between two suspension points a
  coroutine runs alone, so the steps are: \<open>Enter\<close>, the gate's entry (\<open>gate_enter\<close>);
  \<open>Resume\<close>, a waiting task whose future has its result goes on to \<^verbatim>\<open>_execute_hook\<close>,
  with no second look at the mapping; \<open>Complete\<close>, \<^verbatim>\<open>_execute_hook\<close> has returned and
  the code after it runs (\<open>gate_exit\<close>; \<open>Failed\<close> is its \<^verbatim>\<open>KeyError\<close>); \<open>Crash\<close>,
  an exception has left \<^verbatim>\<open>_execute_hook\<close> and so \<^verbatim>\<open>launch\<close>, before the code that
  releases the key. A step that is not enabled leaves the state as it is. \<open>arrived\<close>
  and \<open>granted\<close> record the order in which tasks passed the entry and the order in which
  they were let through (at once, or by \<^verbatim>\<open>set_result\<close>). The cancellation of a task
  that waits on its future is not part of the model.
\<close>

datatype task_state = Idle | Waiting | Running | Finished | Failed | Crashed

record serializer =
  queues :: "key \<rightharpoonup> nat list option"
  task_state :: "nat \<Rightarrow> task_state"
  released :: "nat set"
  arrived :: "nat list"
  granted :: "nat list"

datatype sched_event = Enter nat | Resume nat | Complete nat | Crash nat

fun step :: "(nat \<Rightarrow> key) \<Rightarrow> serializer \<Rightarrow> sched_event \<Rightarrow> serializer" where
  "step keys s (Enter t) =
     (if task_state s t = Idle then
        (case gate_enter (keys t) t (queues s) of
           (qs, True) \<Rightarrow>
             s\<lparr>queues := qs, task_state := (task_state s)(t := Waiting), arrived := arrived s @ [t]\<rparr>
         | (qs, False) \<Rightarrow>
             s\<lparr>queues := qs, task_state := (task_state s)(t := Running),
               arrived := arrived s @ [t], granted := granted s @ [t]\<rparr>)
      else s)"
| "step keys s (Resume t) =
     (if task_state s t = Waiting \<and> t \<in> released s
      then s\<lparr>task_state := (task_state s)(t := Running)\<rparr> else s)"
| "step keys s (Complete t) =
     (if task_state s t = Running then
        (case gate_exit (keys t) (queues s) of
           None \<Rightarrow> s\<lparr>task_state := (task_state s)(t := Failed)\<rparr>
         | Some (qs, None) \<Rightarrow> s\<lparr>queues := qs, task_state := (task_state s)(t := Finished)\<rparr>
         | Some (qs, Some f) \<Rightarrow>
             s\<lparr>queues := qs, task_state := (task_state s)(t := Finished),
               released := insert f (released s), granted := granted s @ [f]\<rparr>)
      else s)"
| "step keys s (Crash t) =
     (if task_state s t = Running then s\<lparr>task_state := (task_state s)(t := Crashed)\<rparr> else s)"




definition queue_of :: "serializer \<Rightarrow> key \<Rightarrow> nat list" where
  "queue_of s k = (case queues s k of Some (Some q) \<Rightarrow> q | _ \<Rightarrow> [])"



section \<open>Observations on traces\<close>

text \<open>
  The hooks whose event was set up, whose event was torn down, and whose callable was
  called, in the order of the trace.
\<close>

definition setups :: "action list \<Rightarrow> nat list" where
  "setups tr = concat (map (\<lambda>a. case a of PrepareThreaded i \<Rightarrow> [i] | Prepare i \<Rightarrow> [i] | _ \<Rightarrow> []) tr)"

definition teardowns :: "action list \<Rightarrow> nat list" where
  "teardowns tr = concat (map (\<lambda>a. case a of CloseThreaded i \<Rightarrow> [i] | Close i \<Rightarrow> [i] | _ \<Rightarrow> []) tr)"

definition calls :: "action list \<Rightarrow> nat list" where
  "calls tr = concat (map (\<lambda>a. case a of Call i ps \<Rightarrow> [i] | _ \<Rightarrow> []) tr)"


section \<open>Example objects\<close>

text \<open>
  A hook with the defaults of \<^verbatim>\<open>Hook.__init__\<close> (no required argument, not
  single-instance, priority 0) whose callable returns \<^verbatim>\<open>None\<close> and, as a sieve, lets
  every event through; an event with no attribute but \<^verbatim>\<open>bot\<close> and \<^verbatim>\<open>conn\<close>; a bot
  without a loading policy, whose \<^verbatim>\<open>str.casefold\<close> is given on the strings of ASCII
  letters, digits and punctuation (where it lowers \<^verbatim>\<open>A\<close> to \<^verbatim>\<open>Z\<close>); a module with no
  hook and no table.
\<close>

definition basic_hook :: "nat \<Rightarrow> string \<Rightarrow> string \<Rightarrow> string \<Rightarrow> hook" where
  "basic_hook i t ttl name =
     \<lparr>hook_id = i, hook_type = t, plugin_title = ttl, function_name = name,
      required_args = [], threaded = True, single_thread = False, priority = 0,
      aliases = [], triggers = [], types = [], regexes = [], caps = [], perms = [],
      hook_function = (\<lambda>ps. Inr PNone), sieve_function = (\<lambda>ev h. Inr (Some ev))\<rparr>"

definition bare_event :: event where
  "bare_event = \<lparr>ev_bot = PRef 0, ev_conn = PNone, ev_attrs = []\<rparr>"

definition ascii_casefold :: "string \<Rightarrow> string" where
  "ascii_casefold s =
     map (\<lambda>c. if 65 \<le> (of_char c :: nat) \<and> (of_char c :: nat) \<le> 90
               then char_of (of_char c + 32 :: nat) else c) s"

definition basic_bot :: cloudbot where
  "basic_bot =
     \<lparr>config_plugin_loading = None, db_metadata = {}, db_engine = {},
      new_event = (\<lambda>h. bare_event), str_casefold = ascii_casefold\<rparr>"

definition empty_module :: module where
  "empty_module = \<lparr>module_hooks = (\<lambda>t. []), module_tables = []\<rparr>"

section \<open>Observations on the indexes\<close>

text \<open>
  The lists that \<^verbatim>\<open>load_plugin\<close> sorts are ascending in priority: the catch-all list,
  the sieves, the connect hooks, the outgoing hooks, the regex pairs, and every list held by
  \<^verbatim>\<open>event_type_hooks\<close>, \<^verbatim>\<open>raw_triggers\<close>, \<^verbatim>\<open>perm_hooks\<close> and \<^verbatim>\<open>hook_hooks\<close>.
\<close>

definition indexes_sorted :: "plugin_manager \<Rightarrow> bool" where
  "indexes_sorted m =
     (sorted (map priority (catch_all_triggers m))
      \<and> sorted (map priority (sieves m))
      \<and> sorted (map priority (connect_hooks m))
      \<and> sorted (map priority (out_sieves m))
      \<and> sorted (map (\<lambda>x. priority (snd x)) (regex_hooks m))
      \<and> (\<forall>t l. event_type_hooks m t = Some l \<longrightarrow> sorted (map priority l))
      \<and> (\<forall>t l. raw_triggers m t = Some l \<longrightarrow> sorted (map priority l))
      \<and> (\<forall>k. sorted (map priority (perm_hooks m k)))
      \<and> (\<forall>k. sorted (map priority (hook_hooks m k))))"

text \<open>The manager after a sequence of loads, each run to its end, whatever its status.\<close>

definition load_sequence :: "plugin_manager \<Rightarrow> load_request list \<Rightarrow> plugin_manager" where
  "load_sequence m reqs = foldl (\<lambda>m' req. fst (snd (load_plugin m' req))) m reqs"

section \<open>Binding, invocation and the sieve stage: basic facts\<close>

lemma bind_parameters_missing:
  "a \<in> set args \<Longrightarrow> event_getattr ev a = None \<Longrightarrow> fst (bind_parameters d ev args ps) = None"
  by (induction args arbitrary: ps) (auto split: option.splits)

lemma bind_parameters_present:
  "\<forall>a \<in> set args. event_getattr ev a \<noteq> None \<Longrightarrow>
   bind_parameters d ev args ps = (Some (ps @ map (\<lambda>a. the (event_getattr ev a)) args), [])"
  by (induction args arbitrary: ps) (auto split: option.splits)

lemma bind_parameters_calls: "calls (snd (bind_parameters d ev args ps)) = []"
  by (induction args arbitrary: ps) (auto simp: calls_def split: option.splits)

lemma bind_parameters_setups: "setups (snd (bind_parameters d ev args ps)) = []"
  by (induction args arbitrary: ps) (auto simp: setups_def split: option.splits)

lemma bind_parameters_teardowns: "teardowns (snd (bind_parameters d ev args ps)) = []"
  by (induction args arbitrary: ps) (auto simp: teardowns_def split: option.splits)

lemma calls_append: "calls (xs @ ys) = calls xs @ calls ys" by (simp add: calls_def)
lemma setups_append: "setups (xs @ ys) = setups xs @ setups ys" by (simp add: setups_def)
lemma teardowns_append: "teardowns (xs @ ys) = teardowns xs @ teardowns ys" by (simp add: teardowns_def)

lemma internal_launch_missing:
  assumes "a \<in> set (required_args h)" "event_getattr ev a = None"
  shows "fst (internal_launch h ev) = Inr (True, PNone)"
    and "calls (snd (internal_launch h ev)) = []"
    and "teardowns (snd (internal_launch h ev)) = []"
    and "setups (snd (internal_launch h ev)) = [hook_id h]"
proof -
  obtain lg where b: "prepare_parameters h ev = (None, lg)"
    using bind_parameters_missing[OF assms, of "description h" "[]"]
    by (cases "prepare_parameters h ev") (auto simp: prepare_parameters_def)
  have c: "calls lg = []" "setups lg = []" "teardowns lg = []"
    using bind_parameters_calls[of "description h" ev "required_args h" "[]"]
      bind_parameters_setups[of "description h" ev "required_args h" "[]"]
      bind_parameters_teardowns[of "description h" ev "required_args h" "[]"] b
    by (simp_all add: prepare_parameters_def)
  show "fst (internal_launch h ev) = Inr (True, PNone)"
    using b by (simp add: internal_launch_def execute_hook_threaded_def execute_hook_sync_def)
  show "calls (snd (internal_launch h ev)) = []"
    using b c by (simp add: internal_launch_def execute_hook_threaded_def execute_hook_sync_def calls_def)
  show "teardowns (snd (internal_launch h ev)) = []"
    using b c by (simp add: internal_launch_def execute_hook_threaded_def execute_hook_sync_def teardowns_def)
  show "setups (snd (internal_launch h ev)) = [hook_id h]"
    using b c by (simp add: internal_launch_def execute_hook_threaded_def execute_hook_sync_def setups_def)
qed

lemma internal_launch_bound:
  assumes "\<forall>a\<in>set (required_args h). event_getattr ev a \<noteq> None"
  shows "internal_launch h ev =
    (case hook_function h (map (\<lambda>a. the (event_getattr ev a)) (required_args h)) of
       Inl e \<Rightarrow>
         if is_Exception e then
           (Inr (False, PExc e),
            [if threaded h then PrepareThreaded (hook_id h) else Prepare (hook_id h),
             Call (hook_id h) (map (\<lambda>a. the (event_getattr ev a)) (required_args h)),
             if threaded h then CloseThreaded (hook_id h) else Close (hook_id h),
             LogHookError (description h)])
         else
           (Inl e,
            [if threaded h then PrepareThreaded (hook_id h) else Prepare (hook_id h),
             Call (hook_id h) (map (\<lambda>a. the (event_getattr ev a)) (required_args h)),
             if threaded h then CloseThreaded (hook_id h) else Close (hook_id h)])
     | Inr v \<Rightarrow> (Inr (True, v),
          [if threaded h then PrepareThreaded (hook_id h) else Prepare (hook_id h),
           Call (hook_id h) (map (\<lambda>a. the (event_getattr ev a)) (required_args h)),
           if threaded h then CloseThreaded (hook_id h) else Close (hook_id h)]))"
  using bind_parameters_present[OF assms, of "description h" "[]"]
  by (simp add: internal_launch_def execute_hook_threaded_def execute_hook_sync_def
      prepare_parameters_def split: sum.splits)

lemma internal_launch_setups: "setups (snd (internal_launch h ev)) = [hook_id h]"
proof (cases "\<forall>a\<in>set (required_args h). event_getattr ev a \<noteq> None")
  case True
  show ?thesis
    by (simp add: internal_launch_bound[OF True] setups_def split: sum.splits)
next
  case False
  then show ?thesis using internal_launch_missing(4) by blast
qed

lemma run_post_hooks_step:
  assumes "fst (internal_launch q (pe q)) = Inr x" and "x \<noteq> (True, PBool False)"
  shows "run_post_hooks pe (q # rest) =
     (fst (run_post_hooks pe rest), snd (internal_launch q (pe q)) @ snd (run_post_hooks pe rest))"
  using assms
  by (cases "internal_launch q (pe q)"; cases x; cases "run_post_hooks pe rest") auto

lemma run_post_hooks_suppressed:
  assumes "\<forall>q\<in>set pre. \<exists>x. fst (internal_launch q (pe q)) = Inr x \<and> x \<noteq> (True, PBool False)"
    and "fst (internal_launch p (pe p)) = Inr (True, PBool False)"
  shows "run_post_hooks pe (pre @ p # post) = run_post_hooks pe (pre @ [p])
       \<and> fst (run_post_hooks pe (pre @ p # post)) = None"
  using assms
proof (induction pre)
  case Nil
  then show ?case by (cases "internal_launch p (pe p)") simp
next
  case (Cons q pre)
  obtain x where x: "fst (internal_launch q (pe q)) = Inr x" "x \<noteq> (True, PBool False)"
    using Cons.prems(1) by auto
  show ?case
    using Cons run_post_hooks_step[where q=q and pe=pe and x=x and rest="pre @ p # post", OF x] run_post_hooks_step[where q=q and pe=pe and x=x and rest="pre @ [p]", OF x]
    by (auto simp del: run_post_hooks.simps)
qed

lemma run_post_hooks_escaped:
  assumes "\<forall>q\<in>set pre. \<exists>x. fst (internal_launch q (pe q)) = Inr x \<and> x \<noteq> (True, PBool False)"
    and "fst (internal_launch p (pe p)) = Inl e"
  shows "fst (run_post_hooks pe (pre @ p # post)) = Some e
       \<and> setups (snd (run_post_hooks pe (pre @ p # post))) = map hook_id (pre @ [p])"
  using assms
proof (induction pre)
  case Nil
  have "setups (snd (internal_launch p (pe p))) = [hook_id p]" by (rule internal_launch_setups)
  then show ?case using Nil by (cases "internal_launch p (pe p)") simp
next
  case (Cons q pre)
  obtain x where x: "fst (internal_launch q (pe q)) = Inr x" "x \<noteq> (True, PBool False)"
    using Cons.prems(1) by auto
  have "setups (snd (internal_launch q (pe q))) = [hook_id q]" by (rule internal_launch_setups)
  then show ?case
    using Cons run_post_hooks_step[where q=q and pe=pe and x=x and rest="pre @ p # post", OF x]
    by (simp add: setups_append del: run_post_hooks.simps)
qed

lemma run_post_hooks_all:
  assumes "\<forall>q\<in>set ps. \<exists>x. fst (internal_launch q (pe q)) = Inr x \<and> x \<noteq> (True, PBool False)"
  shows "setups (snd (run_post_hooks pe ps)) = map hook_id ps \<and> fst (run_post_hooks pe ps) = None"
  using assms
proof (induction ps)
  case Nil
  then show ?case by (simp add: setups_def)
next
  case (Cons q ps)
  obtain x where x: "fst (internal_launch q (pe q)) = Inr x" "x \<noteq> (True, PBool False)"
    using Cons.prems(1) by auto
  have "setups (snd (internal_launch q (pe q))) = [hook_id q]" by (rule internal_launch_setups)
  then show ?case
    using Cons run_post_hooks_step[where q=q and pe=pe and x=x and rest=ps, OF x]
    by (simp add: setups_append del: run_post_hooks.simps)
qed

lemma run_post_hooks_setups_upto:
  assumes "\<forall>q\<in>set pre. \<exists>x. fst (internal_launch q (pe q)) = Inr x \<and> x \<noteq> (True, PBool False)"
    and "fst (internal_launch p (pe p)) = Inr (True, PBool False)"
  shows "setups (snd (run_post_hooks pe (pre @ [p]))) = map hook_id (pre @ [p])"
  using assms
proof (induction pre)
  case Nil
  have "setups (snd (internal_launch p (pe p))) = [hook_id p]" by (rule internal_launch_setups)
  then show ?case using Nil by (cases "internal_launch p (pe p)") simp
next
  case (Cons q pre)
  obtain x where x: "fst (internal_launch q (pe q)) = Inr x" "x \<noteq> (True, PBool False)"
    using Cons.prems(1) by auto
  have "setups (snd (internal_launch q (pe q))) = [hook_id q]" by (rule internal_launch_setups)
  then show ?case
    using Cons run_post_hooks_step[where q=q and pe=pe and x=x and rest="pre @ [p]", OF x]
    by (simp add: setups_append del: run_post_hooks.simps)
qed

lemma sieve_quiet: "calls (snd (sieve s ev h)) = [] \<and> setups (snd (sieve s ev h)) = []"
  by (simp add: sieve_def calls_def setups_def split: sum.splits)

lemma run_sieves_quiet:
  "calls (snd (run_sieves ss ev h)) = [] \<and> setups (snd (run_sieves ss ev h)) = []"
proof (induction ss arbitrary: ev)
  case Nil
  show ?case by (simp add: calls_def setups_def)
next
  case (Cons s ss)
  show ?case
  proof (cases "sieve s ev h")
    case (Pair r tr)
    have q: "calls tr = [] \<and> setups tr = []" using sieve_quiet[of s ev h] Pair by simp
    show ?thesis
    proof (cases r)
      case (Inl e)
      then show ?thesis using Pair q by simp
    next
      case (Inr o1)
      show ?thesis
      proof (cases o1)
        case None
        then show ?thesis using Pair Inr q by simp
      next
        case (Some ev')
        then show ?thesis using Pair Inr q Cons[of ev']
          by (cases "run_sieves ss ev' h") (simp add: calls_append setups_append)
      qed
    qed
  qed
qed

lemma run_sieves_append:
  "run_sieves (pre @ rest) ev h =
     (case run_sieves pre ev h of
        (Inl e, tr) \<Rightarrow> (Inl e, tr)
      | (Inr None, tr) \<Rightarrow> (Inr None, tr)
      | (Inr (Some ev'), tr) \<Rightarrow> (case run_sieves rest ev' h of (r, tr') \<Rightarrow> (r, tr @ tr')))"
  by (induction pre arbitrary: ev) (auto split: prod.splits option.splits sum.splits)

lemma run_sieves_stopped:
  assumes "fst (run_sieves pre ev h) = Inr (Some ev')"
    and "fst (sieve s ev' h) = Inr None \<or> fst (sieve s ev' h) = Inl e"
  shows "run_sieves (pre @ s # post) ev h =
     (fst (sieve s ev' h), snd (run_sieves pre ev h) @ snd (sieve s ev' h))"
  using assms
  by (cases "run_sieves pre ev h"; cases "sieve s ev' h") (auto simp: run_sieves_append)

lemma gate_roundtrip:
  "qs k = None \<Longrightarrow> gate_enter k f qs = (qs(k \<mapsto> None), False) \<and>
     gate_exit k (qs(k \<mapsto> None)) = Some (qs, None)"
  by (auto simp: gate_enter_def gate_exit_def)

lemma gate_enter_wait:
  "qs k = Some q \<Longrightarrow> gate_enter k f qs = (qs(k \<mapsto> Some ((case q of None \<Rightarrow> [] | Some l \<Rightarrow> l) @ [f])), True)"
  by (auto simp: gate_enter_def)

lemma execute_hook_frame:
  assumes "hook_hooks m' = hook_hooks m"
  shows "execute_hook m' h ev = execute_hook m h ev"
  unfolding execute_hook_def by (simp only: assms)

text \<open>
  \<^verbatim>\<open>launch\<close> in closed form. When \<^verbatim>\<open>_execute_hook\<close> raises in the single-instance
  branch, the key that the entry installed stays in the mapping.
\<close>

lemma launch_cases:
  "launch m h ev =
    (case sieve_stage m h ev of
       (Inl e, tr) \<Rightarrow> (Raised e, m, tr)
     | (Inr None, tr) \<Rightarrow> (Returned False, m, tr)
     | (Inr (Some ev'), tr) \<Rightarrow>
         if single_thread h \<and> hook_waiting_queues m (hook_key h) \<noteq> None
         then (Parked (next_future m),
               m\<lparr>hook_waiting_queues := fst (gate_enter (hook_key h) (next_future m) (hook_waiting_queues m)),
                 next_future := Suc (next_future m)\<rparr>, tr)
         else (case fst (execute_hook m h ev') of
                 Inl e \<Rightarrow>
                   (Raised e,
                    if single_thread h
                    then m\<lparr>hook_waiting_queues := (hook_waiting_queues m)(hook_key h \<mapsto> None)\<rparr>
                    else m,
                    tr @ snd (execute_hook m h ev'))
               | Inr ok \<Rightarrow> (Returned ok, m, tr @ snd (execute_hook m h ev'))))"
proof (cases "sieve_stage m h ev")
  case (Pair r tr)
  show ?thesis
  proof (cases r)
    case (Inl e)
    then show ?thesis using Pair by (simp add: launch_def)
  next
    case (Inr o1)
    show ?thesis
    proof (cases o1)
      case None
      then show ?thesis using Pair Inr by (simp add: launch_def)
    next
      case (Some ev')
      obtain x tr' where ex: "execute_hook m h ev' = (x, tr')" by (metis prod.exhaust)
      show ?thesis
      proof (cases "single_thread h")
        case False
        then show ?thesis using Pair Inr Some ex by (cases x) (simp_all add: launch_def)
      next
        case True
        show ?thesis
        proof (cases "hook_waiting_queues m (hook_key h)")
          case None
          have ef: "execute_hook (m\<lparr>hook_waiting_queues := (hook_waiting_queues m)(hook_key h \<mapsto> None)\<rparr>) h ev'
              = (x, tr')"
            using ex execute_hook_frame[of "m\<lparr>hook_waiting_queues := (hook_waiting_queues m)(hook_key h \<mapsto> None)\<rparr>" m h ev']
            by simp
          have idm: "m\<lparr>hook_waiting_queues := hook_waiting_queues m\<rparr> = m" by simp
          note g = gate_roundtrip[of "hook_waiting_queues m" "hook_key h" "next_future m"]
          show ?thesis
            using Pair Inr Some True None g ef ex idm
            by (cases x) (simp_all add: launch_def finish_launch_def)
        next
          case (Some q)
          then show ?thesis
            using Pair Inr \<open>o1 = Some ev'\<close> True
              gate_enter_wait[of "hook_waiting_queues m" "hook_key h" q "next_future m"]
            by (simp add: launch_def)
        qed
      qed
    qed
  qed
qed

section \<open>Setup and teardown of the event\<close>

text \<open>
  When binding succeeds, the event's setup is followed by the call and by the teardown,
  whatever the callable does.
\<close>

lemma execute_hook_pairs_when_bound:
  assumes "\<forall>a\<in>set (required_args h). event_getattr ev a \<noteq> None"
  shows "setups (snd (execute_hook_threaded h ev)) = [hook_id h]
       \<and> teardowns (snd (execute_hook_threaded h ev)) = [hook_id h]
       \<and> setups (snd (execute_hook_sync h ev)) = [hook_id h]
       \<and> teardowns (snd (execute_hook_sync h ev)) = [hook_id h]"
  using bind_parameters_present[OF assms, of "description h" "[]"]
  by (simp add: execute_hook_threaded_def execute_hook_sync_def prepare_parameters_def
      setups_def teardowns_def)

text \<open>
  Claim C1 (setup is paired with teardown on every exit path, also when parameter binding
  fails after setup): the code at a hook that requires \<^verbatim>\<open>text\<close> and an event without
  it. Both paths run the setup, log the invalid argument and return \<^verbatim>\<open>None\<close> before
  the \<^verbatim>\<open>try\<close>: no teardown follows.
\<close>

theorem binding_failure_skips_teardown:
  "execute_hook_threaded ((basic_hook 1 ''command'' ''plug'' ''cmd'')\<lparr>required_args := [''text'']\<rparr>) bare_event
     = (Inr PNone, [PrepareThreaded 1, LogInvalidArgument ''plug:cmd'' ''text''])
   \<and> execute_hook_sync ((basic_hook 1 ''command'' ''plug'' ''cmd'')\<lparr>required_args := [''text''], threaded := False\<rparr>) bare_event
     = (Inr PNone, [Prepare 1, LogInvalidArgument ''plug:cmd'' ''text''])"
  by (simp add: execute_hook_threaded_def execute_hook_sync_def prepare_parameters_def
      basic_hook_def bare_event_def event_getattr_def description_def)

section \<open>Sieve rejection\<close>

lemma sieve_rejects:
  "sieve_function s ev (hook_desc.truncate h) = Inr None \<Longrightarrow>
     sieve s ev h = (Inr None, [SieveCall (hook_id s) (hook_id h)])"
  "sieve_function s ev (hook_desc.truncate h) = Inl e \<Longrightarrow> is_Exception e \<Longrightarrow>
     sieve s ev h = (Inr None, [SieveCall (hook_id s) (hook_id h), LogSieveError (description s) (description h)])"
  "sieve_function s ev (hook_desc.truncate h) = Inl e \<Longrightarrow> \<not> is_Exception e \<Longrightarrow>
     sieve s ev h = (Inl e, [SieveCall (hook_id s) (hook_id h)])"
  by (simp_all add: sieve_def)

text \<open>
  Claim C4, as the code has it: for a hook that is not \<^verbatim>\<open>on_start\<close>, \<^verbatim>\<open>on_stop\<close> or
  \<^verbatim>\<open>periodic\<close>, when the sieves before \<open>s\<close> let the event through (as \<open>ev'\<close>) and
  \<open>s\<close> returns \<^verbatim>\<open>None\<close> or raises an exception that \<^verbatim>\<open>except Exception\<close> catches,
  \<^verbatim>\<open>launch\<close> returns \<^verbatim>\<open>False\<close> with the manager unchanged, and the sieve that raised
  differs from one that rejects only by the log record. When \<open>s\<close> raises an exception
  that is no \<^verbatim>\<open>Exception\<close>, \<^verbatim>\<open>launch\<close> raises it, with no log record. In all three
  cases the trace is that of the sieves up to \<open>s\<close>: no callable is called and no event is
  set up, so neither the target hook nor a post-hook runs.
\<close>

theorem sieve_rejection_stops_dispatch:
  assumes kind: "hook_type h \<notin> {''on_start'', ''on_stop'', ''periodic''}"
    and reg: "sieves m = pre @ s # post"
    and passed: "fst (run_sieves pre ev h) = Inr (Some ev')"
  shows "(sieve_function s ev' (hook_desc.truncate h) = Inr None
          \<or> (\<exists>e. sieve_function s ev' (hook_desc.truncate h) = Inl e \<and> is_Exception e)
        \<longrightarrow> launch m h ev = (Returned False, m, snd (run_sieves pre ev h) @ snd (sieve s ev' h))
          \<and> snd (sieve s ev' h) =
              (if sieve_function s ev' (hook_desc.truncate h) = Inr None
               then [SieveCall (hook_id s) (hook_id h)]
               else [SieveCall (hook_id s) (hook_id h), LogSieveError (description s) (description h)]))
    \<and> (\<forall>e. sieve_function s ev' (hook_desc.truncate h) = Inl e \<and> \<not> is_Exception e
        \<longrightarrow> launch m h ev =
              (Raised e, m, snd (run_sieves pre ev h) @ [SieveCall (hook_id s) (hook_id h)]))
    \<and> (sieve_function s ev' (hook_desc.truncate h) = Inr None
          \<or> (\<exists>e. sieve_function s ev' (hook_desc.truncate h) = Inl e)
        \<longrightarrow> calls (snd (snd (launch m h ev))) = [] \<and> setups (snd (snd (launch m h ev))) = [])"
proof -
  have stage: "sieve_stage m h ev = run_sieves (pre @ s # post) ev h"
    using kind reg by (simp add: sieve_stage_def)
  have q: "calls (snd (run_sieves pre ev h) @ snd (sieve s ev' h)) = []"
      "setups (snd (run_sieves pre ev h) @ snd (sieve s ev' h)) = []"
    using run_sieves_quiet[of pre ev h] sieve_quiet[of s ev' h]
    by (simp_all add: calls_append setups_append)
  have stopped: "launch m h ev =
      (case fst (sieve s ev' h) of Inl e \<Rightarrow> Raised e | Inr r \<Rightarrow> Returned False, m,
       snd (run_sieves pre ev h) @ snd (sieve s ev' h))"
    if "fst (sieve s ev' h) = Inr None \<or> fst (sieve s ev' h) = Inl e" for e
    using run_sieves_stopped[OF passed that, of post] that stage
    by (auto simp: launch_def)
  have a: "sieve_function s ev' (hook_desc.truncate h) = Inr None
          \<or> (\<exists>e. sieve_function s ev' (hook_desc.truncate h) = Inl e \<and> is_Exception e)
        \<longrightarrow> launch m h ev = (Returned False, m, snd (run_sieves pre ev h) @ snd (sieve s ev' h))
          \<and> snd (sieve s ev' h) =
              (if sieve_function s ev' (hook_desc.truncate h) = Inr None
               then [SieveCall (hook_id s) (hook_id h)]
               else [SieveCall (hook_id s) (hook_id h), LogSieveError (description s) (description h)])"
  proof
    assume r: "sieve_function s ev' (hook_desc.truncate h) = Inr None
          \<or> (\<exists>e. sieve_function s ev' (hook_desc.truncate h) = Inl e \<and> is_Exception e)"
    then have n: "fst (sieve s ev' h) = Inr None" using sieve_rejects(1,2)[of s ev' h] by auto
    have tr: "snd (sieve s ev' h) =
              (if sieve_function s ev' (hook_desc.truncate h) = Inr None
               then [SieveCall (hook_id s) (hook_id h)]
               else [SieveCall (hook_id s) (hook_id h), LogSieveError (description s) (description h)])"
      using r sieve_rejects(1,2)[of s ev' h] by auto
    show "launch m h ev = (Returned False, m, snd (run_sieves pre ev h) @ snd (sieve s ev' h))
          \<and> snd (sieve s ev' h) =
              (if sieve_function s ev' (hook_desc.truncate h) = Inr None
               then [SieveCall (hook_id s) (hook_id h)]
               else [SieveCall (hook_id s) (hook_id h), LogSieveError (description s) (description h)])"
      using stopped[of ValueError] n tr by simp
  qed
  have b: "\<forall>e. sieve_function s ev' (hook_desc.truncate h) = Inl e \<and> \<not> is_Exception e
        \<longrightarrow> launch m h ev =
              (Raised e, m, snd (run_sieves pre ev h) @ [SieveCall (hook_id s) (hook_id h)])"
  proof (intro allI impI)
    fix e assume r: "sieve_function s ev' (hook_desc.truncate h) = Inl e \<and> \<not> is_Exception e"
    then have n: "sieve s ev' h = (Inl e, [SieveCall (hook_id s) (hook_id h)])"
      using sieve_rejects(3)[of s ev' h e] by simp
    show "launch m h ev = (Raised e, m, snd (run_sieves pre ev h) @ [SieveCall (hook_id s) (hook_id h)])"
      using stopped[of e] n by simp
  qed
  have c: "sieve_function s ev' (hook_desc.truncate h) = Inr None
          \<or> (\<exists>e. sieve_function s ev' (hook_desc.truncate h) = Inl e)
        \<longrightarrow> calls (snd (snd (launch m h ev))) = [] \<and> setups (snd (snd (launch m h ev))) = []"
  proof
    assume r: "sieve_function s ev' (hook_desc.truncate h) = Inr None
          \<or> (\<exists>e. sieve_function s ev' (hook_desc.truncate h) = Inl e)"
    then obtain e where "fst (sieve s ev' h) = Inr None \<or> fst (sieve s ev' h) = Inl e"
      using sieve_rejects[of s ev' h] by (metis fst_conv)
    then show "calls (snd (snd (launch m h ev))) = [] \<and> setups (snd (snd (launch m h ev))) = []"
      using stopped[of e] q by simp
  qed
  show ?thesis using a b c by blast
qed

theorem sieve_rejection_stops_dispatch_witness:
  "launch ((new_manager basic_bot)\<lparr>sieves :=
       [basic_hook 1 ''sieve'' ''a'' ''pass'',
        (basic_hook 2 ''sieve'' ''b'' ''deny'')\<lparr>sieve_function := (\<lambda>ev h. Inl (PluginError ''boom''))\<rparr>],
       hook_hooks := (\<lambda>k. [basic_hook 4 ''post_hook'' ''c'' ''post''])\<rparr>)
     (basic_hook 3 ''command'' ''p'' ''cmd'') bare_event
   = (Returned False,
      (new_manager basic_bot)\<lparr>sieves :=
       [basic_hook 1 ''sieve'' ''a'' ''pass'',
        (basic_hook 2 ''sieve'' ''b'' ''deny'')\<lparr>sieve_function := (\<lambda>ev h. Inl (PluginError ''boom''))\<rparr>],
       hook_hooks := (\<lambda>k. [basic_hook 4 ''post_hook'' ''c'' ''post''])\<rparr>,
      [SieveCall 1 3, SieveCall 2 3, LogSieveError ''b:deny'' ''p:cmd''])"
proof -
  let ?s1 = "basic_hook 1 ''sieve'' ''a'' ''pass''"
  let ?s2 = "(basic_hook 2 ''sieve'' ''b'' ''deny'')\<lparr>sieve_function := (\<lambda>ev h. Inl (PluginError ''boom''))\<rparr>"
  let ?m = "(new_manager basic_bot)\<lparr>sieves := [?s1, ?s2],
       hook_hooks := (\<lambda>k. [basic_hook 4 ''post_hook'' ''c'' ''post''])\<rparr>"
  let ?h = "basic_hook 3 ''command'' ''p'' ''cmd''"
  have kind: "hook_type ?h \<notin> {''on_start'', ''on_stop'', ''periodic''}"
    by (simp add: basic_hook_def)
  have reg: "sieves ?m = [?s1] @ ?s2 # []" by simp
  have passed: "fst (run_sieves [?s1] bare_event ?h) = Inr (Some bare_event)"
    by (simp add: sieve_def basic_hook_def)
  have rejects: "sieve_function ?s2 bare_event (hook_desc.truncate ?h) = Inr None
        \<or> (\<exists>e. sieve_function ?s2 bare_event (hook_desc.truncate ?h) = Inl e \<and> is_Exception e)"
    by simp
  show ?thesis
    using sieve_rejection_stops_dispatch[OF kind reg passed] rejects
    by (simp add: sieve_def basic_hook_def description_def)
qed

text \<open>
  Claim C4, as stated, fails for a sieve that raises an exception which is no
  \<^verbatim>\<open>Exception\<close>: \<^verbatim>\<open>launch\<close> does not return \<^verbatim>\<open>False\<close>, it raises, and nothing is
  logged.
\<close>

theorem sieve_interrupt_leaves_launch:
  "launch ((new_manager basic_bot)\<lparr>sieves :=
       [basic_hook 1 ''sieve'' ''a'' ''pass'',
        (basic_hook 2 ''sieve'' ''b'' ''stop'')\<lparr>sieve_function := (\<lambda>ev h. Inl (Interrupt ''KeyboardInterrupt''))\<rparr>]\<rparr>)
     (basic_hook 3 ''command'' ''p'' ''cmd'') bare_event
   = (Raised (Interrupt ''KeyboardInterrupt''),
      (new_manager basic_bot)\<lparr>sieves :=
       [basic_hook 1 ''sieve'' ''a'' ''pass'',
        (basic_hook 2 ''sieve'' ''b'' ''stop'')\<lparr>sieve_function := (\<lambda>ev h. Inl (Interrupt ''KeyboardInterrupt''))\<rparr>]\<rparr>,
      [SieveCall 1 3, SieveCall 2 3])"
  by (simp add: launch_def sieve_stage_def sieve_def basic_hook_def new_manager_def)

section \<open>Outcome classification\<close>

lemma execute_hook_cases:
  "execute_hook m h ev =
     (case internal_launch h ev of
        (Inl e, tr) \<Rightarrow> (Inl e, tr)
      | (Inr (ok, out), tr) \<Rightarrow>
          (case fst (run_post_hooks (PostHookEvent h ev (if ok then out else PNone) (if ok then PNone else out))
                      (hook_hooks m ''post'')) of
             None \<Rightarrow> Inr ok | Some x \<Rightarrow> Inl x,
           tr @ snd (run_post_hooks (PostHookEvent h ev (if ok then out else PNone) (if ok then PNone else out))
                      (hook_hooks m ''post''))))"
proof (cases "internal_launch h ev")
  case (Pair r tr)
  show ?thesis
  proof (cases r)
    case (Inl e)
    then show ?thesis using Pair by (simp add: execute_hook_def)
  next
    case (Inr x)
    obtain ok out where x: "x = (ok, out)" by (cases x)
    obtain r' tr' where rp: "run_post_hooks (PostHookEvent h ev (if ok then out else PNone)
        (if ok then PNone else out)) (hook_hooks m ''post'') = (r', tr')" by (metis prod.exhaust)
    show ?thesis using Pair Inr x rp by (cases r') (simp_all add: execute_hook_def Let_def)
  qed
qed


lemma launch_result:
  assumes "fst (sieve_stage m h ev0) = Inr (Some ev)"
  shows "fst (launch m h ev0) =
     (if single_thread h \<and> hook_waiting_queues m (hook_key h) \<noteq> None
      then Parked (next_future m)
      else (case fst (execute_hook m h ev) of Inl x \<Rightarrow> Raised x | Inr ok \<Rightarrow> Returned ok))"
  using assms
  by (cases "sieve_stage m h ev0"; cases "fst (execute_hook m h ev)") (auto simp: launch_cases)




section \<open>The post-hook chain\<close>

lemma internal_launch_suppresses_iff:
  "(fst (internal_launch q ev) = Inr (True, PBool False)) =
     ((\<forall>a\<in>set (required_args q). event_getattr ev a \<noteq> None)
      \<and> hook_function q (map (\<lambda>a. the (event_getattr ev a)) (required_args q)) = Inr (PBool False))"
proof (cases "\<forall>a\<in>set (required_args q). event_getattr ev a \<noteq> None")
  case True
  show ?thesis
    using True internal_launch_bound[OF True]
    by (cases "hook_function q (map (\<lambda>a. the (event_getattr ev a)) (required_args q))") auto
next
  case False
  then obtain a where "a \<in> set (required_args q)" "event_getattr ev a = None" by blast
  then show ?thesis using internal_launch_missing[of a q ev] False by simp
qed

text \<open>
  Claim C8, as the code has it. The post-hooks run in the order of the index. A
  post-hook stops the chain when it ran without error and returned the object
  \<^verbatim>\<open>False\<close> (the test is \<^verbatim>\<open>res is False\<close>), and only then: one that returns any
  other value, \<^verbatim>\<open>None\<close>, \<^verbatim>\<open>0\<close> or the empty string among them, one that is not called
  for a missing parameter, and one that raises an \<^verbatim>\<open>Exception\<close> do not stop it. When
  \<open>p\<close> is the first post-hook that stops the chain, the hooks set up are those up to
  \<open>p\<close>, in order; when there is none, all of them are set up, in order. A post-hook that
  raises an exception which is no \<^verbatim>\<open>Exception\<close> ends the chain too: the exception
  leaves \<^verbatim>\<open>_execute_hook\<close>. The chain run by \<^verbatim>\<open>_execute_hook\<close> is the one of
  \<^verbatim>\<open>hook_hooks["post"]\<close>, which \<^verbatim>\<open>launch\<close> leaves as it was.
\<close>

theorem post_hook_suppression:
  "(ps = pre @ p # post
      \<and> (\<forall>q\<in>set pre. \<exists>x. fst (internal_launch q (pe q)) = Inr x \<and> x \<noteq> (True, PBool False))
      \<and> fst (internal_launch p (pe p)) = Inr (True, PBool False)
     \<longrightarrow> run_post_hooks pe ps = run_post_hooks pe (pre @ [p])
       \<and> fst (run_post_hooks pe ps) = None
       \<and> setups (snd (run_post_hooks pe ps)) = map hook_id (pre @ [p]))
   \<and> ((\<forall>q\<in>set ps. \<exists>x. fst (internal_launch q (pe q)) = Inr x \<and> x \<noteq> (True, PBool False))
     \<longrightarrow> fst (run_post_hooks pe ps) = None
       \<and> setups (snd (run_post_hooks pe ps)) = map hook_id ps)
   \<and> (ps = pre @ p # post
      \<and> (\<forall>q\<in>set pre. \<exists>x. fst (internal_launch q (pe q)) = Inr x \<and> x \<noteq> (True, PBool False))
      \<and> fst (internal_launch p (pe p)) = Inl e
     \<longrightarrow> fst (run_post_hooks pe ps) = Some e
       \<and> setups (snd (run_post_hooks pe ps)) = map hook_id (pre @ [p]))
   \<and> (\<forall>q ev. (fst (internal_launch q ev) = Inr (True, PBool False)) =
        ((\<forall>a\<in>set (required_args q). event_getattr ev a \<noteq> None)
         \<and> hook_function q (map (\<lambda>a. the (event_getattr ev a)) (required_args q)) = Inr (PBool False)))
   \<and> (\<forall>q ev x. (\<forall>a\<in>set (required_args q). event_getattr ev a \<noteq> None)
        \<and> hook_function q (map (\<lambda>a. the (event_getattr ev a)) (required_args q)) = Inl x
     \<longrightarrow> fst (internal_launch q ev) = (if is_Exception x then Inr (False, PExc x) else Inl x))
   \<and> (\<forall>q ev v. (\<forall>a\<in>set (required_args q). event_getattr ev a \<noteq> None)
        \<and> hook_function q (map (\<lambda>a. the (event_getattr ev a)) (required_args q)) = Inr v
     \<longrightarrow> fst (internal_launch q ev) = Inr (True, v))
   \<and> (\<forall>ok out tr. internal_launch h ev = (Inr (ok, out), tr) \<longrightarrow>
         snd (execute_hook m h ev) =
           tr @ snd (run_post_hooks (PostHookEvent h ev (if ok then out else PNone) (if ok then PNone else out))
                      (hook_hooks m ''post'')))
   \<and> hook_hooks (fst (snd (launch m h ev))) = hook_hooks m"
proof -
  have a: "ps = pre @ p # post
      \<and> (\<forall>q\<in>set pre. \<exists>x. fst (internal_launch q (pe q)) = Inr x \<and> x \<noteq> (True, PBool False))
      \<and> fst (internal_launch p (pe p)) = Inr (True, PBool False)
     \<longrightarrow> run_post_hooks pe ps = run_post_hooks pe (pre @ [p])
       \<and> fst (run_post_hooks pe ps) = None
       \<and> setups (snd (run_post_hooks pe ps)) = map hook_id (pre @ [p])"
    using run_post_hooks_suppressed[of pre pe p post] run_post_hooks_setups_upto[of pre pe p]
    by auto
  have b: "(\<forall>q\<in>set ps. \<exists>x. fst (internal_launch q (pe q)) = Inr x \<and> x \<noteq> (True, PBool False))
     \<longrightarrow> fst (run_post_hooks pe ps) = None \<and> setups (snd (run_post_hooks pe ps)) = map hook_id ps"
    using run_post_hooks_all[of ps pe] by blast
  have c: "ps = pre @ p # post
      \<and> (\<forall>q\<in>set pre. \<exists>x. fst (internal_launch q (pe q)) = Inr x \<and> x \<noteq> (True, PBool False))
      \<and> fst (internal_launch p (pe p)) = Inl e
     \<longrightarrow> fst (run_post_hooks pe ps) = Some e
       \<and> setups (snd (run_post_hooks pe ps)) = map hook_id (pre @ [p])"
    using run_post_hooks_escaped[of pre pe p e post] by blast
  have d: "\<forall>q ev. (fst (internal_launch q ev) = Inr (True, PBool False)) =
        ((\<forall>a\<in>set (required_args q). event_getattr ev a \<noteq> None)
         \<and> hook_function q (map (\<lambda>a. the (event_getattr ev a)) (required_args q)) = Inr (PBool False))"
    using internal_launch_suppresses_iff by blast
  have e: "\<forall>q ev x. (\<forall>a\<in>set (required_args q). event_getattr ev a \<noteq> None)
        \<and> hook_function q (map (\<lambda>a. the (event_getattr ev a)) (required_args q)) = Inl x
     \<longrightarrow> fst (internal_launch q ev) = (if is_Exception x then Inr (False, PExc x) else Inl x)"
    by (simp add: internal_launch_bound)
  have f: "\<forall>q ev v. (\<forall>a\<in>set (required_args q). event_getattr ev a \<noteq> None)
        \<and> hook_function q (map (\<lambda>a. the (event_getattr ev a)) (required_args q)) = Inr v
     \<longrightarrow> fst (internal_launch q ev) = Inr (True, v)"
    by (simp add: internal_launch_bound)
  have g: "\<forall>ok out tr. internal_launch h ev = (Inr (ok, out), tr) \<longrightarrow>
         snd (execute_hook m h ev) =
           tr @ snd (run_post_hooks (PostHookEvent h ev (if ok then out else PNone) (if ok then PNone else out))
                      (hook_hooks m ''post''))"
    by (simp add: execute_hook_cases)
  have i: "hook_hooks (fst (snd (launch m h ev))) = hook_hooks m"
    by (simp add: launch_cases split: prod.splits sum.splits option.splits)
  show ?thesis using a b c d e f g i by blast
qed

theorem post_hook_suppression_witness:
  "setups (snd (run_post_hooks (\<lambda>p. bare_event)
     [(basic_hook 1 ''post_hook'' ''a'' ''fails'')\<lparr>hook_function := (\<lambda>ps. Inl (PluginError ''boom''))\<rparr>,
      (basic_hook 2 ''post_hook'' ''b'' ''stops'')\<lparr>hook_function := (\<lambda>ps. Inr (PBool False))\<rparr>,
      basic_hook 3 ''post_hook'' ''c'' ''never''])) = [1, 2]"
proof -
  let ?p1 = "(basic_hook 1 ''post_hook'' ''a'' ''fails'')\<lparr>hook_function := (\<lambda>ps. Inl (PluginError ''boom''))\<rparr>"
  let ?p2 = "(basic_hook 2 ''post_hook'' ''b'' ''stops'')\<lparr>hook_function := (\<lambda>ps. Inr (PBool False))\<rparr>"
  let ?p3 = "basic_hook 3 ''post_hook'' ''c'' ''never''"
  have split: "[?p1, ?p2, ?p3] = [?p1] @ ?p2 # [?p3]" by simp
  have pre: "\<forall>q\<in>set [?p1]. \<exists>x. fst (internal_launch q ((\<lambda>p. bare_event) q)) = Inr x \<and> x \<noteq> (True, PBool False)"
    by (simp add: internal_launch_def execute_hook_threaded_def prepare_parameters_def basic_hook_def)
  have stop: "fst (internal_launch ?p2 ((\<lambda>p. bare_event) ?p2)) = Inr (True, PBool False)"
    by (simp add: internal_launch_def execute_hook_threaded_def prepare_parameters_def basic_hook_def)
  have "setups (snd (run_post_hooks (\<lambda>p. bare_event) [?p1, ?p2, ?p3])) = map hook_id ([?p1] @ [?p2])"
    using post_hook_suppression[of "[?p1, ?p2, ?p3]" "[?p1]" ?p2 "[?p3]" "\<lambda>p. bare_event"
        ValueError ?p3 bare_event "new_manager basic_bot"] split pre stop
    by blast
  then show ?thesis by (simp add: basic_hook_def)
qed

text \<open>
  Claim C8, the values the sentence of the spec calls false and the code does not stop
  at: three post-hooks that run without error and return \<^verbatim>\<open>None\<close>, \<^verbatim>\<open>0\<close> and the empty
  string are followed by the fourth, which is set up and called.
\<close>

theorem falsy_post_hook_results_do_not_suppress:
  "run_post_hooks (\<lambda>p. bare_event)
     [basic_hook 1 ''post_hook'' ''a'' ''none'',
      (basic_hook 2 ''post_hook'' ''b'' ''zero'')\<lparr>hook_function := (\<lambda>ps. Inr (PInt 0))\<rparr>,
      (basic_hook 3 ''post_hook'' ''c'' ''empty'')\<lparr>hook_function := (\<lambda>ps. Inr (PStr []))\<rparr>,
      basic_hook 4 ''post_hook'' ''d'' ''last'']
   = (None, [PrepareThreaded 1, Call 1 [], CloseThreaded 1,
             PrepareThreaded 2, Call 2 [], CloseThreaded 2,
             PrepareThreaded 3, Call 3 [], CloseThreaded 3,
             PrepareThreaded 4, Call 4 [], CloseThreaded 4])"
  by (simp add: internal_launch_def execute_hook_threaded_def prepare_parameters_def basic_hook_def)

section \<open>Loading: the \<^verbatim>\<open>on_start\<close> stage\<close>

lemma launch_returned_unchanged:
  assumes "fst (launch m h ev) = Returned b"
  shows "fst (snd (launch m h ev)) = m"
proof (cases "sieve_stage m h ev")
  case (Pair r tr)
  show ?thesis
  proof (cases r)
    case (Inl e)
    then show ?thesis using Pair by (simp add: launch_cases)
  next
    case (Inr res)
    show ?thesis
    proof (cases res)
      case None
      then show ?thesis using Pair Inr by (simp add: launch_cases)
    next
      case (Some ev')
      show ?thesis
      proof (cases "single_thread h \<and> hook_waiting_queues m (hook_key h) \<noteq> None")
        case True
        then have "fst (launch m h ev) = Parked (next_future m)"
          using Pair Inr Some by (simp add: launch_cases)
        then show ?thesis using assms by simp
      next
        case False
        show ?thesis
        proof (cases "fst (execute_hook m h ev')")
          case (Inl e)
          then have "fst (launch m h ev) = Raised e"
            using Pair Inr Some False by (auto simp: launch_cases)
          then show ?thesis using assms by simp
        next
          case (Inr ok)
          then show ?thesis using Pair \<open>r = Inr res\<close> Some False by (auto simp: launch_cases)
        qed
      qed
    qed
  qed
qed

lemma run_on_start_fails:
  assumes "\<forall>g\<in>set pre. fst (launch m g (new_event (the_bot m) g)) = Returned True"
    and "fst (launch m h (new_event (the_bot m) h)) = Returned False"
  shows "fst (run_on_start m (pre @ h # post)) = Returned False
       \<and> fst (snd (run_on_start m (pre @ h # post))) = m"
  using assms
proof (induction pre)
  case Nil
  obtain r m' tr where l: "launch m h (new_event (the_bot m) h) = (r, m', tr)"
    by (metis prod.exhaust)
  with Nil have "r = Returned False" by simp
  moreover have "m' = m"
    using launch_returned_unchanged[of m h "new_event (the_bot m) h" False] Nil l by simp
  ultimately show ?case using l by simp
next
  case (Cons g pre)
  obtain r m' tr where l: "launch m g (new_event (the_bot m) g) = (r, m', tr)"
    by (metis prod.exhaust)
  with Cons.prems have r: "r = Returned True" by simp
  have m': "m' = m"
    using launch_returned_unchanged[of m g "new_event (the_bot m) g" True] Cons.prems l by simp
  show ?case using Cons l r m' by (auto split: prod.splits)
qed


lemma unregister_tables_metadata:
  "db_metadata (unregister_tables p b) = db_metadata b - set (tables p)"
proof -
  have "foldl (\<lambda>md table. md - {table}) s ts = s - set ts" for s :: "string set" and ts
    by (induction ts arbitrary: s) auto
  then show ?thesis by (simp add: unregister_tables_def)
qed

lemma unregister_tables_frame:
  "new_event (unregister_tables p b) = new_event b"
  "db_engine (unregister_tables p b) = db_engine b"
  "config_plugin_loading (unregister_tables p b) = config_plugin_loading b"
  by (simp_all add: unregister_tables_def)

lemma create_tables_frame:
  "new_event (fst (create_tables p b)) = new_event b
   \<and> db_metadata (fst (create_tables p b)) = db_metadata b
   \<and> config_plugin_loading (fst (create_tables p b)) = config_plugin_loading b"
proof -
  have "new_event (fst (foldl (\<lambda>(b', tr) table.
              if table \<in> db_engine b' then (b', tr)
              else (b'\<lparr>db_engine := insert table (db_engine b')\<rparr>, tr @ [CreateTable table]))
           (b, tr0) ts)) = new_event b
     \<and> db_metadata (fst (foldl (\<lambda>(b', tr) table.
              if table \<in> db_engine b' then (b', tr)
              else (b'\<lparr>db_engine := insert table (db_engine b')\<rparr>, tr @ [CreateTable table]))
           (b, tr0) ts)) = db_metadata b
     \<and> config_plugin_loading (fst (foldl (\<lambda>(b', tr) table.
              if table \<in> db_engine b' then (b', tr)
              else (b'\<lparr>db_engine := insert table (db_engine b')\<rparr>, tr @ [CreateTable table]))
           (b, tr0) ts)) = config_plugin_loading b" for tr0 ts
    by (induction ts arbitrary: b tr0) auto
  then show ?thesis by (simp add: create_tables_def)
qed

lemma create_tables_casefold:
  "str_casefold (fst (create_tables p b)) = str_casefold b"
proof -
  have "str_casefold (fst (foldl (\<lambda>(b', tr) table.
              if table \<in> db_engine b' then (b', tr)
              else (b'\<lparr>db_engine := insert table (db_engine b')\<rparr>, tr @ [CreateTable table]))
           (b, tr0) ts)) = str_casefold b" for tr0 ts
    by (induction ts arbitrary: b tr0) auto
  then show ?thesis by (simp add: create_tables_def)
qed

lemma load_plugin_on_start_failed:
  assumes policy: "check_plugin_loading (the_bot m) (req_title req) = None"
    and imp: "req_import req = Inr code"
    and p: "p = Plugin (req_file_path req) (req_file_name req) (req_title req) code"
    and m0: "m0 = m\<lparr>the_bot := fst (create_tables p (the_bot m))\<rparr>"
    and ros: "fst (run_on_start m0 (hooks p ''on_start'')) = Returned False"
    and same: "fst (snd (run_on_start m0 (hooks p ''on_start''))) = m0"
  shows "fst (load_plugin m req) = OnStartFailed"
    and "fst (snd (load_plugin m req)) = m0\<lparr>the_bot := unregister_tables p (the_bot m0)\<rparr>"
proof -
  obtain b tr1 where ct: "create_tables p (the_bot m) = (b, tr1)" by (metis prod.exhaust)
  obtain r m1 tr2 where ro: "run_on_start m0 (hooks p ''on_start'') = (r, m1, tr2)"
    by (metis prod.exhaust)
  have r: "r = Returned False" and m1: "m1 = m0" using ros same ro by simp_all
  have m0b: "m0 = m\<lparr>the_bot := b\<rparr>" using m0 ct by simp
  show "fst (load_plugin m req) = OnStartFailed"
    using policy imp p[symmetric] ct ro r m1 m0b
    by (simp add: load_plugin_def path_in_plugins_def Let_def)
  show "fst (snd (load_plugin m req)) = m0\<lparr>the_bot := unregister_tables p (the_bot m0)\<rparr>"
    using policy imp p[symmetric] ct ro r m1 m0b
    by (simp add: load_plugin_def path_in_plugins_def Let_def)
qed

text \<open>
  Claim C2: a load that passes the policy and the import, in which the \<^verbatim>\<open>on_start\<close>
  hooks before \<open>h\<close> are launched with success and the launch of \<open>h\<close> returns
  \<^verbatim>\<open>False\<close>, ends there: none of the plugin's tables is left in the schema registry,
  and the identity table, the title lookup and every index are what they were before the
  load.
\<close>

theorem failing_on_start_aborts_load:
  assumes policy: "check_plugin_loading (the_bot m) (req_title req) = None"
    and imp: "req_import req = Inr code"
    and p: "p = Plugin (req_file_path req) (req_file_name req) (req_title req) code"
    and m0: "m0 = m\<lparr>the_bot := fst (create_tables p (the_bot m))\<rparr>"
    and split: "hooks p ''on_start'' = pre @ h # post"
    and before: "\<forall>g\<in>set pre. fst (launch m0 g (new_event (the_bot m0) g)) = Returned True"
    and fails: "fst (launch m0 h (new_event (the_bot m0) h)) = Returned False"
    and m': "m' = fst (snd (load_plugin m req))"
  shows "fst (load_plugin m req) = OnStartFailed
    \<and> db_metadata (the_bot m') \<inter> set (tables p) = {}
    \<and> plugins m' = plugins m
    \<and> plugin_name_map m' = plugin_name_map m
    \<and> commands m' = commands m
    \<and> raw_triggers m' = raw_triggers m
    \<and> catch_all_triggers m' = catch_all_triggers m
    \<and> event_type_hooks m' = event_type_hooks m
    \<and> regex_hooks m' = regex_hooks m
    \<and> sieves m' = sieves m
    \<and> cap_hooks_on_available m' = cap_hooks_on_available m
    \<and> cap_hooks_on_ack m' = cap_hooks_on_ack m
    \<and> connect_hooks m' = connect_hooks m
    \<and> out_sieves m' = out_sieves m
    \<and> hook_hooks m' = hook_hooks m
    \<and> perm_hooks m' = perm_hooks m"
proof -
  have ros: "fst (run_on_start m0 (hooks p ''on_start'')) = Returned False"
    and same: "fst (snd (run_on_start m0 (hooks p ''on_start''))) = m0"
    using run_on_start_fails[OF before fails, of post] split by simp_all
  have st: "fst (load_plugin m req) = OnStartFailed"
    and eq: "m' = m0\<lparr>the_bot := unregister_tables p (the_bot m0)\<rparr>"
    using load_plugin_on_start_failed[OF policy imp p m0 ros same] m' by simp_all
  have md: "db_metadata (the_bot m') \<inter> set (tables p) = {}"
    using eq by (auto simp: unregister_tables_metadata)
  show ?thesis using st md by (simp add: eq m0)
qed

theorem failing_on_start_aborts_load_witness:
  "fst (load_plugin (new_manager (basic_bot\<lparr>db_metadata := {''quotes''}\<rparr>))
        \<lparr>req_file_path = ''/bot/plugins/quotes.py'', req_file_name = ''quotes.py'',
         req_title = ''quotes'',
         req_import = Inr \<lparr>module_hooks =
             (\<lambda>t. if t = ''on_start''
                  then [basic_hook 1 t ''quotes'' ''setup'',
                        (basic_hook 2 t ''quotes'' ''connect_db'')\<lparr>hook_function := (\<lambda>ps. Inl (PluginError ''no db''))\<rparr>]
                  else if t = ''command'' then [(basic_hook 3 t ''quotes'' ''quote'')\<lparr>aliases := [''quote'']\<rparr>]
                  else []),
           module_tables = [''quotes'']\<rparr>\<rparr>) = OnStartFailed
   \<and> db_metadata (the_bot (fst (snd (load_plugin (new_manager (basic_bot\<lparr>db_metadata := {''quotes''}\<rparr>))
        \<lparr>req_file_path = ''/bot/plugins/quotes.py'', req_file_name = ''quotes.py'',
         req_title = ''quotes'',
         req_import = Inr \<lparr>module_hooks =
             (\<lambda>t. if t = ''on_start''
                  then [basic_hook 1 t ''quotes'' ''setup'',
                        (basic_hook 2 t ''quotes'' ''connect_db'')\<lparr>hook_function := (\<lambda>ps. Inl (PluginError ''no db''))\<rparr>]
                  else if t = ''command'' then [(basic_hook 3 t ''quotes'' ''quote'')\<lparr>aliases := [''quote'']\<rparr>]
                  else []),
           module_tables = [''quotes'']\<rparr>\<rparr>)))) \<inter> {''quotes''} = {}
   \<and> commands (fst (snd (load_plugin (new_manager (basic_bot\<lparr>db_metadata := {''quotes''}\<rparr>))
        \<lparr>req_file_path = ''/bot/plugins/quotes.py'', req_file_name = ''quotes.py'',
         req_title = ''quotes'',
         req_import = Inr \<lparr>module_hooks =
             (\<lambda>t. if t = ''on_start''
                  then [basic_hook 1 t ''quotes'' ''setup'',
                        (basic_hook 2 t ''quotes'' ''connect_db'')\<lparr>hook_function := (\<lambda>ps. Inl (PluginError ''no db''))\<rparr>]
                  else if t = ''command'' then [(basic_hook 3 t ''quotes'' ''quote'')\<lparr>aliases := [''quote'']\<rparr>]
                  else []),
           module_tables = [''quotes'']\<rparr>\<rparr>))) = Map.empty"
proof -
  let ?m = "new_manager (basic_bot\<lparr>db_metadata := {''quotes''}\<rparr>)"
  let ?code = "\<lparr>module_hooks =
             (\<lambda>t. if t = ''on_start''
                  then [basic_hook 1 t ''quotes'' ''setup'',
                        (basic_hook 2 t ''quotes'' ''connect_db'')\<lparr>hook_function := (\<lambda>ps. Inl (PluginError ''no db''))\<rparr>]
                  else if t = ''command'' then [(basic_hook 3 t ''quotes'' ''quote'')\<lparr>aliases := [''quote'']\<rparr>]
                  else []),
           module_tables = [''quotes'']\<rparr>"
  let ?req = "\<lparr>req_file_path = ''/bot/plugins/quotes.py'', req_file_name = ''quotes.py'',
         req_title = ''quotes'', req_import = Inr ?code\<rparr>"
  let ?p = "Plugin (req_file_path ?req) (req_file_name ?req) (req_title ?req) ?code"
  let ?mstart = "?m\<lparr>the_bot := fst (create_tables ?p (the_bot ?m))\<rparr>"
  let ?h1 = "(basic_hook 1 ''on_start'' ''quotes'' ''setup'')\<lparr>hook_type := ''on_start'', plugin_title := ''quotes''\<rparr>"
  let ?h2 = "(basic_hook 2 ''on_start'' ''quotes'' ''connect_db'')\<lparr>hook_function := (\<lambda>ps. Inl (PluginError ''no db'')),
      hook_type := ''on_start'', plugin_title := ''quotes''\<rparr>"
  have policy: "check_plugin_loading (the_bot ?m) (req_title ?req) = None"
    by (simp add: check_plugin_loading_def new_manager_def basic_bot_def)
  have imp: "req_import ?req = Inr ?code" by simp
  have split: "hooks ?p ''on_start'' = [?h1] @ ?h2 # []"
    by (simp add: Plugin_def find_hooks_def)
  have hh: "hook_hooks ?mstart = (\<lambda>k. [])" "hook_waiting_queues ?mstart = Map.empty"
    by (simp_all add: new_manager_def)
  have ne: "new_event (the_bot ?mstart) = (\<lambda>h. bare_event)"
    using create_tables_frame[of ?p "the_bot ?m"] by (simp add: new_manager_def basic_bot_def)
  have before: "\<forall>g\<in>set [?h1]. fst (launch ?mstart g (new_event (the_bot ?mstart) g)) = Returned True"
    unfolding ne
    by (simp add: launch_cases sieve_stage_def execute_hook_def internal_launch_def
        execute_hook_threaded_def prepare_parameters_def basic_hook_def new_manager_def)
  have fails: "fst (launch ?mstart ?h2 (new_event (the_bot ?mstart) ?h2)) = Returned False"
    unfolding ne
    by (simp add: launch_cases sieve_stage_def execute_hook_def internal_launch_def
        execute_hook_threaded_def prepare_parameters_def basic_hook_def new_manager_def)
  have tb: "tables ?p = [''quotes'']" by (simp add: Plugin_def find_tables_def)
  have cm: "commands ?m = Map.empty" by (simp add: new_manager_def)
  show ?thesis
    using failing_on_start_aborts_load[OF policy imp refl refl split before fails refl] tb cm
    by simp
qed

section \<open>A required parameter the event does not expose\<close>







lemma load_plugin_loaded:
  assumes policy: "check_plugin_loading (the_bot m) (req_title req) = None"
    and imp: "req_import req = Inr code"
    and p: "p = Plugin (req_file_path req) (req_file_name req) (req_title req) code"
    and m0: "m0 = m\<lparr>the_bot := fst (create_tables p (the_bot m))\<rparr>"
    and ros: "fst (run_on_start m0 (hooks p ''on_start'')) = Returned True"
    and same: "fst (snd (run_on_start m0 (hooks p ''on_start''))) = m0"
  shows "fst (load_plugin m req) = Loaded"
    and "fst (snd (load_plugin m req)) = sort_indexes (fst (register_hooks p m0))"
proof -
  obtain b tr1 where ct: "create_tables p (the_bot m) = (b, tr1)" by (metis prod.exhaust)
  obtain r m1 tr2 where ro: "run_on_start m0 (hooks p ''on_start'') = (r, m1, tr2)"
    by (metis prod.exhaust)
  obtain m2 tr3 where rh: "register_hooks p m0 = (m2, tr3)" by (metis prod.exhaust)
  have r: "r = Returned True" and m1: "m1 = m0" using ros same ro by simp_all
  have m0b: "m0 = m\<lparr>the_bot := b\<rparr>" using m0 ct by simp
  have rh': "register_hooks p (m\<lparr>the_bot := b\<rparr>) = (m2, tr3)" using rh m0b by simp
  have ro': "run_on_start (m\<lparr>the_bot := b\<rparr>) (hooks p ''on_start'') = (Returned True, m\<lparr>the_bot := b\<rparr>, tr2)"
    using ro r m1 m0b by simp
  show "fst (load_plugin m req) = Loaded"
    using policy imp p[symmetric] ct ro' rh'
    by (simp add: load_plugin_def path_in_plugins_def Let_def)
  show "fst (snd (load_plugin m req)) = sort_indexes (fst (register_hooks p m0))"
    using policy imp p[symmetric] ct ro' rh' rh
    by (simp add: load_plugin_def path_in_plugins_def Let_def)
qed



section \<open>The shape of a load and of an unload\<close>

lemma launch_shape:
  "\<exists>q n. fst (snd (launch m h ev)) = m\<lparr>hook_waiting_queues := q, next_future := n\<rparr>"
proof (cases "sieve_stage m h ev")
  case (Pair r tr)
  have id: "m = m\<lparr>hook_waiting_queues := hook_waiting_queues m, next_future := next_future m\<rparr>"
    by simp
  show ?thesis
  proof (cases r)
    case (Inl e)
    then have "fst (snd (launch m h ev)) = m" using Pair by (simp add: launch_cases)
    then show ?thesis using id by metis
  next
    case (Inr res)
    show ?thesis
    proof (cases res)
      case None
      then have "fst (snd (launch m h ev)) = m" using Pair Inr by (simp add: launch_cases)
      then show ?thesis using id by metis
    next
      case (Some ev')
      show ?thesis
      proof (cases "single_thread h \<and> hook_waiting_queues m (hook_key h) \<noteq> None")
        case True
        then have "fst (snd (launch m h ev)) =
           m\<lparr>hook_waiting_queues := fst (gate_enter (hook_key h) (next_future m) (hook_waiting_queues m)),
             next_future := Suc (next_future m)\<rparr>"
          using Pair Inr Some by (simp add: launch_cases)
        then show ?thesis by blast
      next
        case False
        show ?thesis
        proof (cases "fst (execute_hook m h ev')")
          case (Inr ok)
          then have "fst (snd (launch m h ev)) = m"
            using Pair \<open>r = Inr res\<close> Some False by (auto simp: launch_cases)
          then show ?thesis using id by metis
        next
          case (Inl e)
          then have "fst (snd (launch m h ev)) =
              (if single_thread h
               then m\<lparr>hook_waiting_queues := (hook_waiting_queues m)(hook_key h \<mapsto> None),
                      next_future := next_future m\<rparr>
               else m)"
            using Pair Inr Some False by (auto simp: launch_cases)
          then show ?thesis using id by metis
        qed
      qed
    qed
  qed
qed

lemma run_on_start_shape:
  "\<exists>q n. fst (snd (run_on_start m hs)) = m\<lparr>hook_waiting_queues := q, next_future := n\<rparr>"
proof (induction hs arbitrary: m)
  case Nil
  have "m = m\<lparr>hook_waiting_queues := hook_waiting_queues m, next_future := next_future m\<rparr>"
    by simp
  then show ?case by (metis run_on_start.simps(1) fst_conv snd_conv)
next
  case (Cons h hs)
  obtain r m' tr where l: "launch m h (new_event (the_bot m) h) = (r, m', tr)"
    by (metis prod.exhaust)
  obtain q n where m': "m' = m\<lparr>hook_waiting_queues := q, next_future := n\<rparr>"
    using launch_shape[of m h "new_event (the_bot m) h"] l by auto
  show ?case
  proof (cases r)
    case (Returned b)
    show ?thesis
    proof (cases b)
      case True
      obtain q' n' where "fst (snd (run_on_start m' hs)) = m'\<lparr>hook_waiting_queues := q', next_future := n'\<rparr>"
        using Cons[of m'] by blast
      then have "fst (snd (run_on_start m (h # hs))) = m\<lparr>hook_waiting_queues := q', next_future := n'\<rparr>"
        using l Returned True m' by (cases "run_on_start m' hs") auto
      then show ?thesis by blast
    next
      case False
      then have "fst (snd (run_on_start m (h # hs))) = m'" using l Returned by simp
      then show ?thesis using m' by blast
    qed
  next
    case (Parked f)
    then have "fst (snd (run_on_start m (h # hs))) = m'" using l by simp
    then show ?thesis using m' by blast
  next
    case (Raised e)
    then have "fst (snd (run_on_start m (h # hs))) = m'" using l by simp
    then show ?thesis using m' by blast
  qed
qed

lemma load_plugin_shape:
  "\<exists>b q n.
     (fst (load_plugin m req) \<noteq> Loaded
        \<and> fst (snd (load_plugin m req)) = m\<lparr>the_bot := b, hook_waiting_queues := q, next_future := n\<rparr>)
   \<or> (fst (load_plugin m req) = Loaded
        \<and> (\<exists>code. req_import req = Inr code
             \<and> fst (snd (load_plugin m req)) =
                 sort_indexes (fst (register_hooks
                   (Plugin (req_file_path req) (req_file_name req) (req_title req) code)
                   (m\<lparr>the_bot := b, hook_waiting_queues := q, next_future := n\<rparr>)))))"
proof -
  have id: "m = m\<lparr>the_bot := the_bot m, hook_waiting_queues := hook_waiting_queues m,
       next_future := next_future m\<rparr>" by simp
  show ?thesis
  proof (cases "check_plugin_loading (the_bot m) (req_title req)")
    case (Some st)
    have "st = NotWhitelisted \<or> st = Blacklisted"
      using Some by (auto simp: check_plugin_loading_def split: option.splits if_splits)
    then have "fst (load_plugin m req) \<noteq> Loaded \<and> fst (snd (load_plugin m req)) = m"
      using Some by (auto simp: load_plugin_def)
    then show ?thesis using id by metis
  next
    case None
    show ?thesis
    proof (cases "req_import req")
      case (Inl e)
      then have "fst (load_plugin m req) \<noteq> Loaded \<and> fst (snd (load_plugin m req)) = m"
        using None by (simp add: load_plugin_def path_in_plugins_def)
      then show ?thesis using id by metis
    next
      case (Inr code)
      define p where "p = Plugin (req_file_path req) (req_file_name req) (req_title req) code"
      obtain b tr1 where ct: "create_tables p (the_bot m) = (b, tr1)" by (metis prod.exhaust)
      obtain r m1 tr2 where ro: "run_on_start (m\<lparr>the_bot := b\<rparr>) (hooks p ''on_start'') = (r, m1, tr2)"
        by (metis prod.exhaust)
      obtain q n where m1: "m1 = m\<lparr>the_bot := b, hook_waiting_queues := q, next_future := n\<rparr>"
        using run_on_start_shape[of "m\<lparr>the_bot := b\<rparr>" "hooks p ''on_start''"] ro by auto
      obtain m2 tr3 where rh: "register_hooks p m1 = (m2, tr3)" by (metis prod.exhaust)
      have lp: "load_plugin m req =
         (case r of
            Returned False \<Rightarrow> (OnStartFailed, m1\<lparr>the_bot := unregister_tables p (the_bot m1)\<rparr>,
                                tr1 @ tr2 @ [LogOnStartErrored (title p)])
          | Parked f \<Rightarrow> (LoadParked f, m1, tr1 @ tr2)
          | Raised e \<Rightarrow> (LoadRaised e, m1, tr1 @ tr2)
          | Returned True \<Rightarrow> (Loaded, sort_indexes m2, tr1 @ tr2 @ tr3))"
        using None Inr ct ro rh p_def[symmetric]
        by (simp add: load_plugin_def path_in_plugins_def Let_def split: launch_result.splits bool.splits)
      show ?thesis
      proof (cases r)
        case (Returned ok)
        show ?thesis
        proof (cases ok)
          case True
          then have "fst (load_plugin m req) = Loaded
             \<and> fst (snd (load_plugin m req)) = sort_indexes (fst (register_hooks p m1))"
            using lp Returned rh by simp
          then show ?thesis using Inr m1 p_def by blast
        next
          case False
          then have "fst (load_plugin m req) \<noteq> Loaded \<and> fst (snd (load_plugin m req)) =
              m\<lparr>the_bot := unregister_tables p b, hook_waiting_queues := q, next_future := n\<rparr>"
            using lp Returned m1 by simp
          then show ?thesis by blast
        qed
      next
        case (Parked f)
        then have "fst (load_plugin m req) \<noteq> Loaded \<and> fst (snd (load_plugin m req)) = m1"
          using lp by simp
        then show ?thesis using m1 by blast
      next
        case (Raised e)
        then have "fst (load_plugin m req) \<noteq> Loaded \<and> fst (snd (load_plugin m req)) = m1"
          using lp by simp
        then show ?thesis using m1 by blast
      qed
    qed
  qed
qed

lemma run_on_stop_shape:
  "\<exists>q n. fst (snd (run_on_stop m hs)) = m\<lparr>hook_waiting_queues := q, next_future := n\<rparr>"
proof (induction hs arbitrary: m)
  case Nil
  have "m = m\<lparr>hook_waiting_queues := hook_waiting_queues m, next_future := next_future m\<rparr>"
    by simp
  then show ?case by (metis run_on_stop.simps(1) fst_conv snd_conv)
next
  case (Cons h hs)
  obtain r m' tr where l: "launch m h (new_event (the_bot m) h) = (r, m', tr)"
    by (metis prod.exhaust)
  obtain q n where m': "m' = m\<lparr>hook_waiting_queues := q, next_future := n\<rparr>"
    using launch_shape[of m h "new_event (the_bot m) h"] l by auto
  show ?case
  proof (cases r)
    case (Returned b)
    obtain q' n' where "fst (snd (run_on_stop m' hs)) = m'\<lparr>hook_waiting_queues := q', next_future := n'\<rparr>"
      using Cons[of m'] by blast
    then have "fst (snd (run_on_stop m (h # hs))) = m\<lparr>hook_waiting_queues := q', next_future := n'\<rparr>"
      using l Returned m' by (cases "run_on_stop m' hs") auto
    then show ?thesis by blast
  next
    case (Parked f)
    then have "fst (snd (run_on_stop m (h # hs))) = m'" using l by simp
    then show ?thesis using m' by blast
  next
    case (Raised e)
    then have "fst (snd (run_on_stop m (h # hs))) = m'" using l by simp
    then show ?thesis using m' by blast
  qed
qed

lemma for_loop_preserves:
  assumes "\<And>x s. x \<in> set xs \<Longrightarrow> P s \<Longrightarrow> P (fst (body x s))" and "P s"
  shows "P (fst (for_loop body xs s))"
  using assms
proof (induction xs arbitrary: s)
  case Nil
  then show ?case by simp
next
  case (Cons x xs)
  obtain s' e where b: "body x s = (s', e)" by (metis prod.exhaust)
  have ps': "P s'" using Cons.prems(1)[of x s] Cons.prems(2) b by simp
  show ?case
  proof (cases e)
    case None
    have "P (fst (for_loop body xs s'))"
      using Cons.IH[of s'] Cons.prems(1) ps' by simp
    then show ?thesis using b None by simp
  next
    case (Some ex)
    then show ?thesis using b ps' by simp
  qed
qed

lemma seq_preserves:
  assumes "\<And>s. P s \<Longrightarrow> P (fst (f s))" and "\<And>s. P s \<Longrightarrow> P (fst (g s))" and "P s"
  shows "P (fst (seq f g s))"
proof -
  obtain s' e where b: "f s = (s', e)" by (metis prod.exhaust)
  have "P s'" using assms(1)[OF assms(3)] b by simp
  then show ?thesis using b assms(2)[of s'] by (cases e) (simp_all add: seq_def)
qed

lemma unload_plugin_preserves:
  assumes loaded: "plugins m path = Some p"
    and steps: "\<And>s. P s \<Longrightarrow> P (fst (unregister_hooks p s))"
    and frame: "\<And>s b q n pl. P s \<Longrightarrow> P (s\<lparr>the_bot := b\<rparr>)
        \<and> P (s\<lparr>hook_waiting_queues := q, next_future := n\<rparr>) \<and> P (s\<lparr>plugins := pl\<rparr>)"
    and start: "P m"
  shows "P (fst (snd (unload_plugin m path)))"
proof -
  obtain m1 e where u: "unregister_hooks p m = (m1, e)" by (metis prod.exhaust)
  have p1: "P m1" using steps[OF start] u by simp
  show ?thesis
  proof (cases e)
    case (Some ex)
    then show ?thesis using loaded u p1 by (simp add: unload_plugin_def)
  next
    case None
    obtain r m2 tr where ro: "run_on_stop m1 (hooks p ''on_stop'') = (r, m2, tr)"
      by (metis prod.exhaust)
    obtain q n where m2: "m2 = m1\<lparr>hook_waiting_queues := q, next_future := n\<rparr>"
      using run_on_stop_shape[of m1 "hooks p ''on_stop''"] ro by auto
    have p2: "P m2" using frame[OF p1] m2 by simp
    show ?thesis
    proof (cases r)
      case (Returned b)
      have p3: "P (m2\<lparr>the_bot := unregister_tables p (the_bot m2)\<rparr>)" using frame[OF p2] by simp
      have p4: "P (m2\<lparr>the_bot := unregister_tables p (the_bot m2),
           plugins := (plugins m2)(file_path p := None)\<rparr>)" using frame[OF p3] by simp
      show ?thesis using loaded u None ro Returned p3 p4
        by (simp add: unload_plugin_def Let_def split: option.splits)
    next
      case (Parked f)
      then show ?thesis using loaded u None ro p2 by (simp add: unload_plugin_def)
    next
      case (Raised ex)
      then show ?thesis using loaded u None ro p2 by (simp add: unload_plugin_def)
    qed
  qed
qed

lemma unregister_hooks_preserves:
  assumes "\<And>h s. h \<in> set (hooks p ''on_cap_available'') \<Longrightarrow> P s \<Longrightarrow> P (fst (unregister_cap_available h s))"
    and "\<And>h s. h \<in> set (hooks p ''on_cap_ack'') \<Longrightarrow> P s \<Longrightarrow> P (fst (unregister_cap_ack h s))"
    and "\<And>h s. h \<in> set (hooks p ''command'') \<Longrightarrow> P s \<Longrightarrow> P (fst (unregister_command h s))"
    and "\<And>h s. h \<in> set (hooks p ''irc_raw'') \<Longrightarrow> P s \<Longrightarrow> P (fst (unregister_raw h s))"
    and "\<And>h s. h \<in> set (hooks p ''event'') \<Longrightarrow> P s \<Longrightarrow> P (fst (unregister_event h s))"
    and "\<And>h s. h \<in> set (hooks p ''regex'') \<Longrightarrow> P s \<Longrightarrow> P (fst (unregister_regex h s))"
    and "\<And>h s. h \<in> set (hooks p ''sieve'') \<Longrightarrow> P s \<Longrightarrow> P (fst (unregister_sieve h s))"
    and "\<And>h s. h \<in> set (hooks p ''on_connect'') \<Longrightarrow> P s \<Longrightarrow> P (fst (unregister_connect h s))"
    and "\<And>h s. h \<in> set (hooks p ''irc_out'') \<Longrightarrow> P s \<Longrightarrow> P (fst (unregister_out h s))"
    and "\<And>h s. h \<in> set (hooks p ''post_hook'') \<Longrightarrow> P s \<Longrightarrow> P (fst (unregister_post h s))"
    and "\<And>h s. h \<in> set (hooks p ''perm_check'') \<Longrightarrow> P s \<Longrightarrow> P (fst (unregister_perm h s))"
    and "P s"
  shows "P (fst (unregister_hooks p s))"
proof -
  have l1: "\<And>s. P s \<Longrightarrow> P (fst (for_loop unregister_cap_available (hooks p ''on_cap_available'') s))"
    by (rule for_loop_preserves[where P = P and body = unregister_cap_available]) (rule assms(1))
  have l2: "\<And>s. P s \<Longrightarrow> P (fst (for_loop unregister_cap_ack (hooks p ''on_cap_ack'') s))"
    by (rule for_loop_preserves[where P = P and body = unregister_cap_ack]) (rule assms(2))
  have l3: "\<And>s. P s \<Longrightarrow> P (fst (for_loop unregister_command (hooks p ''command'') s))"
    by (rule for_loop_preserves[where P = P and body = unregister_command]) (rule assms(3))
  have l4: "\<And>s. P s \<Longrightarrow> P (fst (for_loop unregister_raw (hooks p ''irc_raw'') s))"
    by (rule for_loop_preserves[where P = P and body = unregister_raw]) (rule assms(4))
  have l5: "\<And>s. P s \<Longrightarrow> P (fst (for_loop unregister_event (hooks p ''event'') s))"
    by (rule for_loop_preserves[where P = P and body = unregister_event]) (rule assms(5))
  have l6: "\<And>s. P s \<Longrightarrow> P (fst (for_loop unregister_regex (hooks p ''regex'') s))"
    by (rule for_loop_preserves[where P = P and body = unregister_regex]) (rule assms(6))
  have l7: "\<And>s. P s \<Longrightarrow> P (fst (for_loop unregister_sieve (hooks p ''sieve'') s))"
    by (rule for_loop_preserves[where P = P and body = unregister_sieve]) (rule assms(7))
  have l8: "\<And>s. P s \<Longrightarrow> P (fst (for_loop unregister_connect (hooks p ''on_connect'') s))"
    by (rule for_loop_preserves[where P = P and body = unregister_connect]) (rule assms(8))
  have l9: "\<And>s. P s \<Longrightarrow> P (fst (for_loop unregister_out (hooks p ''irc_out'') s))"
    by (rule for_loop_preserves[where P = P and body = unregister_out]) (rule assms(9))
  have l10: "\<And>s. P s \<Longrightarrow> P (fst (for_loop unregister_post (hooks p ''post_hook'') s))"
    by (rule for_loop_preserves[where P = P and body = unregister_post]) (rule assms(10))
  have l11: "\<And>s. P s \<Longrightarrow> P (fst (for_loop unregister_perm (hooks p ''perm_check'') s))"
    by (rule for_loop_preserves[where P = P and body = unregister_perm]) (rule assms(11))
  have c10: "\<And>s. P s \<Longrightarrow> P (fst ((seq (for_loop unregister_post (hooks p ''post_hook''))
      (for_loop unregister_perm (hooks p ''perm_check''))) s))"
    by (rule seq_preserves[where P = P and f = "for_loop unregister_post (hooks p ''post_hook'')"
      and g = "for_loop unregister_perm (hooks p ''perm_check'')"]; (erule l10 | erule l11 | assumption))
  have c9: "\<And>s. P s \<Longrightarrow> P (fst ((seq (for_loop unregister_out (hooks p ''irc_out''))
      (seq (for_loop unregister_post (hooks p ''post_hook''))
      (for_loop unregister_perm (hooks p ''perm_check'')))) s))"
    by (rule seq_preserves[where P = P and f = "for_loop unregister_out (hooks p ''irc_out'')"
      and g = "seq (for_loop unregister_post (hooks p ''post_hook''))
      (for_loop unregister_perm (hooks p ''perm_check''))"]; (erule l9 | erule c10 | assumption))
  have c8: "\<And>s. P s \<Longrightarrow> P (fst ((seq (for_loop unregister_connect (hooks p ''on_connect''))
      (seq (for_loop unregister_out (hooks p ''irc_out''))
      (seq (for_loop unregister_post (hooks p ''post_hook''))
      (for_loop unregister_perm (hooks p ''perm_check''))))) s))"
    by (rule seq_preserves[where P = P and f = "for_loop unregister_connect (hooks p ''on_connect'')"
      and g = "seq (for_loop unregister_out (hooks p ''irc_out''))
      (seq (for_loop unregister_post (hooks p ''post_hook''))
      (for_loop unregister_perm (hooks p ''perm_check'')))"]; (erule l8 | erule c9 | assumption))
  have c7: "\<And>s. P s \<Longrightarrow> P (fst ((seq (for_loop unregister_sieve (hooks p ''sieve''))
      (seq (for_loop unregister_connect (hooks p ''on_connect''))
      (seq (for_loop unregister_out (hooks p ''irc_out''))
      (seq (for_loop unregister_post (hooks p ''post_hook''))
      (for_loop unregister_perm (hooks p ''perm_check'')))))) s))"
    by (rule seq_preserves[where P = P and f = "for_loop unregister_sieve (hooks p ''sieve'')"
      and g = "seq (for_loop unregister_connect (hooks p ''on_connect''))
      (seq (for_loop unregister_out (hooks p ''irc_out''))
      (seq (for_loop unregister_post (hooks p ''post_hook''))
      (for_loop unregister_perm (hooks p ''perm_check''))))"]; (erule l7 | erule c8 | assumption))
  have c6: "\<And>s. P s \<Longrightarrow> P (fst ((seq (for_loop unregister_regex (hooks p ''regex''))
      (seq (for_loop unregister_sieve (hooks p ''sieve''))
      (seq (for_loop unregister_connect (hooks p ''on_connect''))
      (seq (for_loop unregister_out (hooks p ''irc_out''))
      (seq (for_loop unregister_post (hooks p ''post_hook''))
      (for_loop unregister_perm (hooks p ''perm_check''))))))) s))"
    by (rule seq_preserves[where P = P and f = "for_loop unregister_regex (hooks p ''regex'')"
      and g = "seq (for_loop unregister_sieve (hooks p ''sieve''))
      (seq (for_loop unregister_connect (hooks p ''on_connect''))
      (seq (for_loop unregister_out (hooks p ''irc_out''))
      (seq (for_loop unregister_post (hooks p ''post_hook''))
      (for_loop unregister_perm (hooks p ''perm_check'')))))"]; (erule l6 | erule c7 | assumption))
  have c5: "\<And>s. P s \<Longrightarrow> P (fst ((seq (for_loop unregister_event (hooks p ''event''))
      (seq (for_loop unregister_regex (hooks p ''regex''))
      (seq (for_loop unregister_sieve (hooks p ''sieve''))
      (seq (for_loop unregister_connect (hooks p ''on_connect''))
      (seq (for_loop unregister_out (hooks p ''irc_out''))
      (seq (for_loop unregister_post (hooks p ''post_hook''))
      (for_loop unregister_perm (hooks p ''perm_check'')))))))) s))"
    by (rule seq_preserves[where P = P and f = "for_loop unregister_event (hooks p ''event'')"
      and g = "seq (for_loop unregister_regex (hooks p ''regex''))
      (seq (for_loop unregister_sieve (hooks p ''sieve''))
      (seq (for_loop unregister_connect (hooks p ''on_connect''))
      (seq (for_loop unregister_out (hooks p ''irc_out''))
      (seq (for_loop unregister_post (hooks p ''post_hook''))
      (for_loop unregister_perm (hooks p ''perm_check''))))))"]; (erule l5 | erule c6 | assumption))
  have c4: "\<And>s. P s \<Longrightarrow> P (fst ((seq (for_loop unregister_raw (hooks p ''irc_raw''))
      (seq (for_loop unregister_event (hooks p ''event''))
      (seq (for_loop unregister_regex (hooks p ''regex''))
      (seq (for_loop unregister_sieve (hooks p ''sieve''))
      (seq (for_loop unregister_connect (hooks p ''on_connect''))
      (seq (for_loop unregister_out (hooks p ''irc_out''))
      (seq (for_loop unregister_post (hooks p ''post_hook''))
      (for_loop unregister_perm (hooks p ''perm_check''))))))))) s))"
    by (rule seq_preserves[where P = P and f = "for_loop unregister_raw (hooks p ''irc_raw'')"
      and g = "seq (for_loop unregister_event (hooks p ''event''))
      (seq (for_loop unregister_regex (hooks p ''regex''))
      (seq (for_loop unregister_sieve (hooks p ''sieve''))
      (seq (for_loop unregister_connect (hooks p ''on_connect''))
      (seq (for_loop unregister_out (hooks p ''irc_out''))
      (seq (for_loop unregister_post (hooks p ''post_hook''))
      (for_loop unregister_perm (hooks p ''perm_check'')))))))"]; (erule l4 | erule c5 | assumption))
  have c3: "\<And>s. P s \<Longrightarrow> P (fst ((seq (for_loop unregister_command (hooks p ''command''))
      (seq (for_loop unregister_raw (hooks p ''irc_raw''))
      (seq (for_loop unregister_event (hooks p ''event''))
      (seq (for_loop unregister_regex (hooks p ''regex''))
      (seq (for_loop unregister_sieve (hooks p ''sieve''))
      (seq (for_loop unregister_connect (hooks p ''on_connect''))
      (seq (for_loop unregister_out (hooks p ''irc_out''))
      (seq (for_loop unregister_post (hooks p ''post_hook''))
      (for_loop unregister_perm (hooks p ''perm_check'')))))))))) s))"
    by (rule seq_preserves[where P = P and f = "for_loop unregister_command (hooks p ''command'')"
      and g = "seq (for_loop unregister_raw (hooks p ''irc_raw''))
      (seq (for_loop unregister_event (hooks p ''event''))
      (seq (for_loop unregister_regex (hooks p ''regex''))
      (seq (for_loop unregister_sieve (hooks p ''sieve''))
      (seq (for_loop unregister_connect (hooks p ''on_connect''))
      (seq (for_loop unregister_out (hooks p ''irc_out''))
      (seq (for_loop unregister_post (hooks p ''post_hook''))
      (for_loop unregister_perm (hooks p ''perm_check''))))))))"]; (erule l3 | erule c4 | assumption))
  have c2: "\<And>s. P s \<Longrightarrow> P (fst ((seq (for_loop unregister_cap_ack (hooks p ''on_cap_ack''))
      (seq (for_loop unregister_command (hooks p ''command''))
      (seq (for_loop unregister_raw (hooks p ''irc_raw''))
      (seq (for_loop unregister_event (hooks p ''event''))
      (seq (for_loop unregister_regex (hooks p ''regex''))
      (seq (for_loop unregister_sieve (hooks p ''sieve''))
      (seq (for_loop unregister_connect (hooks p ''on_connect''))
      (seq (for_loop unregister_out (hooks p ''irc_out''))
      (seq (for_loop unregister_post (hooks p ''post_hook''))
      (for_loop unregister_perm (hooks p ''perm_check''))))))))))) s))"
    by (rule seq_preserves[where P = P and f = "for_loop unregister_cap_ack (hooks p ''on_cap_ack'')"
      and g = "seq (for_loop unregister_command (hooks p ''command''))
      (seq (for_loop unregister_raw (hooks p ''irc_raw''))
      (seq (for_loop unregister_event (hooks p ''event''))
      (seq (for_loop unregister_regex (hooks p ''regex''))
      (seq (for_loop unregister_sieve (hooks p ''sieve''))
      (seq (for_loop unregister_connect (hooks p ''on_connect''))
      (seq (for_loop unregister_out (hooks p ''irc_out''))
      (seq (for_loop unregister_post (hooks p ''post_hook''))
      (for_loop unregister_perm (hooks p ''perm_check'')))))))))"]; (erule l2 | erule c3 | assumption))
  have c1: "\<And>s. P s \<Longrightarrow> P (fst ((seq (for_loop unregister_cap_available (hooks p ''on_cap_available''))
      (seq (for_loop unregister_cap_ack (hooks p ''on_cap_ack''))
      (seq (for_loop unregister_command (hooks p ''command''))
      (seq (for_loop unregister_raw (hooks p ''irc_raw''))
      (seq (for_loop unregister_event (hooks p ''event''))
      (seq (for_loop unregister_regex (hooks p ''regex''))
      (seq (for_loop unregister_sieve (hooks p ''sieve''))
      (seq (for_loop unregister_connect (hooks p ''on_connect''))
      (seq (for_loop unregister_out (hooks p ''irc_out''))
      (seq (for_loop unregister_post (hooks p ''post_hook''))
      (for_loop unregister_perm (hooks p ''perm_check'')))))))))))) s))"
    by (rule seq_preserves[where P = P and f = "for_loop unregister_cap_available (hooks p ''on_cap_available'')"
      and g = "seq (for_loop unregister_cap_ack (hooks p ''on_cap_ack''))
      (seq (for_loop unregister_command (hooks p ''command''))
      (seq (for_loop unregister_raw (hooks p ''irc_raw''))
      (seq (for_loop unregister_event (hooks p ''event''))
      (seq (for_loop unregister_regex (hooks p ''regex''))
      (seq (for_loop unregister_sieve (hooks p ''sieve''))
      (seq (for_loop unregister_connect (hooks p ''on_connect''))
      (seq (for_loop unregister_out (hooks p ''irc_out''))
      (seq (for_loop unregister_post (hooks p ''post_hook''))
      (for_loop unregister_perm (hooks p ''perm_check''))))))))))"]; (erule l1 | erule c2 | assumption))
  show ?thesis unfolding unregister_hooks_def by (rule c1) (rule assms(12))
qed

lemma for_loop_success:
  "for_loop body (x # xs) s = (s', None) \<Longrightarrow>
     \<exists>s1. body x s = (s1, None) \<and> for_loop body xs s1 = (s', None)"
  by (cases "body x s"; cases "snd (body x s)") auto

lemma seq_success:
  "seq f g s = (s', None) \<Longrightarrow> \<exists>s1. f s = (s1, None) \<and> g s1 = (s', None)"
  by (cases "f s"; cases "snd (f s)") (auto simp: seq_def)

lemma unregister_hooks_success:
  assumes "unregister_hooks p m = (m', None)"
  shows "\<exists>s1 s2 s3 s4 s5 s6 s7 s8 s9 s10.
      for_loop unregister_cap_available (hooks p ''on_cap_available'') m = (s1, None)
    \<and> for_loop unregister_cap_ack (hooks p ''on_cap_ack'') s1 = (s2, None)
    \<and> for_loop unregister_command (hooks p ''command'') s2 = (s3, None)
    \<and> for_loop unregister_raw (hooks p ''irc_raw'') s3 = (s4, None)
    \<and> for_loop unregister_event (hooks p ''event'') s4 = (s5, None)
    \<and> for_loop unregister_regex (hooks p ''regex'') s5 = (s6, None)
    \<and> for_loop unregister_sieve (hooks p ''sieve'') s6 = (s7, None)
    \<and> for_loop unregister_connect (hooks p ''on_connect'') s7 = (s8, None)
    \<and> for_loop unregister_out (hooks p ''irc_out'') s8 = (s9, None)
    \<and> for_loop unregister_post (hooks p ''post_hook'') s9 = (s10, None)
    \<and> for_loop unregister_perm (hooks p ''perm_check'') s10 = (m', None)"
proof -
  obtain s1 where s1: "for_loop unregister_cap_available (hooks p ''on_cap_available'') m = (s1, None)"
    and r1: "(seq (for_loop unregister_cap_ack (hooks p ''on_cap_ack''))
    (seq (for_loop unregister_command (hooks p ''command''))
    (seq (for_loop unregister_raw (hooks p ''irc_raw''))
    (seq (for_loop unregister_event (hooks p ''event''))
    (seq (for_loop unregister_regex (hooks p ''regex''))
    (seq (for_loop unregister_sieve (hooks p ''sieve''))
    (seq (for_loop unregister_connect (hooks p ''on_connect''))
    (seq (for_loop unregister_out (hooks p ''irc_out''))
    (seq (for_loop unregister_post (hooks p ''post_hook''))
         (for_loop unregister_perm (hooks p ''perm_check''))))))))))) s1 = (m', None)"
    using seq_success[OF assms[unfolded unregister_hooks_def]] by blast
  obtain s2 where s2: "for_loop unregister_cap_ack (hooks p ''on_cap_ack'') s1 = (s2, None)"
    and r2: "(seq (for_loop unregister_command (hooks p ''command''))
    (seq (for_loop unregister_raw (hooks p ''irc_raw''))
    (seq (for_loop unregister_event (hooks p ''event''))
    (seq (for_loop unregister_regex (hooks p ''regex''))
    (seq (for_loop unregister_sieve (hooks p ''sieve''))
    (seq (for_loop unregister_connect (hooks p ''on_connect''))
    (seq (for_loop unregister_out (hooks p ''irc_out''))
    (seq (for_loop unregister_post (hooks p ''post_hook''))
         (for_loop unregister_perm (hooks p ''perm_check'')))))))))) s2 = (m', None)"
    using seq_success[OF r1] by blast
  obtain s3 where s3: "for_loop unregister_command (hooks p ''command'') s2 = (s3, None)"
    and r3: "(seq (for_loop unregister_raw (hooks p ''irc_raw''))
    (seq (for_loop unregister_event (hooks p ''event''))
    (seq (for_loop unregister_regex (hooks p ''regex''))
    (seq (for_loop unregister_sieve (hooks p ''sieve''))
    (seq (for_loop unregister_connect (hooks p ''on_connect''))
    (seq (for_loop unregister_out (hooks p ''irc_out''))
    (seq (for_loop unregister_post (hooks p ''post_hook''))
         (for_loop unregister_perm (hooks p ''perm_check''))))))))) s3 = (m', None)"
    using seq_success[OF r2] by blast
  obtain s4 where s4: "for_loop unregister_raw (hooks p ''irc_raw'') s3 = (s4, None)"
    and r4: "(seq (for_loop unregister_event (hooks p ''event''))
    (seq (for_loop unregister_regex (hooks p ''regex''))
    (seq (for_loop unregister_sieve (hooks p ''sieve''))
    (seq (for_loop unregister_connect (hooks p ''on_connect''))
    (seq (for_loop unregister_out (hooks p ''irc_out''))
    (seq (for_loop unregister_post (hooks p ''post_hook''))
         (for_loop unregister_perm (hooks p ''perm_check'')))))))) s4 = (m', None)"
    using seq_success[OF r3] by blast
  obtain s5 where s5: "for_loop unregister_event (hooks p ''event'') s4 = (s5, None)"
    and r5: "(seq (for_loop unregister_regex (hooks p ''regex''))
    (seq (for_loop unregister_sieve (hooks p ''sieve''))
    (seq (for_loop unregister_connect (hooks p ''on_connect''))
    (seq (for_loop unregister_out (hooks p ''irc_out''))
    (seq (for_loop unregister_post (hooks p ''post_hook''))
         (for_loop unregister_perm (hooks p ''perm_check''))))))) s5 = (m', None)"
    using seq_success[OF r4] by blast
  obtain s6 where s6: "for_loop unregister_regex (hooks p ''regex'') s5 = (s6, None)"
    and r6: "(seq (for_loop unregister_sieve (hooks p ''sieve''))
    (seq (for_loop unregister_connect (hooks p ''on_connect''))
    (seq (for_loop unregister_out (hooks p ''irc_out''))
    (seq (for_loop unregister_post (hooks p ''post_hook''))
         (for_loop unregister_perm (hooks p ''perm_check'')))))) s6 = (m', None)"
    using seq_success[OF r5] by blast
  obtain s7 where s7: "for_loop unregister_sieve (hooks p ''sieve'') s6 = (s7, None)"
    and r7: "(seq (for_loop unregister_connect (hooks p ''on_connect''))
    (seq (for_loop unregister_out (hooks p ''irc_out''))
    (seq (for_loop unregister_post (hooks p ''post_hook''))
         (for_loop unregister_perm (hooks p ''perm_check''))))) s7 = (m', None)"
    using seq_success[OF r6] by blast
  obtain s8 where s8: "for_loop unregister_connect (hooks p ''on_connect'') s7 = (s8, None)"
    and r8: "(seq (for_loop unregister_out (hooks p ''irc_out''))
    (seq (for_loop unregister_post (hooks p ''post_hook''))
         (for_loop unregister_perm (hooks p ''perm_check'')))) s8 = (m', None)"
    using seq_success[OF r7] by blast
  obtain s9 where s9: "for_loop unregister_out (hooks p ''irc_out'') s8 = (s9, None)"
    and r9: "(seq (for_loop unregister_post (hooks p ''post_hook''))
         (for_loop unregister_perm (hooks p ''perm_check''))) s9 = (m', None)"
    using seq_success[OF r8] by blast
  obtain s10 where s10: "for_loop unregister_post (hooks p ''post_hook'') s9 = (s10, None)"
    and r10: "for_loop unregister_perm (hooks p ''perm_check'') s10 = (m', None)"
    using seq_success[OF r9] by blast
  show ?thesis using s1 s2 s3 s4 s5 s6 s7 s8 s9 s10 r10 by blast
qed

lemma unload_plugin_unloaded:
  assumes loaded: "plugins m path = Some p"
    and ok: "fst (unload_plugin m path) = Unloaded"
  shows "\<exists>m1 q n. unregister_hooks p m = (m1, None)
     \<and> fst (snd (unload_plugin m path)) =
         m1\<lparr>hook_waiting_queues := q, next_future := n,
            the_bot := unregister_tables p (the_bot m1),
            plugins := (plugins m1)(file_path p := None)\<rparr>"
proof -
  obtain m1 e where u: "unregister_hooks p m = (m1, e)" by (metis prod.exhaust)
  show ?thesis
  proof (cases e)
    case (Some ex)
    then show ?thesis using loaded u ok by (simp add: unload_plugin_def)
  next
    case None
    obtain r m2 tr where ro: "run_on_stop m1 (hooks p ''on_stop'') = (r, m2, tr)"
      by (metis prod.exhaust)
    obtain q n where m2: "m2 = m1\<lparr>hook_waiting_queues := q, next_future := n\<rparr>"
      using run_on_stop_shape[of m1 "hooks p ''on_stop''"] ro by auto
    show ?thesis
    proof (cases r)
      case (Returned b)
      have "fst (snd (unload_plugin m path)) =
         m1\<lparr>hook_waiting_queues := q, next_future := n,
            the_bot := unregister_tables p (the_bot m1),
            plugins := (plugins m1)(file_path p := None)\<rparr>"
        using loaded u None ro Returned ok m2
        by (simp add: unload_plugin_def Let_def split: option.splits)
      then show ?thesis using u None by blast
    next
      case (Parked f)
      then show ?thesis using loaded u None ro ok by (simp add: unload_plugin_def)
    next
      case (Raised ex)
      then show ?thesis using loaded u None ro ok by (simp add: unload_plugin_def)
    qed
  qed
qed

lemma load_plugin_loaded_iff:
  "(fst (load_plugin m req) = Loaded) =
     (check_plugin_loading (the_bot m) (req_title req) = None
      \<and> (\<exists>code. req_import req = Inr code
           \<and> fst (run_on_start
                 (m\<lparr>the_bot := fst (create_tables
                      (Plugin (req_file_path req) (req_file_name req) (req_title req) code) (the_bot m))\<rparr>)
                 (hooks (Plugin (req_file_path req) (req_file_name req) (req_title req) code) ''on_start''))
               = Returned True))"
proof (cases "check_plugin_loading (the_bot m) (req_title req)")
  case (Some st)
  have "st = NotWhitelisted \<or> st = Blacklisted"
    using Some by (auto simp: check_plugin_loading_def split: option.splits if_splits)
  then show ?thesis using Some by (auto simp: load_plugin_def)
next
  case None
  show ?thesis
  proof (cases "req_import req")
    case (Inl e)
    then show ?thesis using None by (simp add: load_plugin_def path_in_plugins_def)
  next
    case (Inr code)
    define p where "p = Plugin (req_file_path req) (req_file_name req) (req_title req) code"
    obtain b tr1 where ct: "create_tables p (the_bot m) = (b, tr1)" by (metis prod.exhaust)
    obtain r m1 tr2 where ro: "run_on_start (m\<lparr>the_bot := b\<rparr>) (hooks p ''on_start'') = (r, m1, tr2)"
      by (metis prod.exhaust)
    obtain m2 tr3 where rh: "register_hooks p m1 = (m2, tr3)" by (metis prod.exhaust)
    have lp: "load_plugin m req =
       (case r of
          Returned False \<Rightarrow> (OnStartFailed, m1\<lparr>the_bot := unregister_tables p (the_bot m1)\<rparr>,
                              tr1 @ tr2 @ [LogOnStartErrored (title p)])
        | Parked f \<Rightarrow> (LoadParked f, m1, tr1 @ tr2)
        | Raised e \<Rightarrow> (LoadRaised e, m1, tr1 @ tr2)
        | Returned True \<Rightarrow> (Loaded, sort_indexes m2, tr1 @ tr2 @ tr3))"
      using None Inr ct ro rh p_def[symmetric]
      by (simp add: load_plugin_def path_in_plugins_def Let_def split: launch_result.splits bool.splits)
    have "(fst (load_plugin m req) = Loaded) = (r = Returned True)"
      unfolding lp by (simp split: launch_result.splits bool.splits)
    then show ?thesis using None Inr ct ro p_def[symmetric] by simp
  qed
qed

lemma load_plugin_loaded_full:
  assumes "fst (load_plugin m req) = Loaded"
  shows "\<exists>code b q n tr. req_import req = Inr code
    \<and> b = fst (create_tables
          (Plugin (req_file_path req) (req_file_name req) (req_title req) code) (the_bot m))
    \<and> snd (load_plugin m req) =
        (sort_indexes (fst (register_hooks
           (Plugin (req_file_path req) (req_file_name req) (req_title req) code)
           (m\<lparr>the_bot := b, hook_waiting_queues := q, next_future := n\<rparr>))),
         tr @ snd (register_hooks
           (Plugin (req_file_path req) (req_file_name req) (req_title req) code)
           (m\<lparr>the_bot := b, hook_waiting_queues := q, next_future := n\<rparr>)))"
proof (cases "check_plugin_loading (the_bot m) (req_title req)")
  case (Some st)
  have "st = NotWhitelisted \<or> st = Blacklisted"
    using Some by (auto simp: check_plugin_loading_def split: option.splits if_splits)
  then show ?thesis using Some assms by (auto simp: load_plugin_def)
next
  case None
  show ?thesis
  proof (cases "req_import req")
    case (Inl e)
    then show ?thesis using None assms by (simp add: load_plugin_def path_in_plugins_def)
  next
    case (Inr code)
    define p where "p = Plugin (req_file_path req) (req_file_name req) (req_title req) code"
    obtain b tr1 where ct: "create_tables p (the_bot m) = (b, tr1)" by (metis prod.exhaust)
    obtain r m1 tr2 where ro: "run_on_start (m\<lparr>the_bot := b\<rparr>) (hooks p ''on_start'') = (r, m1, tr2)"
      by (metis prod.exhaust)
    obtain q n where m1: "m1 = m\<lparr>the_bot := b, hook_waiting_queues := q, next_future := n\<rparr>"
      using run_on_start_shape[of "m\<lparr>the_bot := b\<rparr>" "hooks p ''on_start''"] ro by auto
    obtain m2 tr3 where rh: "register_hooks p m1 = (m2, tr3)" by (metis prod.exhaust)
    have lp: "load_plugin m req =
       (case r of
          Returned False \<Rightarrow> (OnStartFailed, m1\<lparr>the_bot := unregister_tables p (the_bot m1)\<rparr>,
                              tr1 @ tr2 @ [LogOnStartErrored (title p)])
        | Parked f \<Rightarrow> (LoadParked f, m1, tr1 @ tr2)
        | Raised e \<Rightarrow> (LoadRaised e, m1, tr1 @ tr2)
        | Returned True \<Rightarrow> (Loaded, sort_indexes m2, tr1 @ tr2 @ tr3))"
      using None Inr ct ro rh p_def[symmetric]
      by (simp add: load_plugin_def path_in_plugins_def Let_def split: launch_result.splits bool.splits)
    have r: "r = Returned True"
      using assms unfolding lp by (simp split: launch_result.splits bool.splits)
    have "snd (load_plugin m req) =
        (sort_indexes (fst (register_hooks p m1)), (tr1 @ tr2) @ snd (register_hooks p m1))"
      using lp r rh by simp
    moreover have "b = fst (create_tables p (the_bot m))" using ct by simp
    ultimately show ?thesis using Inr m1 p_def by blast
  qed
qed

lemma register_hooks_trace:
  "snd (register_hooks p m) =
     map (\<lambda>h. StartPeriodic (hook_id h)) (hooks p ''periodic'')
     @ snd (register_commands (title p) (hooks p ''command'') (commands m))"
  by (simp add: register_hooks_def split: prod.splits)

lemma register_hooks_plugins:
  "plugins (fst (register_hooks p m)) = (plugins m)(file_path p \<mapsto> loaded_plugin p)"
  by (simp add: register_hooks_def split: prod.splits)

lemma sort_indexes_plugins:
  "plugins (sort_indexes m) = plugins m" "the_bot (sort_indexes m) = the_bot m"
  by (simp_all add: sort_indexes_def Let_def)

lemma register_hooks_bot: "the_bot (fst (register_hooks p m)) = the_bot m"
  by (simp add: register_hooks_def split: prod.splits)

lemma load_plugin_without_on_start:
  assumes policy: "check_plugin_loading (the_bot m) (req_title req) = None"
    and imp: "req_import req = Inr code"
    and none: "module_hooks code ''on_start'' = []"
  shows "fst (load_plugin m req) = Loaded"
    and "fst (snd (load_plugin m req)) =
       sort_indexes (fst (register_hooks
         (Plugin (req_file_path req) (req_file_name req) (req_title req) code)
         (m\<lparr>the_bot := fst (create_tables
              (Plugin (req_file_path req) (req_file_name req) (req_title req) code) (the_bot m))\<rparr>)))"
proof -
  define p where "p = Plugin (req_file_path req) (req_file_name req) (req_title req) code"
  define m0 where "m0 = m\<lparr>the_bot := fst (create_tables p (the_bot m))\<rparr>"
  have h: "hooks p ''on_start'' = []" using none by (simp add: p_def Plugin_def find_hooks_def)
  have ros: "fst (run_on_start m0 (hooks p ''on_start'')) = Returned True"
    and same: "fst (snd (run_on_start m0 (hooks p ''on_start''))) = m0"
    using h by simp_all
  show "fst (load_plugin m req) = Loaded"
    by (rule load_plugin_loaded(1)[OF policy imp p_def m0_def ros same])
  show "fst (snd (load_plugin m req)) =
       sort_indexes (fst (register_hooks
         (Plugin (req_file_path req) (req_file_name req) (req_title req) code)
         (m\<lparr>the_bot := fst (create_tables
              (Plugin (req_file_path req) (req_file_name req) (req_title req) code) (the_bot m))\<rparr>)))"
    using load_plugin_loaded(2)[OF policy imp p_def m0_def ros same] by (simp add: p_def m0_def)
qed

lemma load_plugin_without_on_start_policy:
  assumes policy: "check_plugin_loading (the_bot m) (req_title req) = None"
    and imp: "req_import req = Inr code"
    and none: "module_hooks code ''on_start'' = []"
  shows "config_plugin_loading (the_bot (fst (snd (load_plugin m req)))) = config_plugin_loading (the_bot m)"
    and "str_casefold (the_bot (fst (snd (load_plugin m req)))) = str_casefold (the_bot m)"
    and "plugins (fst (snd (load_plugin m req))) =
       (plugins m)(req_file_path req \<mapsto>
          loaded_plugin (Plugin (req_file_path req) (req_file_name req) (req_title req) code))"
  using create_tables_frame[of "Plugin (req_file_path req) (req_file_name req) (req_title req) code" "the_bot m"]
    create_tables_casefold[of "Plugin (req_file_path req) (req_file_name req) (req_title req) code" "the_bot m"]
  by (simp_all add: load_plugin_without_on_start(2)[OF assms] sort_indexes_plugins register_hooks_bot
      register_hooks_plugins Plugin_def)

lemma unload_plugin_without_on_stop:
  assumes loaded: "plugins m path = Some p"
    and path: "file_path p = path"
    and none: "hooks p ''on_stop'' = []"
    and unreg: "unregister_hooks p m = (m1, None)"
    and still: "plugins m1 path \<noteq> None"
  shows "fst (unload_plugin m path) = Unloaded"
  using assms by (auto simp: unload_plugin_def Let_def)


section \<open>Command aliases\<close>

lemma unregister_commands_frame:
  "commands (fst (unregister_cap_available h m)) = commands m"
  "commands (fst (unregister_cap_ack h m)) = commands m"
  "commands (fst (unregister_raw h m)) = commands m"
  "commands (fst (unregister_event h m)) = commands m"
  "commands (fst (unregister_regex h m)) = commands m"
  "commands (fst (unregister_sieve h m)) = commands m"
  "commands (fst (unregister_connect h m)) = commands m"
  "commands (fst (unregister_out h m)) = commands m"
  "commands (fst (unregister_post h m)) = commands m"
  "commands (fst (unregister_perm h m)) = commands m"
  by (simp_all add: unregister_cap_available_def unregister_cap_ack_def unregister_raw_def
      unregister_event_def unregister_regex_def unregister_sieve_def unregister_connect_def
      unregister_out_def unregister_post_def unregister_perm_def
      split: prod.splits option.splits)

lemma register_aliases_keeps:
  "cmds a = Some owner \<Longrightarrow> fst (register_aliases ttl h as cmds) a = Some owner"
proof (induction as arbitrary: cmds)
  case Nil
  then show ?case by simp
next
  case (Cons x as)
  show ?case
  proof (cases "cmds x")
    case None
    then have k: "(cmds(x \<mapsto> h)) a = Some owner" using Cons.prems by auto
    have "fst (register_aliases ttl h as (cmds(x \<mapsto> h))) a = Some owner"
      by (rule Cons.IH) (rule k)
    then show ?thesis using None by simp
  next
    case (Some o2)
    have "fst (register_aliases ttl h as cmds) a = Some owner"
      by (rule Cons.IH) (rule Cons.prems)
    then show ?thesis using Some
      by (cases "register_aliases ttl h as cmds") simp
  qed
qed

lemma register_commands_keeps:
  "cmds a = Some owner \<Longrightarrow> fst (register_commands ttl hs cmds) a = Some owner"
proof (induction hs arbitrary: cmds)
  case Nil
  then show ?case by simp
next
  case (Cons h hs)
  obtain c tr where r: "register_aliases ttl h (aliases h) cmds = (c, tr)" by (metis prod.exhaust)
  have "fst (register_aliases ttl h (aliases h) cmds) a = Some owner"
    by (rule register_aliases_keeps) (rule Cons.prems)
  then have "c a = Some owner" using r by simp
  then have "fst (register_commands ttl hs c) a = Some owner" by (rule Cons.IH)
  then show ?case using r by (cases "register_commands ttl hs c") simp
qed

lemma register_aliases_logs:
  "cmds a = Some owner \<Longrightarrow> a \<in> set as \<Longrightarrow>
     LogAliasConflict ttl a (plugin_title owner) \<in> set (snd (register_aliases ttl h as cmds))"
proof (induction as arbitrary: cmds)
  case Nil
  then show ?case by simp
next
  case (Cons x as)
  show ?case
  proof (cases "cmds x")
    case None
    then have xa: "x \<noteq> a" using Cons.prems by auto
    then have k: "(cmds(x \<mapsto> h)) a = Some owner" "a \<in> set as" using Cons.prems by auto
    have "LogAliasConflict ttl a (plugin_title owner)
        \<in> set (snd (register_aliases ttl h as (cmds(x \<mapsto> h))))"
      by (rule Cons.IH) (rule k)+
    then show ?thesis using None by simp
  next
    case (Some o2)
    show ?thesis
    proof (cases "x = a")
      case True
      then show ?thesis using Some Cons.prems
        by (cases "register_aliases ttl h as cmds") simp
    next
      case False
      then have k: "a \<in> set as" using Cons.prems by simp
      have "LogAliasConflict ttl a (plugin_title owner)
          \<in> set (snd (register_aliases ttl h as cmds))"
        by (rule Cons.IH) (rule Cons.prems(1), rule k)
      then show ?thesis using Some
        by (cases "register_aliases ttl h as cmds") simp
    qed
  qed
qed

lemma register_hooks_commands:
  "commands (fst (register_hooks p m)) = fst (register_commands (title p) (hooks p ''command'') (commands m))"
  by (simp add: register_hooks_def split: prod.splits)

lemma sort_indexes_commands: "commands (sort_indexes m) = commands m"
  by (simp add: sort_indexes_def Let_def)

lemma load_plugin_keeps_commands:
  assumes "commands m a = Some owner"
  shows "commands (fst (snd (load_plugin m req))) a = Some owner"
proof -
  obtain b q n where
    "(fst (load_plugin m req) \<noteq> Loaded
        \<and> fst (snd (load_plugin m req)) = m\<lparr>the_bot := b, hook_waiting_queues := q, next_future := n\<rparr>)
   \<or> (fst (load_plugin m req) = Loaded
        \<and> (\<exists>code. req_import req = Inr code
             \<and> fst (snd (load_plugin m req)) =
                 sort_indexes (fst (register_hooks
                   (Plugin (req_file_path req) (req_file_name req) (req_title req) code)
                   (m\<lparr>the_bot := b, hook_waiting_queues := q, next_future := n\<rparr>)))))"
    using load_plugin_shape[of m req] by blast
  then show ?thesis
  proof
    assume "fst (load_plugin m req) \<noteq> Loaded
        \<and> fst (snd (load_plugin m req)) = m\<lparr>the_bot := b, hook_waiting_queues := q, next_future := n\<rparr>"
    then show ?thesis using assms by simp
  next
    assume "fst (load_plugin m req) = Loaded
        \<and> (\<exists>code. req_import req = Inr code
             \<and> fst (snd (load_plugin m req)) =
                 sort_indexes (fst (register_hooks
                   (Plugin (req_file_path req) (req_file_name req) (req_title req) code)
                   (m\<lparr>the_bot := b, hook_waiting_queues := q, next_future := n\<rparr>))))"
    then obtain code where
      "fst (snd (load_plugin m req)) =
                 sort_indexes (fst (register_hooks
                   (Plugin (req_file_path req) (req_file_name req) (req_title req) code)
                   (m\<lparr>the_bot := b, hook_waiting_queues := q, next_future := n\<rparr>)))" by blast
    then show ?thesis
      using assms by (simp add: sort_indexes_commands register_hooks_commands register_commands_keeps)
  qed
qed

lemma unregister_aliases_keeps:
  "cmds a = Some owner \<Longrightarrow> hook_id h \<noteq> hook_id owner \<Longrightarrow>
     foldl (unregister_alias h) cmds as a = Some owner"
proof (induction as arbitrary: cmds)
  case Nil
  then show ?case by simp
next
  case (Cons x as)
  have k: "unregister_alias h cmds x a = Some owner"
    using Cons.prems by (auto simp: unregister_alias_def same_hook_def split: option.splits)
  have "foldl (unregister_alias h) (unregister_alias h cmds x) as a = Some owner"
    by (rule Cons.IH) (rule k, rule Cons.prems(2))
  then show ?case by simp
qed

lemma unload_plugin_keeps_foreign_command:
  assumes own: "commands m a = Some owner"
    and loaded: "plugins m path = Some p"
    and foreign: "\<forall>h\<in>set (hooks p ''command''). hook_id h \<noteq> hook_id owner"
  shows "commands (fst (snd (unload_plugin m path))) a = Some owner"
proof (rule unload_plugin_preserves[where P = "\<lambda>s. commands s a = Some owner", OF loaded _ _ own])
  fix s :: plugin_manager
  assume s: "commands s a = Some owner"
  show "commands (fst (unregister_hooks p s)) a = Some owner"
  proof (rule unregister_hooks_preserves[where P = "\<lambda>s. commands s a = Some owner"])
    fix h and s' :: plugin_manager
    assume "h \<in> set (hooks p ''command'')" and "commands s' a = Some owner"
    then show "commands (fst (unregister_command h s')) a = Some owner"
      using foreign by (simp add: unregister_command_def unregister_aliases_keeps)
  qed (simp_all add: unregister_commands_frame s)
next
  fix s :: plugin_manager and b q n pl
  assume "commands s a = Some owner"
  then show "commands (s\<lparr>the_bot := b\<rparr>) a = Some owner
        \<and> commands (s\<lparr>hook_waiting_queues := q, next_future := n\<rparr>) a = Some owner
        \<and> commands (s\<lparr>plugins := pl\<rparr>) a = Some owner" by simp
qed

lemma register_aliases_new:
  "cmds a = None \<Longrightarrow> a \<in> set as \<Longrightarrow> fst (register_aliases ttl h as cmds) a = Some h"
proof (induction as arbitrary: cmds)
  case Nil
  then show ?case by simp
next
  case (Cons x as)
  show ?case
  proof (cases "x = a")
    case True
    have k: "(cmds(a \<mapsto> h)) a = Some h" by simp
    have "fst (register_aliases ttl h as (cmds(a \<mapsto> h))) a = Some h"
      by (rule register_aliases_keeps) (rule k)
    then show ?thesis using True Cons.prems(1) by simp
  next
    case False
    then have ain: "a \<in> set as" using Cons.prems by simp
    show ?thesis
    proof (cases "cmds x")
      case None
      have k: "(cmds(x \<mapsto> h)) a = None" using False Cons.prems(1) by simp
      have "fst (register_aliases ttl h as (cmds(x \<mapsto> h))) a = Some h"
        by (rule Cons.IH) (rule k, rule ain)
      then show ?thesis using None by simp
    next
      case (Some o2)
      have "fst (register_aliases ttl h as cmds) a = Some h"
        by (rule Cons.IH) (rule Cons.prems(1), rule ain)
      then show ?thesis using Some by (cases "register_aliases ttl h as cmds") simp
    qed
  qed
qed

lemma register_aliases_other:
  "cmds a = None \<Longrightarrow> a \<notin> set as \<Longrightarrow> fst (register_aliases ttl h as cmds) a = None"
proof (induction as arbitrary: cmds)
  case Nil
  then show ?case by simp
next
  case (Cons x as)
  have xa: "x \<noteq> a" and ain: "a \<notin> set as" using Cons.prems by auto
  show ?case
  proof (cases "cmds x")
    case None
    have k: "(cmds(x \<mapsto> h)) a = None" using xa Cons.prems(1) by simp
    have "fst (register_aliases ttl h as (cmds(x \<mapsto> h))) a = None"
      by (rule Cons.IH) (rule k, rule ain)
    then show ?thesis using None by simp
  next
    case (Some o2)
    have "fst (register_aliases ttl h as cmds) a = None"
      by (rule Cons.IH) (rule Cons.prems(1), rule ain)
    then show ?thesis using Some by (cases "register_aliases ttl h as cmds") simp
  qed
qed

lemma register_commands_exact:
  "fst (register_commands ttl hs cmds) a =
     (case cmds a of
        Some owner \<Rightarrow> Some owner
      | None \<Rightarrow> find (\<lambda>h. a \<in> set (aliases h)) hs)"
proof (induction hs arbitrary: cmds)
  case Nil
  show ?case by (simp split: option.splits)
next
  case (Cons h hs)
  obtain c tr where r: "register_aliases ttl h (aliases h) cmds = (c, tr)" by (metis prod.exhaust)
  have step: "fst (register_commands ttl (h # hs) cmds) a = fst (register_commands ttl hs c) a"
    using r by (cases "register_commands ttl hs c") simp
  show ?case
  proof (cases "cmds a")
    case (Some owner)
    have "c a = Some owner"
      using register_aliases_keeps[where cmds=cmds and a=a and owner=owner and ttl=ttl and h=h and as="aliases h"] Some r
      by simp
    then show ?thesis using step Some Cons.IH[of c] by simp
  next
    case None
    show ?thesis
    proof (cases "a \<in> set (aliases h)")
      case True
      have "c a = Some h"
        using register_aliases_new[where cmds=cmds and a=a and as="aliases h" and ttl=ttl and h=h] None True r
        by simp
      then show ?thesis using step None True Cons.IH[of c] by simp
    next
      case False
      have "c a = None"
        using register_aliases_other[where cmds=cmds and a=a and as="aliases h" and ttl=ttl and h=h] None False r
        by simp
      then show ?thesis using step None False Cons.IH[of c] by simp
    qed
  qed
qed

lemma register_commands_logs:
  "cmds a = Some owner \<Longrightarrow> h \<in> set hs \<Longrightarrow> a \<in> set (aliases h) \<Longrightarrow>
     LogAliasConflict ttl a (plugin_title owner) \<in> set (snd (register_commands ttl hs cmds))"
proof (induction hs arbitrary: cmds)
  case Nil
  then show ?case by simp
next
  case (Cons g hs)
  obtain c tr where r: "register_aliases ttl g (aliases g) cmds = (c, tr)" by (metis prod.exhaust)
  have tr: "snd (register_commands ttl (g # hs) cmds) = tr @ snd (register_commands ttl hs c)"
    using r by (cases "register_commands ttl hs c") simp
  show ?case
  proof (cases "h = g")
    case True
    have "LogAliasConflict ttl a (plugin_title owner) \<in> set (snd (register_aliases ttl g (aliases g) cmds))"
      using register_aliases_logs[where cmds=cmds and a=a and owner=owner and as="aliases g" and ttl=ttl and h=g]
        Cons.prems(1,3) True by simp
    then show ?thesis using tr r by simp
  next
    case False
    then have hin: "h \<in> set hs" using Cons.prems(2) by simp
    have ca: "c a = Some owner"
      using register_aliases_keeps[where cmds=cmds and a=a and owner=owner and ttl=ttl and h=g and as="aliases g"]
        Cons.prems(1) r by simp
    have "LogAliasConflict ttl a (plugin_title owner) \<in> set (snd (register_commands ttl hs c))"
      by (rule Cons.IH) (rule ca, rule hin, rule Cons.prems(3))
    then show ?thesis using tr by simp
  qed
qed

lemma load_plugin_commands:
  assumes "fst (load_plugin m req) = Loaded"
  shows "\<exists>code. req_import req = Inr code
    \<and> commands (fst (snd (load_plugin m req))) a =
        (case commands m a of
           Some owner \<Rightarrow> Some owner
         | None \<Rightarrow> find (\<lambda>h. a \<in> set (aliases h))
             (hooks (Plugin (req_file_path req) (req_file_name req) (req_title req) code) ''command''))
    \<and> (\<forall>owner h. commands m a = Some owner
          \<and> h \<in> set (hooks (Plugin (req_file_path req) (req_file_name req) (req_title req) code) ''command'')
          \<and> a \<in> set (aliases h)
        \<longrightarrow> LogAliasConflict (req_title req) a (plugin_title owner) \<in> set (snd (snd (load_plugin m req))))"
proof -
  obtain code b q n tr where c: "req_import req = Inr code"
    and e: "snd (load_plugin m req) =
        (sort_indexes (fst (register_hooks
           (Plugin (req_file_path req) (req_file_name req) (req_title req) code)
           (m\<lparr>the_bot := b, hook_waiting_queues := q, next_future := n\<rparr>))),
         tr @ snd (register_hooks
           (Plugin (req_file_path req) (req_file_name req) (req_title req) code)
           (m\<lparr>the_bot := b, hook_waiting_queues := q, next_future := n\<rparr>)))"
    using load_plugin_loaded_full[OF assms] by blast
  have ttl: "title (Plugin (req_file_path req) (req_file_name req) (req_title req) code) = req_title req"
    by (simp add: Plugin_def)
  have cm: "commands (fst (snd (load_plugin m req))) a =
        (case commands m a of
           Some owner \<Rightarrow> Some owner
         | None \<Rightarrow> find (\<lambda>h. a \<in> set (aliases h))
             (hooks (Plugin (req_file_path req) (req_file_name req) (req_title req) code) ''command''))"
    by (simp add: e sort_indexes_commands register_hooks_commands register_commands_exact)
  have lg: "\<forall>owner h. commands m a = Some owner
          \<and> h \<in> set (hooks (Plugin (req_file_path req) (req_file_name req) (req_title req) code) ''command'')
          \<and> a \<in> set (aliases h)
        \<longrightarrow> LogAliasConflict (req_title req) a (plugin_title owner) \<in> set (snd (snd (load_plugin m req)))"
    using register_commands_logs[of "commands m" a _ _
        "hooks (Plugin (req_file_path req) (req_file_name req) (req_title req) code) ''command''"
        "req_title req"]
    by (auto simp: e register_hooks_trace ttl)
  show ?thesis using c cm lg by blast
qed

lemma for_loop_unregister_command:
  "for_loop unregister_command hs m =
     (m\<lparr>commands := foldl (\<lambda>c h. foldl (unregister_alias h) c (aliases h)) (commands m) hs\<rparr>, None)"
  by (induction hs arbitrary: m) (simp_all add: unregister_command_def)

lemma unregister_aliases_exact:
  "foldl (unregister_alias h) cmds as a =
     (case cmds a of
        None \<Rightarrow> None
      | Some owner \<Rightarrow> if a \<in> set as \<and> hook_id owner = hook_id h then None else Some owner)"
proof (induction as arbitrary: cmds)
  case Nil
  show ?case by (simp split: option.splits)
next
  case (Cons x as)
  have "unregister_alias h cmds x a =
      (case cmds a of
         None \<Rightarrow> None
       | Some owner \<Rightarrow> if x = a \<and> hook_id owner = hook_id h then None else Some owner)"
    by (auto simp: unregister_alias_def same_hook_def split: option.splits)
  then show ?case using Cons.IH[of "unregister_alias h cmds x"]
    by (auto split: option.splits if_splits)
qed

lemma unregister_commands_exact:
  "foldl (\<lambda>c h. foldl (unregister_alias h) c (aliases h)) cmds hs a =
     (case cmds a of
        None \<Rightarrow> None
      | Some owner \<Rightarrow>
          if \<exists>h\<in>set hs. a \<in> set (aliases h) \<and> hook_id owner = hook_id h then None else Some owner)"
proof (induction hs arbitrary: cmds)
  case Nil
  show ?case by (simp split: option.splits)
next
  case (Cons h hs)
  show ?case
    using Cons.IH[of "foldl (unregister_alias h) cmds (aliases h)"]
      unregister_aliases_exact[of h cmds "aliases h" a]
    by (auto split: option.splits if_splits)
qed

lemma for_loop_keeps_commands:
  assumes "\<And>x s. commands (fst (body x s)) = commands s"
  shows "commands (fst (for_loop body xs s)) = commands s"
  by (rule for_loop_preserves[where P = "\<lambda>s'. commands s' = commands s"]) (simp_all add: assms)

lemma unload_plugin_commands:
  assumes loaded: "plugins m path = Some p"
    and ok: "fst (unload_plugin m path) = Unloaded"
  shows "commands (fst (snd (unload_plugin m path))) a =
     (case commands m a of
        None \<Rightarrow> None
      | Some owner \<Rightarrow>
          if \<exists>h\<in>set (hooks p ''command''). a \<in> set (aliases h) \<and> hook_id owner = hook_id h
          then None else Some owner)"
proof -
  obtain m1 q n where u: "unregister_hooks p m = (m1, None)"
    and e: "fst (snd (unload_plugin m path)) =
         m1\<lparr>hook_waiting_queues := q, next_future := n,
            the_bot := unregister_tables p (the_bot m1),
            plugins := (plugins m1)(file_path p := None)\<rparr>"
    using unload_plugin_unloaded[OF loaded ok] by blast
  obtain s1 s2 s3 s4 s5 s6 s7 s8 s9 s10 where
      l1: "for_loop unregister_cap_available (hooks p ''on_cap_available'') m = (s1, None)"
    and l2: "for_loop unregister_cap_ack (hooks p ''on_cap_ack'') s1 = (s2, None)"
    and l3: "for_loop unregister_command (hooks p ''command'') s2 = (s3, None)"
    and l4: "for_loop unregister_raw (hooks p ''irc_raw'') s3 = (s4, None)"
    and l5: "for_loop unregister_event (hooks p ''event'') s4 = (s5, None)"
    and l6: "for_loop unregister_regex (hooks p ''regex'') s5 = (s6, None)"
    and l7: "for_loop unregister_sieve (hooks p ''sieve'') s6 = (s7, None)"
    and l8: "for_loop unregister_connect (hooks p ''on_connect'') s7 = (s8, None)"
    and l9: "for_loop unregister_out (hooks p ''irc_out'') s8 = (s9, None)"
    and l10: "for_loop unregister_post (hooks p ''post_hook'') s9 = (s10, None)"
    and l11: "for_loop unregister_perm (hooks p ''perm_check'') s10 = (m1, None)"
    using unregister_hooks_success[OF u] by blast
  have c1: "commands s1 = commands m"
    using for_loop_keeps_commands[of unregister_cap_available "hooks p ''on_cap_available''" m] l1
    by (simp add: unregister_commands_frame)
  have c2: "commands s2 = commands s1"
    using for_loop_keeps_commands[of unregister_cap_ack "hooks p ''on_cap_ack''" s1] l2
    by (simp add: unregister_commands_frame)
  have c3: "commands s3 = foldl (\<lambda>c h. foldl (unregister_alias h) c (aliases h)) (commands s2) (hooks p ''command'')"
    using l3 by (auto simp: for_loop_unregister_command)
  have c4: "commands s4 = commands s3"
    using for_loop_keeps_commands[of unregister_raw "hooks p ''irc_raw''" s3] l4
    by (simp add: unregister_commands_frame)
  have c5: "commands s5 = commands s4"
    using for_loop_keeps_commands[of unregister_event "hooks p ''event''" s4] l5
    by (simp add: unregister_commands_frame)
  have c6: "commands s6 = commands s5"
    using for_loop_keeps_commands[of unregister_regex "hooks p ''regex''" s5] l6
    by (simp add: unregister_commands_frame)
  have c7: "commands s7 = commands s6"
    using for_loop_keeps_commands[of unregister_sieve "hooks p ''sieve''" s6] l7
    by (simp add: unregister_commands_frame)
  have c8: "commands s8 = commands s7"
    using for_loop_keeps_commands[of unregister_connect "hooks p ''on_connect''" s7] l8
    by (simp add: unregister_commands_frame)
  have c9: "commands s9 = commands s8"
    using for_loop_keeps_commands[of unregister_out "hooks p ''irc_out''" s8] l9
    by (simp add: unregister_commands_frame)
  have c10: "commands s10 = commands s9"
    using for_loop_keeps_commands[of unregister_post "hooks p ''post_hook''" s9] l10
    by (simp add: unregister_commands_frame)
  have c11: "commands m1 = commands s10"
    using for_loop_keeps_commands[of unregister_perm "hooks p ''perm_check''" s10] l11
    by (simp add: unregister_commands_frame)
  have "commands (fst (snd (unload_plugin m path))) =
      foldl (\<lambda>c h. foldl (unregister_alias h) c (aliases h)) (commands m) (hooks p ''command'')"
    by (simp add: e c11 c10 c9 c8 c7 c6 c5 c4 c3 c2 c1)
  then show ?thesis by (simp add: unregister_commands_exact)
qed

text \<open>
  Claim C5: the \<^verbatim>\<open>commands\<close> dictionary maps an alias to one hook. An entry that is
  there survives every load, whatever the load registers and however it ends. Whether a
  load completes is decided before the registration: by the policy, the import and the
  \<^verbatim>\<open>on_start\<close> hooks. After a load that completes, an alias that had an owner has
  kept it, and every command hook of the loaded plugin that names this alias has logged
  the conflict; an alias that was free belongs to the first command hook of the plugin
  that names it, and is free still when none does. Unloading a plugin keeps every entry
  whose owner is not one of that plugin's own command hooks, however the unload ends;
  after an unload that completes, the entries that are gone are those whose owner is a
  command hook of the plugin that names the alias, and no other entry has changed.
\<close>

theorem first_registrant_keeps_alias:
  "(commands m a = Some owner \<longrightarrow> commands (fst (snd (load_plugin m req))) a = Some owner)
   \<and> ((fst (load_plugin m req) = Loaded) =
        (check_plugin_loading (the_bot m) (req_title req) = None
         \<and> (\<exists>code. req_import req = Inr code
              \<and> fst (run_on_start
                    (m\<lparr>the_bot := fst (create_tables
                         (Plugin (req_file_path req) (req_file_name req) (req_title req) code) (the_bot m))\<rparr>)
                    (hooks (Plugin (req_file_path req) (req_file_name req) (req_title req) code) ''on_start''))
                  = Returned True)))
   \<and> (fst (load_plugin m req) = Loaded \<longrightarrow>
        (\<exists>code. req_import req = Inr code
          \<and> commands (fst (snd (load_plugin m req))) a =
              (case commands m a of
                 Some owner \<Rightarrow> Some owner
               | None \<Rightarrow> find (\<lambda>h. a \<in> set (aliases h))
                   (hooks (Plugin (req_file_path req) (req_file_name req) (req_title req) code) ''command''))
          \<and> (\<forall>owner h. commands m a = Some owner
                \<and> h \<in> set (hooks (Plugin (req_file_path req) (req_file_name req) (req_title req) code) ''command'')
                \<and> a \<in> set (aliases h)
              \<longrightarrow> LogAliasConflict (req_title req) a (plugin_title owner)
                    \<in> set (snd (snd (load_plugin m req))))))
   \<and> (cmds a = Some owner \<and> a \<in> set (aliases h) \<longrightarrow>
        fst (register_aliases ttl h (aliases h) cmds) a = Some owner
        \<and> LogAliasConflict ttl a (plugin_title owner) \<in> set (snd (register_aliases ttl h (aliases h) cmds)))
   \<and> (cmds a = None \<and> a \<in> set (aliases h) \<longrightarrow>
        fst (register_aliases ttl h (aliases h) cmds) a = Some h)
   \<and> (commands m a = Some owner \<and> plugins m path = Some p
        \<and> (\<forall>g\<in>set (hooks p ''command''). hook_id g \<noteq> hook_id owner) \<longrightarrow>
        commands (fst (snd (unload_plugin m path))) a = Some owner)
   \<and> (plugins m path = Some p \<and> fst (unload_plugin m path) = Unloaded \<longrightarrow>
        commands (fst (snd (unload_plugin m path))) a =
          (case commands m a of
             None \<Rightarrow> None
           | Some owner \<Rightarrow>
               if \<exists>g\<in>set (hooks p ''command''). a \<in> set (aliases g) \<and> hook_id owner = hook_id g
               then None else Some owner))"
  using load_plugin_keeps_commands[of m a owner req]
    load_plugin_loaded_iff[of m req]
    load_plugin_commands[of m req a]
    register_aliases_keeps[of cmds a owner ttl h "aliases h"]
    register_aliases_logs[of cmds a owner "aliases h" ttl h]
    register_aliases_new[of cmds a "aliases h" ttl h]
    unload_plugin_keeps_foreign_command[of m a owner path p]
    unload_plugin_commands[of m path p a]
  by blast

theorem first_registrant_keeps_alias_witness:
  "(let first = \<lparr>req_file_path = ''/bot/plugins/first.py'', req_file_name = ''first.py'',
         req_title = ''first'',
         req_import = Inr \<lparr>module_hooks = (\<lambda>t. if t = ''command''
               then [(basic_hook 1 t ''first'' ''foo'')\<lparr>aliases := [''foo'']\<rparr>] else []),
             module_tables = []\<rparr>\<rparr>;
        second = \<lparr>req_file_path = ''/bot/plugins/second.py'', req_file_name = ''second.py'',
         req_title = ''second'',
         req_import = Inr \<lparr>module_hooks = (\<lambda>t. if t = ''command''
               then [(basic_hook 2 t ''second'' ''foo'')\<lparr>aliases := [''foo'', ''f'']\<rparr>] else []),
             module_tables = []\<rparr>\<rparr>;
        m1 = fst (snd (load_plugin (new_manager basic_bot) first));
        m2 = fst (snd (load_plugin m1 second));
        m3 = fst (snd (unload_plugin m2 ''/bot/plugins/second.py''))
    in fst (load_plugin m1 second) = Loaded
     \<and> map_option hook_id (commands m2 ''foo'') = Some 1
     \<and> map_option hook_id (commands m2 ''f'') = Some 2
     \<and> LogAliasConflict ''second'' ''foo'' ''first'' \<in> set (snd (snd (load_plugin m1 second)))
     \<and> fst (unload_plugin m2 ''/bot/plugins/second.py'') = Unloaded
     \<and> map_option hook_id (commands m3 ''foo'') = Some 1
     \<and> commands m3 ''f'' = None)"
proof -
  let ?c1 = "\<lparr>module_hooks = (\<lambda>t. if t = ''command''
               then [(basic_hook 1 t ''first'' ''foo'')\<lparr>aliases := [''foo'']\<rparr>] else []),
             module_tables = []\<rparr>"
  let ?c2 = "\<lparr>module_hooks = (\<lambda>t. if t = ''command''
               then [(basic_hook 2 t ''second'' ''foo'')\<lparr>aliases := [''foo'', ''f'']\<rparr>] else []),
             module_tables = []\<rparr>"
  let ?first = "\<lparr>req_file_path = ''/bot/plugins/first.py'', req_file_name = ''first.py'',
         req_title = ''first'', req_import = Inr ?c1\<rparr>"
  let ?second = "\<lparr>req_file_path = ''/bot/plugins/second.py'', req_file_name = ''second.py'',
         req_title = ''second'', req_import = Inr ?c2\<rparr>"
  let ?h1 = "(basic_hook 1 ''command'' ''first'' ''foo'')\<lparr>aliases := [''foo''],
       hook_type := ''command'', plugin_title := ''first''\<rparr>"
  let ?h2 = "(basic_hook 2 ''command'' ''second'' ''foo'')\<lparr>aliases := [''foo'', ''f''],
       hook_type := ''command'', plugin_title := ''second''\<rparr>"
  let ?p2 = "loaded_plugin (Plugin ''/bot/plugins/second.py'' ''second.py'' ''second'' ?c2)"
  define m0 where "m0 = new_manager basic_bot"
  define m1 where "m1 = fst (snd (load_plugin m0 ?first))"
  define m2 where "m2 = fst (snd (load_plugin m1 ?second))"
  define m3 where "m3 = fst (snd (unload_plugin m2 ''/bot/plugins/second.py''))"
  have pol0: "check_plugin_loading (the_bot m0) (req_title ?first) = None"
    by (simp add: m0_def check_plugin_loading_def new_manager_def basic_bot_def)
  have imp1: "req_import ?first = Inr ?c1" by simp
  have none1: "module_hooks ?c1 ''on_start'' = []" by simp
  have imp2: "req_import ?second = Inr ?c2" by simp
  have none2: "module_hooks ?c2 ''on_start'' = []" by simp
  have l1: "fst (load_plugin m0 ?first) = Loaded"
    by (rule load_plugin_without_on_start(1)[OF pol0 imp1 none1])
  have cfg1: "config_plugin_loading (the_bot m1) = None"
    using load_plugin_without_on_start_policy(1)[OF pol0 imp1 none1]
    by (simp add: m1_def m0_def new_manager_def basic_bot_def)
  have pol1: "check_plugin_loading (the_bot m1) (req_title ?second) = None"
    using cfg1 by (simp add: check_plugin_loading_def)
  have l2: "fst (load_plugin m1 ?second) = Loaded"
    by (rule load_plugin_without_on_start(1)[OF pol1 imp2 none2])
  have hooks1: "hooks (Plugin ''/bot/plugins/first.py'' ''first.py'' ''first'' ?c1) ''command'' = [?h1]"
    by (simp add: Plugin_def find_hooks_def)
  have hooks2: "hooks (Plugin ''/bot/plugins/second.py'' ''second.py'' ''second'' ?c2) ''command'' = [?h2]"
    by (simp add: Plugin_def find_hooks_def)
  have e0: "commands m0 ''foo'' = None" "commands m0 ''f'' = None"
    by (simp_all add: m0_def new_manager_def)
  have foo1: "commands m1 ''foo'' = Some ?h1"
    using first_registrant_keeps_alias[of m0 "''foo''" _ ?first] l1 e0 hooks1
    by (simp add: m1_def basic_hook_def)
  have f1: "commands m1 ''f'' = None"
    using first_registrant_keeps_alias[of m0 "''f''" _ ?first] l1 e0 hooks1
    by (simp add: m1_def basic_hook_def)
  have second: "commands m2 ''foo'' = Some ?h1
      \<and> LogAliasConflict ''second'' ''foo'' ''first'' \<in> set (snd (snd (load_plugin m1 ?second)))"
    using first_registrant_keeps_alias[of m1 "''foo''" _ ?second] l2 foo1 hooks2
    by (simp add: m2_def basic_hook_def)
  have f2: "commands m2 ''f'' = Some ?h2"
    using first_registrant_keeps_alias[of m1 "''f''" _ ?second] l2 f1 hooks2
    by (simp add: m2_def basic_hook_def)
  have pl2: "plugins m2 ''/bot/plugins/second.py'' = Some ?p2"
    using load_plugin_without_on_start_policy(3)[OF pol1 imp2 none2] by (simp add: m2_def)
  have hk: "hooks ?p2 = (\<lambda>t. if t = ''command'' then [?h2] else [])"
    by (rule ext) (simp add: loaded_plugin_def Plugin_def find_hooks_def)
  have un: "unregister_hooks ?p2 m2 =
      (m2\<lparr>commands := foldl (\<lambda>c h. foldl (unregister_alias h) c (aliases h)) (commands m2) [?h2]\<rparr>, None)"
    unfolding unregister_hooks_def hk
    by (simp add: seq_def unregister_command_def)
  have u: "fst (unload_plugin m2 ''/bot/plugins/second.py'') = Unloaded"
    by (rule unload_plugin_without_on_stop[OF pl2 _ _ un])
       (simp_all add: hk pl2, simp add: loaded_plugin_def Plugin_def)
  have own: "hooks ?p2 ''command'' = [?h2]" by (simp add: hk)
  have foo3: "commands m3 ''foo'' = Some ?h1"
    using first_registrant_keeps_alias[of m2 "''foo''" _ _ _ _ _ "''/bot/plugins/second.py''" ?p2]
      pl2 u second own
    by (simp add: m3_def basic_hook_def)
  have f3: "commands m3 ''f'' = None"
    using first_registrant_keeps_alias[of m2 "''f''" _ _ _ _ _ "''/bot/plugins/second.py''" ?p2]
      pl2 u f2 own
    by (simp add: m3_def basic_hook_def)
  show ?thesis
    unfolding Let_def m0_def[symmetric] m1_def[symmetric] m2_def[symmetric] m3_def[symmetric]
    using l2 second f2 u foo3 f3 by (simp add: basic_hook_def)
qed

section \<open>Raw hooks and the catch-all list\<close>

lemma register_raw_hooks_split:
  "foldl register_raw_hook (cat, raw) hs =
     (cat @ filter is_catch_all hs,
      foldl (\<lambda>r h. foldl (append_in_dict h) r (triggers h)) raw (filter (\<lambda>h. \<not> is_catch_all h) hs))"
  by (induction hs arbitrary: cat raw) (simp_all add: register_raw_hook_def)

lemma register_hooks_raw:
  "catch_all_triggers (fst (register_hooks p m)) =
     catch_all_triggers m @ filter is_catch_all (hooks p ''irc_raw'')"
  "raw_triggers (fst (register_hooks p m)) =
     foldl (\<lambda>r h. foldl (append_in_dict h) r (triggers h)) (raw_triggers m)
       (filter (\<lambda>h. \<not> is_catch_all h) (hooks p ''irc_raw''))"
  by (simp_all add: register_hooks_def register_raw_hooks_split split: prod.splits)

lemma sort_indexes_raw:
  "catch_all_triggers (sort_indexes m) = sort_hooks (catch_all_triggers m)"
  "raw_triggers (sort_indexes m) = map_option sort_hooks \<circ> raw_triggers m"
  by (simp_all add: sort_indexes_def Let_def)

lemma load_plugin_raw:
  assumes "fst (load_plugin m req) = Loaded"
  shows "\<exists>code. req_import req = Inr code
    \<and> catch_all_triggers (fst (snd (load_plugin m req))) =
        sort_hooks (catch_all_triggers m @ filter is_catch_all
          (hooks (Plugin (req_file_path req) (req_file_name req) (req_title req) code) ''irc_raw''))
    \<and> raw_triggers (fst (snd (load_plugin m req))) =
        map_option sort_hooks \<circ>
          foldl (\<lambda>r h. foldl (append_in_dict h) r (triggers h)) (raw_triggers m)
            (filter (\<lambda>h. \<not> is_catch_all h)
              (hooks (Plugin (req_file_path req) (req_file_name req) (req_title req) code) ''irc_raw''))"
proof -
  obtain b q n code where c: "req_import req = Inr code"
    and e: "fst (snd (load_plugin m req)) =
                 sort_indexes (fst (register_hooks
                   (Plugin (req_file_path req) (req_file_name req) (req_title req) code)
                   (m\<lparr>the_bot := b, hook_waiting_queues := q, next_future := n\<rparr>)))"
    using load_plugin_shape[of m req] assms by blast
  show ?thesis using c by (simp add: e sort_indexes_raw register_hooks_raw)
qed

lemma unregister_raw_frame:
  "raw_triggers (fst (unregister_cap_available h m)) = raw_triggers m"
  "raw_triggers (fst (unregister_cap_ack h m)) = raw_triggers m"
  "raw_triggers (fst (unregister_command h m)) = raw_triggers m"
  "raw_triggers (fst (unregister_event h m)) = raw_triggers m"
  "raw_triggers (fst (unregister_regex h m)) = raw_triggers m"
  "raw_triggers (fst (unregister_sieve h m)) = raw_triggers m"
  "raw_triggers (fst (unregister_connect h m)) = raw_triggers m"
  "raw_triggers (fst (unregister_out h m)) = raw_triggers m"
  "raw_triggers (fst (unregister_post h m)) = raw_triggers m"
  "raw_triggers (fst (unregister_perm h m)) = raw_triggers m"
  by (simp_all add: unregister_cap_available_def unregister_cap_ack_def unregister_command_def
      unregister_event_def unregister_regex_def unregister_sieve_def unregister_connect_def
      unregister_out_def unregister_post_def unregister_perm_def
      split: prod.splits option.splits)

lemma unregister_raw_catch_all:
  "is_catch_all h \<Longrightarrow> raw_triggers (fst (unregister_raw h m)) = raw_triggers m"
  "\<not> is_catch_all h \<Longrightarrow> catch_all_triggers (fst (unregister_raw h m)) = catch_all_triggers m"
  by (simp_all add: unregister_raw_def split: prod.splits option.splits)

lemma unload_plugin_catch_all_only:
  assumes loaded: "plugins m path = Some p"
    and all: "\<forall>h\<in>set (hooks p ''irc_raw''). is_catch_all h"
  shows "raw_triggers (fst (snd (unload_plugin m path))) = raw_triggers m"
proof (rule unload_plugin_preserves[where P = "\<lambda>s. raw_triggers s = raw_triggers m", OF loaded])
  fix s :: plugin_manager
  assume s: "raw_triggers s = raw_triggers m"
  show "raw_triggers (fst (unregister_hooks p s)) = raw_triggers m"
  proof (rule unregister_hooks_preserves[where P = "\<lambda>s. raw_triggers s = raw_triggers m"])
    fix h and s' :: plugin_manager
    assume "h \<in> set (hooks p ''irc_raw'')" and "raw_triggers s' = raw_triggers m"
    then show "raw_triggers (fst (unregister_raw h s')) = raw_triggers m"
      using all by (simp add: unregister_raw_catch_all)
  qed (simp_all add: unregister_raw_frame s)
next
  fix s :: plugin_manager and b q n pl
  assume "raw_triggers s = raw_triggers m"
  then show "raw_triggers (s\<lparr>the_bot := b\<rparr>) = raw_triggers m
        \<and> raw_triggers (s\<lparr>hook_waiting_queues := q, next_future := n\<rparr>) = raw_triggers m
        \<and> raw_triggers (s\<lparr>plugins := pl\<rparr>) = raw_triggers m" by simp
qed simp

lemma unregister_catch_all_frame:
  "catch_all_triggers (fst (unregister_cap_available h m)) = catch_all_triggers m"
  "catch_all_triggers (fst (unregister_cap_ack h m)) = catch_all_triggers m"
  "catch_all_triggers (fst (unregister_command h m)) = catch_all_triggers m"
  "catch_all_triggers (fst (unregister_event h m)) = catch_all_triggers m"
  "catch_all_triggers (fst (unregister_regex h m)) = catch_all_triggers m"
  "catch_all_triggers (fst (unregister_sieve h m)) = catch_all_triggers m"
  "catch_all_triggers (fst (unregister_connect h m)) = catch_all_triggers m"
  "catch_all_triggers (fst (unregister_out h m)) = catch_all_triggers m"
  "catch_all_triggers (fst (unregister_post h m)) = catch_all_triggers m"
  "catch_all_triggers (fst (unregister_perm h m)) = catch_all_triggers m"
  by (simp_all add: unregister_cap_available_def unregister_cap_ack_def unregister_command_def
      unregister_event_def unregister_regex_def unregister_sieve_def unregister_connect_def
      unregister_out_def unregister_post_def unregister_perm_def
      split: prod.splits option.splits)

lemma for_loop_keeps_raw:
  assumes "\<And>x s. catch_all_triggers (fst (body x s)) = catch_all_triggers s"
    and "\<And>x s. raw_triggers (fst (body x s)) = raw_triggers s"
  shows "catch_all_triggers (fst (for_loop body xs s)) = catch_all_triggers s
       \<and> raw_triggers (fst (for_loop body xs s)) = raw_triggers s"
  by (rule for_loop_preserves[where P = "\<lambda>s'. catch_all_triggers s' = catch_all_triggers s
        \<and> raw_triggers s' = raw_triggers s"]) (simp_all add: assms)

lemma list_remove_exact:
  "list_remove P xs =
     (if \<exists>x\<in>set xs. P x
      then Some (takeWhile (\<lambda>x. \<not> P x) xs @ tl (dropWhile (\<lambda>x. \<not> P x) xs))
      else None)"
  by (induction xs) auto

lemma list_remove_ids:
  "list_remove (same_hook h) l = Some l' \<Longrightarrow> map hook_id l' = remove1 (hook_id h) (map hook_id l)"
proof (induction l arbitrary: l')
  case Nil
  then show ?case by simp
next
  case (Cons x l)
  show ?case
  proof (cases "same_hook h x")
    case True
    then show ?thesis using Cons.prems by (simp add: same_hook_def)
  next
    case False
    then obtain l2 where l2: "list_remove (same_hook h) l = Some l2" and l': "l' = x # l2"
      using Cons.prems by auto
    have "map hook_id l2 = remove1 (hook_id h) (map hook_id l)" by (rule Cons.IH) (rule l2)
    then show ?thesis using False l' by (simp add: same_hook_def)
  qed
qed

lemma unregister_raw_exact:
  "unregister_raw h m =
     (if is_catch_all h then
        (if hook_id h \<in> hook_id ` set (catch_all_triggers m)
         then (m\<lparr>catch_all_triggers :=
                   takeWhile (\<lambda>x. hook_id x \<noteq> hook_id h) (catch_all_triggers m)
                   @ tl (dropWhile (\<lambda>x. hook_id x \<noteq> hook_id h) (catch_all_triggers m))\<rparr>, None)
         else (m, Some ValueError))
      else (m\<lparr>raw_triggers := fst (for_loop (remove_from_dict h) (triggers h) (raw_triggers m))\<rparr>,
            snd (for_loop (remove_from_dict h) (triggers h) (raw_triggers m))))"
proof -
  have eq: "(\<lambda>x. \<not> same_hook h x) = (\<lambda>x. hook_id x \<noteq> hook_id h)"
    by (auto simp: same_hook_def)
  have ex: "(\<exists>x\<in>set (catch_all_triggers m). same_hook h x) = (hook_id h \<in> hook_id ` set (catch_all_triggers m))"
    by (auto simp: same_hook_def)
  show ?thesis
    by (simp add: unregister_raw_def list_remove_exact eq ex split: prod.splits)
qed

lemma for_loop_unregister_raw:
  assumes "for_loop unregister_raw hs m = (m', None)"
  shows "map hook_id (catch_all_triggers m') =
           foldl (\<lambda>ids i. remove1 i ids) (map hook_id (catch_all_triggers m))
             (map hook_id (filter is_catch_all hs))
       \<and> raw_triggers m' =
           fst (for_loop (\<lambda>g. for_loop (remove_from_dict g) (triggers g))
                  (filter (\<lambda>g. \<not> is_catch_all g) hs) (raw_triggers m))"
  using assms
proof (induction hs arbitrary: m)
  case Nil
  then show ?case by simp
next
  case (Cons h hs)
  obtain s1 where b: "unregister_raw h m = (s1, None)" and r: "for_loop unregister_raw hs s1 = (m', None)"
    using for_loop_success[OF Cons.prems] by blast
  note ih = Cons.IH[OF r]
  show ?case
  proof (cases "is_catch_all h")
    case True
    obtain l where l: "list_remove (same_hook h) (catch_all_triggers m) = Some l"
      and s1: "s1 = m\<lparr>catch_all_triggers := l\<rparr>"
      using b True by (auto simp: unregister_raw_def split: option.splits)
    have "map hook_id (catch_all_triggers s1) = remove1 (hook_id h) (map hook_id (catch_all_triggers m))"
      using list_remove_ids[OF l] s1 by simp
    moreover have "raw_triggers s1 = raw_triggers m" using s1 by simp
    ultimately show ?thesis using ih True by simp
  next
    case False
    obtain d where d: "for_loop (remove_from_dict h) (triggers h) (raw_triggers m) = (d, None)"
      and s1: "s1 = m\<lparr>raw_triggers := d\<rparr>"
      using b False by (auto simp: unregister_raw_def split: prod.splits)
    have "catch_all_triggers s1 = catch_all_triggers m" "raw_triggers s1 = d" using s1 by simp_all
    then show ?thesis using ih False d by simp
  qed
qed

lemma remove_ids_distinct:
  "distinct ids \<Longrightarrow>
     distinct (foldl (\<lambda>ids i. remove1 i ids) ids xs)
     \<and> set (foldl (\<lambda>ids i. remove1 i ids) ids xs) = set ids - set xs"
  by (induction xs arbitrary: ids) auto

lemma unload_plugin_raw:
  assumes loaded: "plugins m path = Some p"
    and ok: "fst (unload_plugin m path) = Unloaded"
  shows "map hook_id (catch_all_triggers (fst (snd (unload_plugin m path)))) =
           foldl (\<lambda>ids i. remove1 i ids) (map hook_id (catch_all_triggers m))
             (map hook_id (filter is_catch_all (hooks p ''irc_raw'')))"
    and "raw_triggers (fst (snd (unload_plugin m path))) =
           fst (for_loop (\<lambda>g. for_loop (remove_from_dict g) (triggers g))
                  (filter (\<lambda>g. \<not> is_catch_all g) (hooks p ''irc_raw'')) (raw_triggers m))"
proof -
  obtain m1 q n where u: "unregister_hooks p m = (m1, None)"
    and e: "fst (snd (unload_plugin m path)) =
         m1\<lparr>hook_waiting_queues := q, next_future := n,
            the_bot := unregister_tables p (the_bot m1),
            plugins := (plugins m1)(file_path p := None)\<rparr>"
    using unload_plugin_unloaded[OF loaded ok] by blast
  obtain s1 s2 s3 s4 s5 s6 s7 s8 s9 s10 where
      l1: "for_loop unregister_cap_available (hooks p ''on_cap_available'') m = (s1, None)"
    and l2: "for_loop unregister_cap_ack (hooks p ''on_cap_ack'') s1 = (s2, None)"
    and l3: "for_loop unregister_command (hooks p ''command'') s2 = (s3, None)"
    and l4: "for_loop unregister_raw (hooks p ''irc_raw'') s3 = (s4, None)"
    and l5: "for_loop unregister_event (hooks p ''event'') s4 = (s5, None)"
    and l6: "for_loop unregister_regex (hooks p ''regex'') s5 = (s6, None)"
    and l7: "for_loop unregister_sieve (hooks p ''sieve'') s6 = (s7, None)"
    and l8: "for_loop unregister_connect (hooks p ''on_connect'') s7 = (s8, None)"
    and l9: "for_loop unregister_out (hooks p ''irc_out'') s8 = (s9, None)"
    and l10: "for_loop unregister_post (hooks p ''post_hook'') s9 = (s10, None)"
    and l11: "for_loop unregister_perm (hooks p ''perm_check'') s10 = (m1, None)"
    using unregister_hooks_success[OF u] by blast
  have c1: "catch_all_triggers s1 = catch_all_triggers m \<and> raw_triggers s1 = raw_triggers m"
    using for_loop_keeps_raw[of unregister_cap_available "hooks p ''on_cap_available''" m] l1
    by (simp add: unregister_catch_all_frame unregister_raw_frame)
  have c2: "catch_all_triggers s2 = catch_all_triggers s1 \<and> raw_triggers s2 = raw_triggers s1"
    using for_loop_keeps_raw[of unregister_cap_ack "hooks p ''on_cap_ack''" s1] l2
    by (simp add: unregister_catch_all_frame unregister_raw_frame)
  have c3: "catch_all_triggers s3 = catch_all_triggers s2 \<and> raw_triggers s3 = raw_triggers s2"
    using for_loop_keeps_raw[of unregister_command "hooks p ''command''" s2] l3
    by (simp add: unregister_catch_all_frame unregister_raw_frame)
  note c4 = for_loop_unregister_raw[OF l4]
  have c5: "catch_all_triggers s5 = catch_all_triggers s4 \<and> raw_triggers s5 = raw_triggers s4"
    using for_loop_keeps_raw[of unregister_event "hooks p ''event''" s4] l5
    by (simp add: unregister_catch_all_frame unregister_raw_frame)
  have c6: "catch_all_triggers s6 = catch_all_triggers s5 \<and> raw_triggers s6 = raw_triggers s5"
    using for_loop_keeps_raw[of unregister_regex "hooks p ''regex''" s5] l6
    by (simp add: unregister_catch_all_frame unregister_raw_frame)
  have c7: "catch_all_triggers s7 = catch_all_triggers s6 \<and> raw_triggers s7 = raw_triggers s6"
    using for_loop_keeps_raw[of unregister_sieve "hooks p ''sieve''" s6] l7
    by (simp add: unregister_catch_all_frame unregister_raw_frame)
  have c8: "catch_all_triggers s8 = catch_all_triggers s7 \<and> raw_triggers s8 = raw_triggers s7"
    using for_loop_keeps_raw[of unregister_connect "hooks p ''on_connect''" s7] l8
    by (simp add: unregister_catch_all_frame unregister_raw_frame)
  have c9: "catch_all_triggers s9 = catch_all_triggers s8 \<and> raw_triggers s9 = raw_triggers s8"
    using for_loop_keeps_raw[of unregister_out "hooks p ''irc_out''" s8] l9
    by (simp add: unregister_catch_all_frame unregister_raw_frame)
  have c10: "catch_all_triggers s10 = catch_all_triggers s9 \<and> raw_triggers s10 = raw_triggers s9"
    using for_loop_keeps_raw[of unregister_post "hooks p ''post_hook''" s9] l10
    by (simp add: unregister_catch_all_frame unregister_raw_frame)
  have c11: "catch_all_triggers m1 = catch_all_triggers s10 \<and> raw_triggers m1 = raw_triggers s10"
    using for_loop_keeps_raw[of unregister_perm "hooks p ''perm_check''" s10] l11
    by (simp add: unregister_catch_all_frame unregister_raw_frame)
  show "map hook_id (catch_all_triggers (fst (snd (unload_plugin m path)))) =
           foldl (\<lambda>ids i. remove1 i ids) (map hook_id (catch_all_triggers m))
             (map hook_id (filter is_catch_all (hooks p ''irc_raw'')))"
    using c4 by (simp add: e c11 c10 c9 c8 c7 c6 c5 c3 c2 c1)
  show "raw_triggers (fst (snd (unload_plugin m path))) =
           fst (for_loop (\<lambda>g. for_loop (remove_from_dict g) (triggers g))
                  (filter (\<lambda>g. \<not> is_catch_all g) (hooks p ''irc_raw'')) (raw_triggers m))"
    using c4 by (simp add: e c11 c10 c9 c8 c7 c6 c5 c3 c2 c1)
qed

text \<open>
  Claim C10: a raw hook whose trigger set contains \<^verbatim>\<open>*\<close> is appended to the catch-all
  list and leaves \<^verbatim>\<open>raw_triggers\<close> as it is, whatever other tokens its set holds; its
  unregistration takes its first occurrence out of the catch-all list (or raises
  \<^verbatim>\<open>ValueError\<close> when the list does not hold it) and leaves \<^verbatim>\<open>raw_triggers\<close> as it
  is. Over a plugin's raw hooks: the catch-all list receives the catch-all hooks, and
  \<^verbatim>\<open>raw_triggers\<close> receives the tokens of the other hooks only; a load that completes
  then sorts both. Unloading a plugin whose raw hooks are all catch-all leaves
  \<^verbatim>\<open>raw_triggers\<close> as it is, however the unload ends. After an unload that completes,
  the catch-all list has lost one occurrence of each catch-all hook of the plugin and
  nothing else (when no hook is listed twice, it holds the hooks it held but for the
  plugin's catch-all hooks), and \<^verbatim>\<open>raw_triggers\<close> is what removing the tokens of the
  plugin's other raw hooks gives: no token of a catch-all hook is looked up in it.
\<close>

theorem catch_all_raw_hook_indexed_in_catch_all_only:
  "(is_catch_all h \<longrightarrow>
      register_raw_hook (cat, raw) h = (cat @ [h], raw)
      \<and> raw_triggers (fst (unregister_raw h m)) = raw_triggers m
      \<and> unregister_raw h m =
          (if hook_id h \<in> hook_id ` set (catch_all_triggers m)
           then (m\<lparr>catch_all_triggers :=
                     takeWhile (\<lambda>x. hook_id x \<noteq> hook_id h) (catch_all_triggers m)
                     @ tl (dropWhile (\<lambda>x. hook_id x \<noteq> hook_id h) (catch_all_triggers m))\<rparr>, None)
           else (m, Some ValueError)))
   \<and> foldl register_raw_hook (cat, raw) hs =
       (cat @ filter is_catch_all hs,
        foldl (\<lambda>r g. foldl (append_in_dict g) r (triggers g)) raw (filter (\<lambda>g. \<not> is_catch_all g) hs))
   \<and> (fst (load_plugin m req) = Loaded \<longrightarrow>
        (\<exists>code. req_import req = Inr code
          \<and> catch_all_triggers (fst (snd (load_plugin m req))) =
              sort_hooks (catch_all_triggers m @ filter is_catch_all
                (hooks (Plugin (req_file_path req) (req_file_name req) (req_title req) code) ''irc_raw''))
          \<and> raw_triggers (fst (snd (load_plugin m req))) =
              map_option sort_hooks \<circ>
                foldl (\<lambda>r g. foldl (append_in_dict g) r (triggers g)) (raw_triggers m)
                  (filter (\<lambda>g. \<not> is_catch_all g)
                    (hooks (Plugin (req_file_path req) (req_file_name req) (req_title req) code) ''irc_raw''))))
   \<and> (plugins m path = Some p \<and> (\<forall>g\<in>set (hooks p ''irc_raw''). is_catch_all g) \<longrightarrow>
        raw_triggers (fst (snd (unload_plugin m path))) = raw_triggers m)
   \<and> (plugins m path = Some p \<and> fst (unload_plugin m path) = Unloaded \<longrightarrow>
        map hook_id (catch_all_triggers (fst (snd (unload_plugin m path)))) =
          foldl (\<lambda>ids i. remove1 i ids) (map hook_id (catch_all_triggers m))
            (map hook_id (filter is_catch_all (hooks p ''irc_raw'')))
        \<and> (distinct (map hook_id (catch_all_triggers m)) \<longrightarrow>
             set (map hook_id (catch_all_triggers (fst (snd (unload_plugin m path))))) =
               set (map hook_id (catch_all_triggers m))
               - set (map hook_id (filter is_catch_all (hooks p ''irc_raw''))))
        \<and> raw_triggers (fst (snd (unload_plugin m path))) =
            fst (for_loop (\<lambda>g. for_loop (remove_from_dict g) (triggers g))
                   (filter (\<lambda>g. \<not> is_catch_all g) (hooks p ''irc_raw'')) (raw_triggers m)))"
proof -
  have a: "is_catch_all h \<longrightarrow>
      register_raw_hook (cat, raw) h = (cat @ [h], raw)
      \<and> raw_triggers (fst (unregister_raw h m)) = raw_triggers m
      \<and> unregister_raw h m =
          (if hook_id h \<in> hook_id ` set (catch_all_triggers m)
           then (m\<lparr>catch_all_triggers :=
                     takeWhile (\<lambda>x. hook_id x \<noteq> hook_id h) (catch_all_triggers m)
                     @ tl (dropWhile (\<lambda>x. hook_id x \<noteq> hook_id h) (catch_all_triggers m))\<rparr>, None)
           else (m, Some ValueError))"
    using unregister_raw_exact[of h m] unregister_raw_catch_all(1)[of h m]
    by (simp add: register_raw_hook_def)
  have e: "plugins m path = Some p \<and> fst (unload_plugin m path) = Unloaded \<longrightarrow>
        map hook_id (catch_all_triggers (fst (snd (unload_plugin m path)))) =
          foldl (\<lambda>ids i. remove1 i ids) (map hook_id (catch_all_triggers m))
            (map hook_id (filter is_catch_all (hooks p ''irc_raw'')))
        \<and> (distinct (map hook_id (catch_all_triggers m)) \<longrightarrow>
             set (map hook_id (catch_all_triggers (fst (snd (unload_plugin m path))))) =
               set (map hook_id (catch_all_triggers m))
               - set (map hook_id (filter is_catch_all (hooks p ''irc_raw''))))
        \<and> raw_triggers (fst (snd (unload_plugin m path))) =
            fst (for_loop (\<lambda>g. for_loop (remove_from_dict g) (triggers g))
                   (filter (\<lambda>g. \<not> is_catch_all g) (hooks p ''irc_raw'')) (raw_triggers m))"
    using unload_plugin_raw[of m path p]
      remove_ids_distinct[of "map hook_id (catch_all_triggers m)"
        "map hook_id (filter is_catch_all (hooks p ''irc_raw''))"]
    by simp
  show ?thesis
    using a e register_raw_hooks_split[of cat raw hs] load_plugin_raw[of m req]
      unload_plugin_catch_all_only[of m path p]
    by blast
qed

theorem catch_all_raw_hook_indexed_in_catch_all_only_witness:
  "(let other = \<lparr>req_file_path = ''/bot/plugins/other.py'', req_file_name = ''other.py'',
         req_title = ''other'',
         req_import = Inr \<lparr>module_hooks = (\<lambda>t. if t = ''irc_raw''
               then [(basic_hook 3 t ''other'' ''on_msg'')\<lparr>triggers := [''PRIVMSG'']\<rparr>] else []),
             module_tables = []\<rparr>\<rparr>;
        log = \<lparr>req_file_path = ''/bot/plugins/log.py'', req_file_name = ''log.py'',
         req_title = ''log'',
         req_import = Inr \<lparr>module_hooks = (\<lambda>t. if t = ''irc_raw''
               then [(basic_hook 7 t ''log'' ''all_lines'')\<lparr>triggers := [''PRIVMSG'', ''*'']\<rparr>] else []),
             module_tables = []\<rparr>\<rparr>;
        m1 = fst (snd (load_plugin (new_manager basic_bot) other));
        m2 = fst (snd (load_plugin m1 log));
        m3 = fst (snd (unload_plugin m2 ''/bot/plugins/log.py''))
    in fst (load_plugin m1 log) = Loaded
     \<and> map hook_id (catch_all_triggers m1) = []
     \<and> map hook_id (catch_all_triggers m2) = [7]
     \<and> map_option (map hook_id) (raw_triggers m2 ''PRIVMSG'') = Some [3]
     \<and> fst (unload_plugin m2 ''/bot/plugins/log.py'') = Unloaded
     \<and> map hook_id (catch_all_triggers m3) = []
     \<and> map_option (map hook_id) (raw_triggers m3 ''PRIVMSG'') = Some [3])"
proof -
  let ?c1 = "\<lparr>module_hooks = (\<lambda>t. if t = ''irc_raw''
               then [(basic_hook 3 t ''other'' ''on_msg'')\<lparr>triggers := [''PRIVMSG'']\<rparr>] else []),
             module_tables = []\<rparr>"
  let ?c2 = "\<lparr>module_hooks = (\<lambda>t. if t = ''irc_raw''
               then [(basic_hook 7 t ''log'' ''all_lines'')\<lparr>triggers := [''PRIVMSG'', ''*'']\<rparr>] else []),
             module_tables = []\<rparr>"
  let ?other = "\<lparr>req_file_path = ''/bot/plugins/other.py'', req_file_name = ''other.py'',
         req_title = ''other'', req_import = Inr ?c1\<rparr>"
  let ?log = "\<lparr>req_file_path = ''/bot/plugins/log.py'', req_file_name = ''log.py'',
         req_title = ''log'', req_import = Inr ?c2\<rparr>"
  let ?h3 = "(basic_hook 3 ''irc_raw'' ''other'' ''on_msg'')\<lparr>triggers := [''PRIVMSG''],
       hook_type := ''irc_raw'', plugin_title := ''other''\<rparr>"
  let ?h7 = "(basic_hook 7 ''irc_raw'' ''log'' ''all_lines'')\<lparr>triggers := [''PRIVMSG'', ''*''],
       hook_type := ''irc_raw'', plugin_title := ''log''\<rparr>"
  let ?p2 = "loaded_plugin (Plugin ''/bot/plugins/log.py'' ''log.py'' ''log'' ?c2)"
  define m0 where "m0 = new_manager basic_bot"
  define m1 where "m1 = fst (snd (load_plugin m0 ?other))"
  define m2 where "m2 = fst (snd (load_plugin m1 ?log))"
  define m3 where "m3 = fst (snd (unload_plugin m2 ''/bot/plugins/log.py''))"
  have pol0: "check_plugin_loading (the_bot m0) (req_title ?other) = None"
    by (simp add: m0_def check_plugin_loading_def new_manager_def basic_bot_def)
  have imp1: "req_import ?other = Inr ?c1" by simp
  have none1: "module_hooks ?c1 ''on_start'' = []" by simp
  have imp2: "req_import ?log = Inr ?c2" by simp
  have none2: "module_hooks ?c2 ''on_start'' = []" by simp
  have l1: "fst (load_plugin m0 ?other) = Loaded"
    by (rule load_plugin_without_on_start(1)[OF pol0 imp1 none1])
  have cfg1: "config_plugin_loading (the_bot m1) = None"
    using load_plugin_without_on_start_policy(1)[OF pol0 imp1 none1]
    by (simp add: m1_def m0_def new_manager_def basic_bot_def)
  have pol1: "check_plugin_loading (the_bot m1) (req_title ?log) = None"
    using cfg1 by (simp add: check_plugin_loading_def)
  have l2: "fst (load_plugin m1 ?log) = Loaded"
    by (rule load_plugin_without_on_start(1)[OF pol1 imp2 none2])
  have hooks1: "hooks (Plugin ''/bot/plugins/other.py'' ''other.py'' ''other'' ?c1) ''irc_raw'' = [?h3]"
    by (simp add: Plugin_def find_hooks_def)
  have hooks2: "hooks (Plugin ''/bot/plugins/log.py'' ''log.py'' ''log'' ?c2) ''irc_raw'' = [?h7]"
    by (simp add: Plugin_def find_hooks_def)
  have ca3: "\<not> is_catch_all ?h3" and ca7: "is_catch_all ?h7"
    by (simp_all add: is_catch_all_def basic_hook_def)
  have e0: "catch_all_triggers m0 = []" "raw_triggers m0 = Map.empty"
    by (simp_all add: m0_def new_manager_def)
  have s1: "catch_all_triggers m1 = [] \<and> raw_triggers m1 ''PRIVMSG'' = Some [?h3]"
    using catch_all_raw_hook_indexed_in_catch_all_only[of _ _ _ m0 _ ?other] l1 e0 hooks1 ca3
    by (simp add: m1_def sort_hooks_def append_in_dict_def)
  have s2: "catch_all_triggers m2 = [?h7] \<and> raw_triggers m2 ''PRIVMSG'' = Some [?h3]"
    using catch_all_raw_hook_indexed_in_catch_all_only[of _ _ _ m1 _ ?log] l2 s1 hooks2 ca7
    by (simp add: m2_def sort_hooks_def)
  have pl2: "plugins m2 ''/bot/plugins/log.py'' = Some ?p2"
    using load_plugin_without_on_start_policy(3)[OF pol1 imp2 none2] by (simp add: m2_def)
  have hk: "hooks ?p2 = (\<lambda>t. if t = ''irc_raw'' then [?h7] else [])"
    by (rule ext) (simp add: loaded_plugin_def Plugin_def find_hooks_def)
  have un: "unregister_hooks ?p2 m2 = (m2\<lparr>catch_all_triggers := []\<rparr>, None)"
    unfolding unregister_hooks_def hk
    using ca7 s2 by (simp add: seq_def unregister_raw_def same_hook_def)
  have u: "fst (unload_plugin m2 ''/bot/plugins/log.py'') = Unloaded"
    by (rule unload_plugin_without_on_stop[OF pl2 _ _ un])
       (simp_all add: hk pl2, simp add: loaded_plugin_def Plugin_def)
  have own: "hooks ?p2 ''irc_raw'' = [?h7]" by (simp add: hk)
  have s3: "map hook_id (catch_all_triggers m3) = [] \<and> raw_triggers m3 = raw_triggers m2"
    using catch_all_raw_hook_indexed_in_catch_all_only[of _ _ _ m2 _ _ "''/bot/plugins/log.py''" ?p2]
      pl2 u s2 own ca7
    by (simp add: m3_def basic_hook_def)
  show ?thesis
    unfolding Let_def m0_def[symmetric] m1_def[symmetric] m2_def[symmetric] m3_def[symmetric]
    using l2 s1 s2 u s3 by (simp add: basic_hook_def)
qed

section \<open>Priority order of the indexes\<close>

lemma sort_hooks_sorted: "sorted (map priority (sort_hooks l))"
  by (simp add: sort_hooks_def)

lemma sort_hooks_stable:
  "filter (\<lambda>h. priority h = k) (sort_hooks l) = filter (\<lambda>h. priority h = k) l"
  by (simp add: sort_hooks_def sort_key_stable)

lemma sort_hooks_idem: "sort_hooks (sort_hooks l) = sort_hooks l"
  by (simp add: sort_hooks_def sort_key_id_if_sorted)

lemma sort_indexes_fields:
  "sieves (sort_indexes m) = sort_hooks (sieves m)"
  "connect_hooks (sort_indexes m) = sort_hooks (connect_hooks m)"
  "out_sieves (sort_indexes m) = sort_hooks (out_sieves m)"
  "regex_hooks (sort_indexes m) = sort_key (\<lambda>x. priority (snd x)) (regex_hooks m)"
  "event_type_hooks (sort_indexes m) = map_option sort_hooks \<circ> event_type_hooks m"
  "perm_hooks (sort_indexes m) = sort_hooks \<circ> perm_hooks m"
  "hook_hooks (sort_indexes m) = sort_hooks \<circ> hook_hooks m"
  "cap_hooks_on_available (sort_indexes m) = cap_hooks_on_available m"
  "cap_hooks_on_ack (sort_indexes m) = cap_hooks_on_ack m"
  by (simp_all add: sort_indexes_def Let_def sort_hooks_idem)

lemma register_hooks_fields:
  "sieves (fst (register_hooks p m)) = sieves m @ hooks p ''sieve''"
  "connect_hooks (fst (register_hooks p m)) = connect_hooks m @ hooks p ''on_connect''"
  "out_sieves (fst (register_hooks p m)) = out_sieves m @ hooks p ''irc_out''"
  "regex_hooks (fst (register_hooks p m)) = foldl register_regex_hook (regex_hooks m) (hooks p ''regex'')"
  "event_type_hooks (fst (register_hooks p m)) = foldl register_event_hook (event_type_hooks m) (hooks p ''event'')"
  "perm_hooks (fst (register_hooks p m)) = foldl register_perm_hook (perm_hooks m) (hooks p ''perm_check'')"
  "hook_hooks (fst (register_hooks p m)) = (hook_hooks m)(''post'' := hook_hooks m ''post'' @ hooks p ''post_hook'')"
  "cap_hooks_on_available (fst (register_hooks p m)) =
     foldl (register_cap_hook (str_casefold (the_bot m))) (cap_hooks_on_available m) (hooks p ''on_cap_available'')"
  "cap_hooks_on_ack (fst (register_hooks p m)) =
     foldl (register_cap_hook (str_casefold (the_bot m))) (cap_hooks_on_ack m) (hooks p ''on_cap_ack'')"
  by (simp_all add: register_hooks_def split: prod.splits)

lemma indexes_sorted_sort_indexes: "indexes_sorted (sort_indexes m)"
  by (auto simp: indexes_sorted_def sort_indexes_fields sort_indexes_raw sort_hooks_sorted)

lemma indexes_sorted_frame:
  "indexes_sorted (m\<lparr>the_bot := b, hook_waiting_queues := q, next_future := n\<rparr>) = indexes_sorted m"
  by (simp add: indexes_sorted_def)

lemma indexes_sorted_new: "indexes_sorted (new_manager b)"
  by (simp add: indexes_sorted_def new_manager_def)

lemma load_plugin_keeps_sorted:
  assumes "indexes_sorted m"
  shows "indexes_sorted (fst (snd (load_plugin m req)))"
proof -
  obtain b q n where
    "(fst (load_plugin m req) \<noteq> Loaded
        \<and> fst (snd (load_plugin m req)) = m\<lparr>the_bot := b, hook_waiting_queues := q, next_future := n\<rparr>)
   \<or> (fst (load_plugin m req) = Loaded
        \<and> (\<exists>code. req_import req = Inr code
             \<and> fst (snd (load_plugin m req)) =
                 sort_indexes (fst (register_hooks
                   (Plugin (req_file_path req) (req_file_name req) (req_title req) code)
                   (m\<lparr>the_bot := b, hook_waiting_queues := q, next_future := n\<rparr>)))))"
    using load_plugin_shape[of m req] by blast
  then show ?thesis
    using assms indexes_sorted_sort_indexes by (auto simp: indexes_sorted_frame)
qed

lemma load_sequence_sorted:
  "indexes_sorted m \<Longrightarrow> indexes_sorted (load_sequence m reqs)"
  unfolding load_sequence_def
  by (induction reqs arbitrary: m) (simp_all add: load_plugin_keeps_sorted)

lemma load_plugin_indexes:
  assumes "fst (load_plugin m req) = Loaded"
  shows "\<exists>code. req_import req = Inr code \<and>
    (let p = Plugin (req_file_path req) (req_file_name req) (req_title req) code;
         m' = fst (snd (load_plugin m req))
     in sieves m' = sort_hooks (sieves m @ hooks p ''sieve'')
      \<and> connect_hooks m' = sort_hooks (connect_hooks m @ hooks p ''on_connect'')
      \<and> out_sieves m' = sort_hooks (out_sieves m @ hooks p ''irc_out'')
      \<and> catch_all_triggers m' =
          sort_hooks (catch_all_triggers m @ filter is_catch_all (hooks p ''irc_raw''))
      \<and> hook_hooks m' =
          sort_hooks \<circ> (hook_hooks m)(''post'' := hook_hooks m ''post'' @ hooks p ''post_hook'')
      \<and> regex_hooks m' =
          sort_key (\<lambda>x. priority (snd x)) (foldl register_regex_hook (regex_hooks m) (hooks p ''regex''))
      \<and> raw_triggers m' =
          map_option sort_hooks \<circ>
            foldl (\<lambda>r g. foldl (append_in_dict g) r (triggers g)) (raw_triggers m)
              (filter (\<lambda>g. \<not> is_catch_all g) (hooks p ''irc_raw''))
      \<and> event_type_hooks m' =
          map_option sort_hooks \<circ> foldl register_event_hook (event_type_hooks m) (hooks p ''event'')
      \<and> perm_hooks m' =
          sort_hooks \<circ> foldl register_perm_hook (perm_hooks m) (hooks p ''perm_check'')
      \<and> cap_hooks_on_available m' =
          foldl (register_cap_hook (str_casefold (the_bot m))) (cap_hooks_on_available m)
                  (hooks p ''on_cap_available'')
      \<and> cap_hooks_on_ack m' =
          foldl (register_cap_hook (str_casefold (the_bot m))) (cap_hooks_on_ack m)
                  (hooks p ''on_cap_ack''))"
proof -
  obtain code b q n tr where c: "req_import req = Inr code"
    and b: "b = fst (create_tables
          (Plugin (req_file_path req) (req_file_name req) (req_title req) code) (the_bot m))"
    and e: "snd (load_plugin m req) =
        (sort_indexes (fst (register_hooks
           (Plugin (req_file_path req) (req_file_name req) (req_title req) code)
           (m\<lparr>the_bot := b, hook_waiting_queues := q, next_future := n\<rparr>))),
         tr @ snd (register_hooks
           (Plugin (req_file_path req) (req_file_name req) (req_title req) code)
           (m\<lparr>the_bot := b, hook_waiting_queues := q, next_future := n\<rparr>)))"
    using load_plugin_loaded_full[OF assms] by blast
  have cf: "str_casefold b = str_casefold (the_bot m)"
    unfolding b by (rule create_tables_casefold)
  show ?thesis
    using c by (simp add: e cf Let_def sort_indexes_fields sort_indexes_raw register_hooks_fields
        register_hooks_raw)
qed

text \<open>
  Claim C6, as the code has it: after any sequence of loads from a new manager, every list
  that \<^verbatim>\<open>load_plugin\<close> sorts is ascending in priority, and a load keeps them so. A load
  that completes leaves each of these lists as the stable sort of the list before it
  followed by the plugin's hooks in registration order: \<open>sort_hooks\<close> gives a sorted
  list and keeps the order of the hooks of any one priority. The two capability
  dictionaries are in no sorted list: they hold the hooks in registration order.
\<close>

theorem indexes_except_capabilities_stably_sorted:
  "indexes_sorted (load_sequence (new_manager b) reqs)
   \<and> (indexes_sorted m \<longrightarrow> indexes_sorted (fst (snd (load_plugin m req))))
   \<and> (fst (load_plugin m req) = Loaded \<longrightarrow>
        (\<exists>code. req_import req = Inr code \<and>
          (let p = Plugin (req_file_path req) (req_file_name req) (req_title req) code;
               m' = fst (snd (load_plugin m req))
           in sieves m' = sort_hooks (sieves m @ hooks p ''sieve'')
            \<and> connect_hooks m' = sort_hooks (connect_hooks m @ hooks p ''on_connect'')
            \<and> out_sieves m' = sort_hooks (out_sieves m @ hooks p ''irc_out'')
            \<and> catch_all_triggers m' =
                sort_hooks (catch_all_triggers m @ filter is_catch_all (hooks p ''irc_raw''))
            \<and> hook_hooks m' =
                sort_hooks \<circ> (hook_hooks m)(''post'' := hook_hooks m ''post'' @ hooks p ''post_hook'')
            \<and> regex_hooks m' =
                sort_key (\<lambda>x. priority (snd x)) (foldl register_regex_hook (regex_hooks m) (hooks p ''regex''))
            \<and> raw_triggers m' =
                map_option sort_hooks \<circ>
                  foldl (\<lambda>r g. foldl (append_in_dict g) r (triggers g)) (raw_triggers m)
                    (filter (\<lambda>g. \<not> is_catch_all g) (hooks p ''irc_raw''))
            \<and> event_type_hooks m' =
                map_option sort_hooks \<circ> foldl register_event_hook (event_type_hooks m) (hooks p ''event'')
            \<and> perm_hooks m' =
                sort_hooks \<circ> foldl register_perm_hook (perm_hooks m) (hooks p ''perm_check'')
            \<and> cap_hooks_on_available m' =
                foldl (register_cap_hook (str_casefold (the_bot m))) (cap_hooks_on_available m)
                  (hooks p ''on_cap_available'')
            \<and> cap_hooks_on_ack m' =
                foldl (register_cap_hook (str_casefold (the_bot m))) (cap_hooks_on_ack m)
                  (hooks p ''on_cap_ack''))))
   \<and> (\<forall>l k. sorted (map priority (sort_hooks l))
         \<and> filter (\<lambda>h. priority h = k) (sort_hooks l) = filter (\<lambda>h. priority h = k) l)
   \<and> (\<forall>(l :: (string \<times> hook) list) k. sorted (map (\<lambda>x. priority (snd x)) (sort_key (\<lambda>x. priority (snd x)) l))
         \<and> filter (\<lambda>x. priority (snd x) = k) (sort_key (\<lambda>x. priority (snd x)) l)
             = filter (\<lambda>x. priority (snd x) = k) l)"
proof -
  have a: "indexes_sorted (load_sequence (new_manager b) reqs)"
    by (rule load_sequence_sorted) (rule indexes_sorted_new)
  have s: "\<forall>l k. sorted (map priority (sort_hooks l))
         \<and> filter (\<lambda>h. priority h = k) (sort_hooks l) = filter (\<lambda>h. priority h = k) l"
    by (simp add: sort_hooks_sorted sort_hooks_stable)
  have r: "\<forall>(l :: (string \<times> hook) list) k. sorted (map (\<lambda>x. priority (snd x)) (sort_key (\<lambda>x. priority (snd x)) l))
         \<and> filter (\<lambda>x. priority (snd x) = k) (sort_key (\<lambda>x. priority (snd x)) l)
             = filter (\<lambda>x. priority (snd x) = k) l"
    by (simp add: sort_key_stable)
  show ?thesis
    using a load_plugin_keeps_sorted[of m req] load_plugin_indexes[of m req] s r by blast
qed

text \<open>
  Claim C6, as stated, fails for the capability lists: loading a plugin whose two
  \<^verbatim>\<open>on_cap_available\<close> hooks for the capability \<^verbatim>\<open>sasl\<close> have the priorities 5 and
  1 leaves them in that order.
\<close>

theorem capability_lists_keep_registration_order:
  "fst (load_plugin (new_manager basic_bot)
        \<lparr>req_file_path = ''/bot/plugins/caps.py'', req_file_name = ''caps.py'',
         req_title = ''caps'',
         req_import = Inr \<lparr>module_hooks =
             (\<lambda>t. if t = ''on_cap_available''
                  then [(basic_hook 1 t ''caps'' ''late'')\<lparr>priority := 5, caps := [''sasl'']\<rparr>,
                        (basic_hook 2 t ''caps'' ''early'')\<lparr>priority := 1, caps := [''SASL'']\<rparr>]
                  else []),
           module_tables = []\<rparr>\<rparr>) = Loaded
   \<and> map priority (cap_hooks_on_available (fst (snd (load_plugin (new_manager basic_bot)
        \<lparr>req_file_path = ''/bot/plugins/caps.py'', req_file_name = ''caps.py'',
         req_title = ''caps'',
         req_import = Inr \<lparr>module_hooks =
             (\<lambda>t. if t = ''on_cap_available''
                  then [(basic_hook 1 t ''caps'' ''late'')\<lparr>priority := 5, caps := [''sasl'']\<rparr>,
                        (basic_hook 2 t ''caps'' ''early'')\<lparr>priority := 1, caps := [''SASL'']\<rparr>]
                  else []),
           module_tables = []\<rparr>\<rparr>))) ''sasl'') = [5, 1]
   \<and> \<not> sorted (map priority (cap_hooks_on_available (fst (snd (load_plugin (new_manager basic_bot)
        \<lparr>req_file_path = ''/bot/plugins/caps.py'', req_file_name = ''caps.py'',
         req_title = ''caps'',
         req_import = Inr \<lparr>module_hooks =
             (\<lambda>t. if t = ''on_cap_available''
                  then [(basic_hook 1 t ''caps'' ''late'')\<lparr>priority := 5, caps := [''sasl'']\<rparr>,
                        (basic_hook 2 t ''caps'' ''early'')\<lparr>priority := 1, caps := [''SASL'']\<rparr>]
                  else []),
           module_tables = []\<rparr>\<rparr>))) ''sasl''))"
proof -
  let ?code = "\<lparr>module_hooks =
             (\<lambda>t. if t = ''on_cap_available''
                  then [(basic_hook 1 t ''caps'' ''late'')\<lparr>priority := 5, caps := [''sasl'']\<rparr>,
                        (basic_hook 2 t ''caps'' ''early'')\<lparr>priority := 1, caps := [''SASL'']\<rparr>]
                  else []),
           module_tables = []\<rparr>"
  let ?req = "\<lparr>req_file_path = ''/bot/plugins/caps.py'', req_file_name = ''caps.py'',
         req_title = ''caps'', req_import = Inr ?code\<rparr>"
  let ?m = "new_manager basic_bot"
  have policy: "check_plugin_loading (the_bot ?m) (req_title ?req) = None"
    by (simp add: check_plugin_loading_def new_manager_def basic_bot_def)
  have imp: "req_import ?req = Inr ?code" by simp
  have none: "module_hooks ?code ''on_start'' = []" by simp
  have l: "fst (load_plugin ?m ?req) = Loaded"
    by (rule load_plugin_without_on_start(1)[OF policy imp none])
  have cf: "ascii_casefold ''SASL'' = ''sasl''" "ascii_casefold ''sasl'' = ''sasl''"
    by code_simp+
  have bot: "str_casefold (the_bot ?m) = ascii_casefold"
    by (simp add: new_manager_def basic_bot_def)
  have c: "map priority (cap_hooks_on_available (fst (snd (load_plugin ?m ?req))) ''sasl'') = [5, 1]"
    using load_plugin_indexes[OF l]
    by (simp add: Let_def Plugin_def find_hooks_def register_cap_hook_def bot cf)
       (simp add: new_manager_def basic_hook_def)
  show ?thesis using l c by simp
qed

theorem indexes_except_capabilities_stably_sorted_witness:
  "map hook_id (sieves (fst (snd (load_plugin (new_manager basic_bot)
        \<lparr>req_file_path = ''/bot/plugins/filters.py'', req_file_name = ''filters.py'',
         req_title = ''filters'',
         req_import = Inr \<lparr>module_hooks =
             (\<lambda>t. if t = ''sieve''
                  then [(basic_hook 1 t ''filters'' ''a'')\<lparr>priority := 5\<rparr>,
                        (basic_hook 2 t ''filters'' ''b'')\<lparr>priority := 1\<rparr>,
                        (basic_hook 3 t ''filters'' ''c'')\<lparr>priority := 3\<rparr>,
                        (basic_hook 4 t ''filters'' ''d'')\<lparr>priority := 1\<rparr>]
                  else []),
           module_tables = []\<rparr>\<rparr>)))) = [2, 4, 3, 1]"
proof -
  let ?code = "\<lparr>module_hooks =
             (\<lambda>t. if t = ''sieve''
                  then [(basic_hook 1 t ''filters'' ''a'')\<lparr>priority := 5\<rparr>,
                        (basic_hook 2 t ''filters'' ''b'')\<lparr>priority := 1\<rparr>,
                        (basic_hook 3 t ''filters'' ''c'')\<lparr>priority := 3\<rparr>,
                        (basic_hook 4 t ''filters'' ''d'')\<lparr>priority := 1\<rparr>]
                  else []),
           module_tables = []\<rparr>"
  let ?req = "\<lparr>req_file_path = ''/bot/plugins/filters.py'', req_file_name = ''filters.py'',
         req_title = ''filters'', req_import = Inr ?code\<rparr>"
  let ?m = "new_manager basic_bot"
  have policy: "check_plugin_loading (the_bot ?m) (req_title ?req) = None"
    by (simp add: check_plugin_loading_def new_manager_def basic_bot_def)
  have imp: "req_import ?req = Inr ?code" by simp
  have none: "module_hooks ?code ''on_start'' = []" by simp
  have l: "fst (load_plugin ?m ?req) = Loaded"
    by (rule load_plugin_without_on_start(1)[OF policy imp none])
  have "\<exists>code. req_import ?req = Inr code \<and>
      sieves (fst (snd (load_plugin ?m ?req))) =
        sort_hooks (sieves ?m @ hooks (Plugin (req_file_path ?req) (req_file_name ?req) (req_title ?req) code) ''sieve'')"
    using indexes_except_capabilities_stably_sorted[of basic_bot "[]" ?m ?req] l
    by (simp add: Let_def)
  then have "sieves (fst (snd (load_plugin ?m ?req))) =
        sort_hooks (sieves ?m @ hooks (Plugin (req_file_path ?req) (req_file_name ?req) (req_title ?req) ?code) ''sieve'')"
    by simp
  then show ?thesis
    by (simp add: Plugin_def find_hooks_def new_manager_def sort_hooks_def basic_hook_def)
qed

section \<open>Single-instance hooks\<close>






lemma queue_of_upd:
  "queue_of (s\<lparr>queues := (queues s)(k \<mapsto> None), task_state := ts, arrived := a, granted := g\<rparr>) k'
     = (if k' = k then [] else queue_of s k')"
  "queue_of (s\<lparr>queues := (queues s)(k \<mapsto> Some q), task_state := ts, arrived := a\<rparr>) k'
     = (if k' = k then q else queue_of s k')"
  "queue_of (s\<lparr>task_state := ts\<rparr>) k' = queue_of s k'"
  "queue_of (s\<lparr>queues := (queues s)(k := None), task_state := ts\<rparr>) k'
     = (if k' = k then [] else queue_of s k')"
  "queue_of (s\<lparr>queues := (queues s)(k \<mapsto> Some q), task_state := ts, released := r, granted := g\<rparr>) k'
     = (if k' = k then q else queue_of s k')"
  by (simp_all add: queue_of_def)
























end
